theory Spec2Isabelle
  imports Main "HOL-Library.Word" "HOL-Library.Monad_Syntax"
begin

unbundle bit_operations_syntax

section \<open>Machine types and pointers\<close>

text \<open>
  The daemon is C on an LP64 target: \<open>uint8_t\<close>, \<open>uint16_t\<close>, \<open>uint32_t\<close> and
  \<open>uint64_t\<close> are words of that width, \<open>size_t\<close> is a 64-bit word, \<open>int\<close> has 32 bits.
  A pointer argument is either \<open>NULL\<close> or points to an object; for a byte buffer the
  object is the list of bytes that may be accessed through the pointer.
\<close>

type_synonym u8 = "8 word"
type_synonym u16 = "16 word"
type_synonym u32 = "32 word"
type_synonym u64 = "64 word"
type_synonym size_t = "64 word"

datatype 'a ptr = NULL | Ptr 'a

section \<open>Protocol constants and types (weave/protocol.h)\<close>

definition PROTOCOL_MAGIC :: u32 where "PROTOCOL_MAGIC = 0x57455645"
definition PROTOCOL_VERSION_1 :: u16 where "PROTOCOL_VERSION_1 = 0x0001"
definition MIN_SUPPORTED_VERSION :: u16 where "MIN_SUPPORTED_VERSION = PROTOCOL_VERSION_1"
definition MAX_SUPPORTED_VERSION :: u16 where "MAX_SUPPORTED_VERSION = PROTOCOL_VERSION_1"
definition MAX_MESSAGE_SIZE :: u32 where "MAX_MESSAGE_SIZE = 10 * 1024 * 1024"
definition MODEL_ID_SD35 :: u32 where "MODEL_ID_SD35 = 0x00000000"
definition SD35_MIN_DIMENSION :: u32 where "SD35_MIN_DIMENSION = 64"
definition SD35_MAX_DIMENSION :: u32 where "SD35_MAX_DIMENSION = 2048"
definition SD35_DIMENSION_ALIGNMENT :: u32 where "SD35_DIMENSION_ALIGNMENT = 64"
definition SD35_MIN_STEPS :: u32 where "SD35_MIN_STEPS = 1"
definition SD35_MAX_STEPS :: u32 where "SD35_MAX_STEPS = 100"
definition SD35_MIN_PROMPT_LENGTH :: u32 where "SD35_MIN_PROMPT_LENGTH = 1"
definition SD35_MAX_PROMPT_LENGTH :: u32 where "SD35_MAX_PROMPT_LENGTH = 256"
definition UINT32_MAX :: u32 where "UINT32_MAX = 0xFFFFFFFF"

text \<open>\<open>SD35_MIN_CFG = 0.0f\<close> and \<open>SD35_MAX_CFG = 20.0f\<close> as IEEE-754 single bit patterns.\<close>

definition SD35_MIN_CFG :: u32 where "SD35_MIN_CFG = 0x00000000"
definition SD35_MAX_CFG :: u32 where "SD35_MAX_CFG = 0x41A00000"

definition MSG_GENERATE_REQUEST :: u16 where "MSG_GENERATE_REQUEST = 0x0001"
definition MSG_GENERATE_RESPONSE :: u16 where "MSG_GENERATE_RESPONSE = 0x0002"
definition MSG_ERROR :: u16 where "MSG_ERROR = 0x00FF"

definition STATUS_OK :: u32 where "STATUS_OK = 200"
definition STATUS_BAD_REQUEST :: u32 where "STATUS_BAD_REQUEST = 400"
definition STATUS_INTERNAL_SERVER_ERROR :: u32 where "STATUS_INTERNAL_SERVER_ERROR = 500"

datatype error_code_t =
    ERR_NONE
  | ERR_INVALID_MAGIC
  | ERR_UNSUPPORTED_VERSION
  | ERR_INVALID_MODEL_ID
  | ERR_INVALID_PROMPT
  | ERR_INVALID_DIMENSIONS
  | ERR_INVALID_STEPS
  | ERR_INVALID_CFG
  | ERR_OUT_OF_MEMORY
  | ERR_GPU_ERROR
  | ERR_TIMEOUT
  | ERR_INTERNAL

text \<open>The enumerators' numeric values, as \<open>(uint32_t)error_code\<close> yields them.\<close>

fun error_code_value :: "error_code_t \<Rightarrow> u32" where
  "error_code_value ERR_NONE = 0"
| "error_code_value ERR_INVALID_MAGIC = 1"
| "error_code_value ERR_UNSUPPORTED_VERSION = 2"
| "error_code_value ERR_INVALID_MODEL_ID = 3"
| "error_code_value ERR_INVALID_PROMPT = 4"
| "error_code_value ERR_INVALID_DIMENSIONS = 5"
| "error_code_value ERR_INVALID_STEPS = 6"
| "error_code_value ERR_INVALID_CFG = 7"
| "error_code_value ERR_OUT_OF_MEMORY = 8"
| "error_code_value ERR_GPU_ERROR = 9"
| "error_code_value ERR_TIMEOUT = 10"
| "error_code_value ERR_INTERNAL = 99"

record protocol_header_t =
  magic :: u32
  version :: u16
  msg_type :: u16
  payload_len :: u32
  reserved :: u32

text \<open>
  \<open>cfg_scale\<close> is a C \<open>float\<close>; the model keeps its 32 bits.  \<open>prompt_data\<close> borrows
  the receive buffer: it is the part of the buffer object from the first prompt byte on.
\<close>

record sd35_generate_request_t =
  request_id :: u64
  model_id :: u32
  width :: u32
  height :: u32
  steps :: u32
  cfg_scale :: u32
  seed :: u64
  clip_l_offset :: u32
  clip_l_length :: u32
  clip_g_offset :: u32
  clip_g_length :: u32
  t5_offset :: u32
  t5_length :: u32
  prompt_data :: "u8 list ptr"
  prompt_data_len :: size_t

record sd35_generate_response_t =
  resp_request_id :: u64
  status :: u32
  generation_time_ms :: u32
  image_width :: u32
  image_height :: u32
  channels :: u32
  image_data_len :: u32
  image_data :: "u8 list ptr"

record error_response_t =
  err_request_id :: u64
  err_status :: u32
  error_code :: u32
  error_msg_len :: u16
  error_msg :: "u8 list ptr"

section \<open>IEEE-754 single precision, as far as the decoder uses it\<close>

text \<open>
  \<open>read_f32_be\<close> reinterprets four bytes as a \<open>float\<close>; the decoder then only compares
  the value with two constants and applies \<open>isnan\<close> and \<open>isinf\<close>.  A bit pattern has a
  sign, a biased exponent and a mantissa.  For a pattern that is not a NaN,
  \<open>f32_scaled\<close> is its value times \<open>2 ^ 149\<close>, an integer (\<open>m\<close> for a subnormal,
  \<open>(2 ^ 23 + m) * 2 ^ (e - 1)\<close> otherwise); an infinity gets \<open>2 ^ 277\<close>, above every
  finite value.  The C comparisons are false as soon as one operand is a NaN.
\<close>

definition f32_sign :: "u32 \<Rightarrow> bool" where
  "f32_sign b = bit b 31"

definition f32_exp :: "u32 \<Rightarrow> nat" where
  "f32_exp b = unat (drop_bit 23 b AND 0xFF)"

definition f32_mant :: "u32 \<Rightarrow> nat" where
  "f32_mant b = unat (b AND 0x7FFFFF)"

definition isnan :: "u32 \<Rightarrow> bool" where
  "isnan b = (f32_exp b = 255 \<and> f32_mant b \<noteq> 0)"

definition isinf :: "u32 \<Rightarrow> bool" where
  "isinf b = (f32_exp b = 255 \<and> f32_mant b = 0)"

definition f32_scaled :: "u32 \<Rightarrow> int" where
  "f32_scaled b =
     (let m = (if f32_exp b = 0 then int (f32_mant b)
               else (2 ^ 23 + int (f32_mant b)) * 2 ^ (f32_exp b - 1))
      in if f32_sign b then - m else m)"

definition f32_lt :: "u32 \<Rightarrow> u32 \<Rightarrow> bool" where
  "f32_lt a b = (\<not> isnan a \<and> \<not> isnan b \<and> f32_scaled a < f32_scaled b)"

definition f32_gt :: "u32 \<Rightarrow> u32 \<Rightarrow> bool" where
  "f32_gt a b = f32_lt b a"

section \<open>Big-endian readers and writers (protocol.c)\<close>

text \<open>
  A read through a pointer is defined only inside the pointed-to object.  \<open>byte_at\<close> is
  \<open>None\<close> outside it, and every reader built on it inherits that: \<open>None\<close> stands for
  the undefined behaviour of an out-of-bounds access.
\<close>

definition byte_at :: "u8 list \<Rightarrow> nat \<Rightarrow> u8 option" where
  "byte_at buf i = (if i < length buf then Some (buf ! i) else None)"

definition read_u16_be :: "u8 list \<Rightarrow> nat \<Rightarrow> u16 option" where
  "read_u16_be buf p = do {
     b0 \<leftarrow> byte_at buf p;
     b1 \<leftarrow> byte_at buf (p + 1);
     Some (push_bit 8 (ucast b0) OR ucast b1)
   }"

definition read_u32_be :: "u8 list \<Rightarrow> nat \<Rightarrow> u32 option" where
  "read_u32_be buf p = do {
     b0 \<leftarrow> byte_at buf p;
     b1 \<leftarrow> byte_at buf (p + 1);
     b2 \<leftarrow> byte_at buf (p + 2);
     b3 \<leftarrow> byte_at buf (p + 3);
     Some (push_bit 24 (ucast b0) OR push_bit 16 (ucast b1) OR push_bit 8 (ucast b2) OR ucast b3)
   }"

definition read_u64_be :: "u8 list \<Rightarrow> nat \<Rightarrow> u64 option" where
  "read_u64_be buf p = do {
     b0 \<leftarrow> byte_at buf p;
     b1 \<leftarrow> byte_at buf (p + 1);
     b2 \<leftarrow> byte_at buf (p + 2);
     b3 \<leftarrow> byte_at buf (p + 3);
     b4 \<leftarrow> byte_at buf (p + 4);
     b5 \<leftarrow> byte_at buf (p + 5);
     b6 \<leftarrow> byte_at buf (p + 6);
     b7 \<leftarrow> byte_at buf (p + 7);
     Some (push_bit 56 (ucast b0) OR push_bit 48 (ucast b1) OR push_bit 40 (ucast b2)
           OR push_bit 32 (ucast b3) OR push_bit 24 (ucast b4) OR push_bit 16 (ucast b5)
           OR push_bit 8 (ucast b6) OR ucast b7)
   }"

definition read_f32_be :: "u8 list \<Rightarrow> nat \<Rightarrow> u32 option" where
  "read_f32_be buf p = read_u32_be buf p"

text \<open>
  The writers assign consecutive bytes of the buffer.  \<open>store buf p bs\<close> is the buffer
  after \<open>buf[p + i] = bs ! i\<close> for every \<open>i\<close>; it is meant for \<open>p + length bs \<le> length buf\<close>.
\<close>

definition store :: "u8 list \<Rightarrow> nat \<Rightarrow> u8 list \<Rightarrow> u8 list" where
  "store buf p bs = take p buf @ bs @ drop (p + length bs) buf"

definition be16 :: "u16 \<Rightarrow> u8 list" where
  "be16 v = [ucast (drop_bit 8 v AND 0xFF), ucast (v AND 0xFF)]"

definition be32 :: "u32 \<Rightarrow> u8 list" where
  "be32 v = [ucast (drop_bit 24 v AND 0xFF), ucast (drop_bit 16 v AND 0xFF),
             ucast (drop_bit 8 v AND 0xFF), ucast (v AND 0xFF)]"

definition be64 :: "u64 \<Rightarrow> u8 list" where
  "be64 v = [ucast (drop_bit 56 v AND 0xFF), ucast (drop_bit 48 v AND 0xFF),
             ucast (drop_bit 40 v AND 0xFF), ucast (drop_bit 32 v AND 0xFF),
             ucast (drop_bit 24 v AND 0xFF), ucast (drop_bit 16 v AND 0xFF),
             ucast (drop_bit 8 v AND 0xFF), ucast (v AND 0xFF)]"

definition write_u16_be :: "u8 list \<Rightarrow> nat \<Rightarrow> u16 \<Rightarrow> u8 list" where
  "write_u16_be buf p v = store buf p (be16 v)"

definition write_u32_be :: "u8 list \<Rightarrow> nat \<Rightarrow> u32 \<Rightarrow> u8 list" where
  "write_u32_be buf p v = store buf p (be32 v)"

definition write_u64_be :: "u8 list \<Rightarrow> nat \<Rightarrow> u64 \<Rightarrow> u8 list" where
  "write_u64_be buf p v = store buf p (be64 v)"

definition memcpy :: "u8 list \<Rightarrow> nat \<Rightarrow> u8 list \<Rightarrow> nat \<Rightarrow> u8 list" where
  "memcpy buf p src n = store buf p (take n src)"

section \<open>The request decoder (protocol.c)\<close>

text \<open>
  \<open>decode_protocol_header\<close> returns \<open>Inr header\<close> for \<open>ERR_NONE\<close> and \<open>Inl\<close> of the
  error code otherwise.  The outer \<open>option\<close> is \<open>None\<close> when a read left the buffer
  object.
\<close>

definition decode_protocol_header ::
  "u8 list \<Rightarrow> size_t \<Rightarrow> (error_code_t + protocol_header_t) option" where
  "decode_protocol_header data data_len =
     (if data_len < 16 then Some (Inl ERR_INTERNAL)
      else do {
        m \<leftarrow> read_u32_be data 0;
        v \<leftarrow> read_u16_be data 4;
        t \<leftarrow> read_u16_be data 6;
        l \<leftarrow> read_u32_be data 8;
        r \<leftarrow> read_u32_be data 12;
        let header = \<lparr>magic = m, version = v, msg_type = t, payload_len = l, reserved = r\<rparr>;
        if magic header \<noteq> PROTOCOL_MAGIC then Some (Inl ERR_INVALID_MAGIC)
        else if version header < MIN_SUPPORTED_VERSION \<or>
                version header > MAX_SUPPORTED_VERSION then Some (Inl ERR_UNSUPPORTED_VERSION)
        else if msg_type header \<noteq> MSG_GENERATE_REQUEST then Some (Inl ERR_INTERNAL)
        else if payload_len header > MAX_MESSAGE_SIZE - 16 then Some (Inl ERR_INTERNAL)
        else Some (Inr header)
      })"

text \<open>
  \<open>decode_generate_request data data_len req\<close>.  The result is \<open>Inr\<close> of the populated
  request for \<open>ERR_NONE\<close>.  The offsets are those of \<open>ptr\<close>: it starts at \<open>data + 16\<close>
  and advances by the size of each field read, so the prompt region starts at 76.
  \<open>16 + header.payload_len\<close> is computed in \<open>uint32_t\<close> and then widened to \<open>size_t\<close>;
  \<open>remaining\<close> is a \<open>size_t\<close>.
\<close>

definition decode_generate_request ::
  "u8 list ptr \<Rightarrow> size_t \<Rightarrow> unit ptr \<Rightarrow> (error_code_t + sd35_generate_request_t) option" where
  "decode_generate_request datap data_len req =
     (case datap of NULL \<Rightarrow> Some (Inl ERR_INTERNAL) | Ptr data \<Rightarrow>
      if req = NULL then Some (Inl ERR_INTERNAL)
      else if data_len < 16 then Some (Inl ERR_INTERNAL)
      else do {
        hr \<leftarrow> decode_protocol_header data data_len;
        case hr of Inl err \<Rightarrow> Some (Inl err) | Inr header \<Rightarrow>
        if data_len < ucast (16 + payload_len header) then Some (Inl ERR_INTERNAL)
        else if payload_len header < 12 + 48 then Some (Inl ERR_INTERNAL)
        else do {
          let remaining = (ucast (payload_len header) :: size_t);
          rid \<leftarrow> read_u64_be data 16;
          let remaining = remaining - 8;
          mid \<leftarrow> read_u32_be data 24;
          let remaining = remaining - 4;
          if mid \<noteq> MODEL_ID_SD35 then Some (Inl ERR_INVALID_MODEL_ID)
          else if remaining < 48 then Some (Inl ERR_INTERNAL)
          else do {
            w \<leftarrow> read_u32_be data 28;
            h \<leftarrow> read_u32_be data 32;
            st \<leftarrow> read_u32_be data 36;
            cfg \<leftarrow> read_f32_be data 40;
            sd \<leftarrow> read_u64_be data 44;
            lo \<leftarrow> read_u32_be data 52;
            ll \<leftarrow> read_u32_be data 56;
            go \<leftarrow> read_u32_be data 60;
            gl \<leftarrow> read_u32_be data 64;
            to \<leftarrow> read_u32_be data 68;
            tl \<leftarrow> read_u32_be data 72;
            let remaining = remaining - 48;
            let r = \<lparr>request_id = rid, model_id = mid, width = w, height = h, steps = st,
                     cfg_scale = cfg, seed = sd,
                     clip_l_offset = lo, clip_l_length = ll,
                     clip_g_offset = go, clip_g_length = gl,
                     t5_offset = to, t5_length = tl,
                     prompt_data = Ptr (drop 76 data), prompt_data_len = remaining\<rparr>;
            if width r < SD35_MIN_DIMENSION \<or> width r > SD35_MAX_DIMENSION \<or>
               width r mod SD35_DIMENSION_ALIGNMENT \<noteq> 0 then Some (Inl ERR_INVALID_DIMENSIONS)
            else if height r < SD35_MIN_DIMENSION \<or> height r > SD35_MAX_DIMENSION \<or>
               height r mod SD35_DIMENSION_ALIGNMENT \<noteq> 0 then Some (Inl ERR_INVALID_DIMENSIONS)
            else if steps r < SD35_MIN_STEPS \<or> steps r > SD35_MAX_STEPS
              then Some (Inl ERR_INVALID_STEPS)
            else if f32_lt (cfg_scale r) SD35_MIN_CFG \<or> f32_gt (cfg_scale r) SD35_MAX_CFG \<or>
               isnan (cfg_scale r) \<or> isinf (cfg_scale r) then Some (Inl ERR_INVALID_CFG)
            else if clip_l_length r < SD35_MIN_PROMPT_LENGTH \<or>
               clip_l_length r > SD35_MAX_PROMPT_LENGTH then Some (Inl ERR_INVALID_PROMPT)
            else if clip_g_length r < SD35_MIN_PROMPT_LENGTH \<or>
               clip_g_length r > SD35_MAX_PROMPT_LENGTH then Some (Inl ERR_INVALID_PROMPT)
            else if t5_length r < SD35_MIN_PROMPT_LENGTH \<or>
               t5_length r > SD35_MAX_PROMPT_LENGTH then Some (Inl ERR_INVALID_PROMPT)
            else if ucast (clip_l_offset r) > prompt_data_len r then Some (Inl ERR_INVALID_PROMPT)
            else if ucast (clip_l_length r) > prompt_data_len r - ucast (clip_l_offset r)
              then Some (Inl ERR_INVALID_PROMPT)
            else if ucast (clip_g_offset r) > prompt_data_len r then Some (Inl ERR_INVALID_PROMPT)
            else if ucast (clip_g_length r) > prompt_data_len r - ucast (clip_g_offset r)
              then Some (Inl ERR_INVALID_PROMPT)
            else if ucast (t5_offset r) > prompt_data_len r then Some (Inl ERR_INVALID_PROMPT)
            else if ucast (t5_length r) > prompt_data_len r - ucast (t5_offset r)
              then Some (Inl ERR_INVALID_PROMPT)
            else Some (Inr r)
          }
        }
      })"

section \<open>The response and error encoders (protocol.c)\<close>

text \<open>
  An encoder gets the response, the output buffer with its size, and \<open>out_len\<close>.  It
  returns the error code, the buffer and \<open>*out_len\<close> as they are when it returns.
  \<open>16 + 16 + image_data_len\<close> and \<open>16 + payload_len\<close> are computed in \<open>uint32_t\<close>.
\<close>

definition encode_generate_response ::
  "sd35_generate_response_t ptr \<Rightarrow> u8 list ptr \<Rightarrow> size_t \<Rightarrow> size_t ptr \<Rightarrow>
   error_code_t \<times> u8 list ptr \<times> size_t ptr" where
  "encode_generate_response respp buffer buf_size out_len =
     (case respp of NULL \<Rightarrow> (ERR_INTERNAL, buffer, out_len) | Ptr resp \<Rightarrow>
      case buffer of NULL \<Rightarrow> (ERR_INTERNAL, buffer, out_len) | Ptr buf \<Rightarrow>
      if out_len = NULL then (ERR_INTERNAL, buffer, out_len)
      else case image_data resp of NULL \<Rightarrow> (ERR_INTERNAL, buffer, out_len) | Ptr img \<Rightarrow>
      if image_width resp < SD35_MIN_DIMENSION \<or> image_width resp > SD35_MAX_DIMENSION \<or>
         image_width resp mod SD35_DIMENSION_ALIGNMENT \<noteq> 0
        then (ERR_INVALID_DIMENSIONS, buffer, out_len)
      else if image_height resp < SD35_MIN_DIMENSION \<or> image_height resp > SD35_MAX_DIMENSION \<or>
         image_height resp mod SD35_DIMENSION_ALIGNMENT \<noteq> 0
        then (ERR_INVALID_DIMENSIONS, buffer, out_len)
      else if channels resp \<noteq> 3 \<and> channels resp \<noteq> 4
        then (ERR_INVALID_DIMENSIONS, buffer, out_len)
      else if image_width resp > UINT32_MAX div image_height resp
        then (ERR_INVALID_DIMENSIONS, buffer, out_len)
      else
        let pixels = image_width resp * image_height resp in
        if pixels > UINT32_MAX div channels resp then (ERR_INVALID_DIMENSIONS, buffer, out_len)
        else
          let expected_data_len = pixels * channels resp in
          if image_data_len resp \<noteq> expected_data_len
            then (ERR_INVALID_DIMENSIONS, buffer, out_len)
          else if image_data_len resp > MAX_MESSAGE_SIZE - 16 - 16
            then (ERR_INTERNAL, buffer, out_len)
          else
            let payload_len = 16 + 16 + image_data_len resp;
                total_len = (ucast (16 + payload_len) :: size_t)
            in
            if total_len > buf_size then (ERR_INTERNAL, buffer, out_len)
            else
              let b = write_u32_be buf 0 PROTOCOL_MAGIC;
                  b = write_u16_be b 4 PROTOCOL_VERSION_1;
                  b = write_u16_be b 6 MSG_GENERATE_RESPONSE;
                  b = write_u32_be b 8 payload_len;
                  b = write_u32_be b 12 0;
                  b = write_u64_be b 16 (resp_request_id resp);
                  b = write_u32_be b 24 (status resp);
                  b = write_u32_be b 28 (generation_time_ms resp);
                  b = write_u32_be b 32 (image_width resp);
                  b = write_u32_be b 36 (image_height resp);
                  b = write_u32_be b 40 (channels resp);
                  b = write_u32_be b 44 (image_data_len resp);
                  b = memcpy b 48 img (unat (image_data_len resp))
              in (ERR_NONE, Ptr b, Ptr total_len))"

text \<open>
  In \<open>8 + 4 + 4 + 2 + resp->error_msg_len\<close> the \<open>uint16_t\<close> is promoted to \<open>int\<close>; the sum
  is at most \<open>18 + 65535\<close> and is stored in a \<open>uint32_t\<close>.
\<close>

definition encode_error_response ::
  "error_response_t ptr \<Rightarrow> u8 list ptr \<Rightarrow> size_t \<Rightarrow> size_t ptr \<Rightarrow>
   error_code_t \<times> u8 list ptr \<times> size_t ptr" where
  "encode_error_response respp buffer buf_size out_len =
     (case respp of NULL \<Rightarrow> (ERR_INTERNAL, buffer, out_len) | Ptr resp \<Rightarrow>
      case buffer of NULL \<Rightarrow> (ERR_INTERNAL, buffer, out_len) | Ptr buf \<Rightarrow>
      if out_len = NULL then (ERR_INTERNAL, buffer, out_len)
      else if error_msg resp = NULL \<and> error_msg_len resp > 0
        then (ERR_INTERNAL, buffer, out_len)
      else
        let payload_len = (8 + 4 + 4 + 2 + ucast (error_msg_len resp) :: u32) in
        if payload_len > MAX_MESSAGE_SIZE - 16 then (ERR_INTERNAL, buffer, out_len)
        else
          let total_len = (ucast (16 + payload_len) :: size_t) in
          if total_len > buf_size then (ERR_INTERNAL, buffer, out_len)
          else
            let b = write_u32_be buf 0 PROTOCOL_MAGIC;
                b = write_u16_be b 4 PROTOCOL_VERSION_1;
                b = write_u16_be b 6 MSG_ERROR;
                b = write_u32_be b 8 payload_len;
                b = write_u32_be b 12 0;
                b = write_u64_be b 16 (err_request_id resp);
                b = write_u32_be b 24 (err_status resp);
                b = write_u32_be b 28 (error_code resp);
                b = write_u16_be b 32 (error_msg_len resp);
                b = (case error_msg resp of
                       NULL \<Rightarrow> b
                     | Ptr msg \<Rightarrow> if error_msg_len resp > 0
                                  then memcpy b 34 msg (unat (error_msg_len resp)) else b)
            in (ERR_NONE, Ptr b, Ptr total_len))"

section \<open>The generation pipeline (generate.c)\<close>

text \<open>
  The inference engine is an external collaborator.  Its answers to one request are
  given from outside: what \<open>sd_wrapper_reset\<close> returns, what \<open>sd_wrapper_generate\<close>
  returns and stores in \<open>image\<close> for given parameters, and the two readings of the
  monotonic clock.  The calls made to the engine are recorded in the order they happen.
\<close>

datatype sd_wrapper_error_t =
    SD_WRAPPER_OK
  | SD_WRAPPER_ERR_INVALID_PARAM
  | SD_WRAPPER_ERR_MODEL_NOT_FOUND
  | SD_WRAPPER_ERR_MODEL_CORRUPT
  | SD_WRAPPER_ERR_OUT_OF_MEMORY
  | SD_WRAPPER_ERR_GPU_ERROR
  | SD_WRAPPER_ERR_INIT_FAILED
  | SD_WRAPPER_ERR_GENERATION_FAILED

record sd_wrapper_gen_params_t =
  prompt :: "u8 list ptr"
  negative_prompt :: "u8 list ptr"
  params_width :: u32
  params_height :: u32
  params_steps :: u32
  params_cfg_scale :: u32
  params_seed :: u64
  clip_skip :: int

record sd_wrapper_image_t =
  img_width :: u32
  img_height :: u32
  img_channels :: u32
  img_data :: "u8 list ptr"
  img_data_size :: size_t

datatype engine_call =
    CallReset
  | CallGenerate sd_wrapper_gen_params_t
  | CallFreeImage

record engine =
  reset_result :: sd_wrapper_error_t
  generate_result :: "sd_wrapper_gen_params_t \<Rightarrow> sd_wrapper_error_t \<times> sd_wrapper_image_t"
  start_time :: u64
  end_time :: u64

text \<open>The defaults of \<open>sd_wrapper_gen_params_init\<close> (sd_wrapper.cpp); \<open>4.5f\<close> is \<open>0x40900000\<close>.\<close>

definition sd_wrapper_gen_params_init :: sd_wrapper_gen_params_t where
  "sd_wrapper_gen_params_init =
     \<lparr>prompt = NULL, negative_prompt = NULL, params_width = 1024, params_height = 1024,
      params_steps = 28, params_cfg_scale = 0x40900000, params_seed = 0, clip_skip = 0\<rparr>"

text \<open>
  \<open>convert_request_params\<close> copies the CLIP-L prompt into the caller's buffer and
  terminates it with a zero byte; \<open>params->prompt\<close> points to that buffer.
  \<open>clip_l_offset + clip_l_length\<close> is a \<open>uint32_t\<close> sum: it can wrap, and then the check
  against \<open>prompt_data_len\<close> passes for a pair that lies outside the prompt data.
  \<open>prompt_data req = Ptr pd\<close>: \<open>pd\<close> are the bytes from \<open>prompt_data\<close> to the end of the
  memory object it points into.  \<open>memcpy\<close> reads \<open>clip_l_length\<close> bytes from
  \<open>prompt_data + clip_l_offset\<close>; a read past the end of the object is \<open>None\<close>.
\<close>

definition convert_request_params ::
  "sd35_generate_request_t ptr \<Rightarrow> unit ptr \<Rightarrow> unit ptr \<Rightarrow> size_t \<Rightarrow>
   (error_code_t + sd_wrapper_gen_params_t) option" where
  "convert_request_params reqp params promptp prompt_buf_size =
     (case reqp of NULL \<Rightarrow> Some (Inl ERR_INTERNAL) | Ptr req \<Rightarrow>
      if params = NULL \<or> promptp = NULL then Some (Inl ERR_INTERNAL)
      else case prompt_data req of NULL \<Rightarrow> Some (Inl ERR_INVALID_PROMPT) | Ptr pd \<Rightarrow>
      if clip_l_length req = 0 \<or> ucast (clip_l_length req) \<ge> prompt_buf_size
        then Some (Inl ERR_INVALID_PROMPT)
      else if ucast (clip_l_offset req + clip_l_length req) > prompt_data_len req
        then Some (Inl ERR_INVALID_PROMPT)
      else if unat (clip_l_offset req) + unat (clip_l_length req) > length pd
        then None
      else
        let prompt_buf = take (unat (clip_l_length req)) (drop (unat (clip_l_offset req)) pd) @ [0]
        in Some (Inr (sd_wrapper_gen_params_init
                 \<lparr>prompt := Ptr prompt_buf,
                  negative_prompt := NULL,
                  params_width := width req,
                  params_height := height req,
                  params_steps := steps req,
                  params_cfg_scale := cfg_scale req,
                  params_seed := seed req,
                  clip_skip := 0\<rparr>)))"

fun map_sd_error :: "sd_wrapper_error_t \<Rightarrow> error_code_t \<times> u32" where
  "map_sd_error SD_WRAPPER_OK = (ERR_NONE, STATUS_OK)"
| "map_sd_error SD_WRAPPER_ERR_INVALID_PARAM = (ERR_INVALID_PROMPT, STATUS_BAD_REQUEST)"
| "map_sd_error SD_WRAPPER_ERR_OUT_OF_MEMORY = (ERR_OUT_OF_MEMORY, STATUS_INTERNAL_SERVER_ERROR)"
| "map_sd_error SD_WRAPPER_ERR_GPU_ERROR = (ERR_GPU_ERROR, STATUS_INTERNAL_SERVER_ERROR)"
| "map_sd_error _ = (ERR_INTERNAL, STATUS_INTERNAL_SERVER_ERROR)"

text \<open>
  \<open>process_generate_request eng generation_performed ctx req resp\<close> returns the result
  (\<open>Inr\<close> of the populated response for \<open>ERR_NONE\<close>), the value of the static flag
  \<open>generation_performed\<close> afterwards, and the engine calls it made; \<open>None\<close> is the
  out-of-bounds read of \<open>convert_request_params\<close>.
\<close>

definition process_generate_request ::
  "engine \<Rightarrow> bool \<Rightarrow> unit ptr \<Rightarrow> sd35_generate_request_t ptr \<Rightarrow> unit ptr \<Rightarrow>
   ((error_code_t + sd35_generate_response_t) \<times> bool \<times> engine_call list) option" where
  "process_generate_request eng generation_performed ctx reqp resp =
     (case reqp of NULL \<Rightarrow> Some (Inl ERR_INTERNAL, generation_performed, []) | Ptr req \<Rightarrow>
      if ctx = NULL \<or> resp = NULL then Some (Inl ERR_INTERNAL, generation_performed, [])
      else
      case convert_request_params reqp (Ptr ()) (Ptr ()) (ucast SD35_MAX_PROMPT_LENGTH + 1) of
        None \<Rightarrow> None
      | Some (Inl err) \<Rightarrow> Some (Inl err, generation_performed, [])
      | Some (Inr params) \<Rightarrow> Some (
        if generation_performed \<and> reset_result eng \<noteq> SD_WRAPPER_OK
          then (Inl ERR_INTERNAL, generation_performed, [CallReset])
        else
          let calls = (if generation_performed then [CallReset] else []) @ [CallGenerate params];
              (sd_err, image) = generate_result eng params;
              (err, st) = map_sd_error sd_err
          in
          if err \<noteq> ERR_NONE then (Inl err, generation_performed, calls)
          else case img_data image of
            NULL \<Rightarrow> (Inl ERR_INTERNAL, generation_performed, calls)
          | Ptr pixels \<Rightarrow>
            if img_width image \<noteq> width req \<or> img_height image \<noteq> height req
              then (Inl ERR_INTERNAL, generation_performed, calls @ [CallFreeImage])
            else if img_width image < SD35_MIN_DIMENSION \<or> img_width image > SD35_MAX_DIMENSION \<or>
                    img_width image mod 64 \<noteq> 0
              then (Inl ERR_INTERNAL, generation_performed, calls @ [CallFreeImage])
            else if img_height image < SD35_MIN_DIMENSION \<or> img_height image > SD35_MAX_DIMENSION \<or>
                    img_height image mod 64 \<noteq> 0
              then (Inl ERR_INTERNAL, generation_performed, calls @ [CallFreeImage])
            else if img_channels image \<noteq> 3 \<and> img_channels image \<noteq> 4
              then (Inl ERR_INTERNAL, generation_performed, calls @ [CallFreeImage])
            else if img_data_size image > ucast UINT32_MAX
              then (Inl ERR_INTERNAL, generation_performed, calls @ [CallFreeImage])
            else
              let generation_time = end_time eng - start_time eng;
                  generation_time = (if generation_time > ucast UINT32_MAX
                                     then ucast UINT32_MAX else generation_time)
              in (Inr \<lparr>resp_request_id = request_id req,
                       status = STATUS_OK,
                       generation_time_ms = ucast generation_time,
                       image_width = img_width image,
                       image_height = img_height image,
                       channels = img_channels image,
                       image_data_len = ucast (img_data_size image),
                       image_data = Ptr pixels\<rparr>,
                  True, calls)))"

text \<open>
  A process serves requests one after another; the flag starts \<open>false\<close>.  \<open>run_requests\<close>
  feeds a sequence of requests, each with the engine's answers for it, through
  \<open>process_generate_request\<close> and lists, per request, the flag before the call, the result,
  the flag after the call and the engine calls.  It is \<open>None\<close> when a call reads out of
  bounds.
\<close>

fun run_requests ::
  "bool \<Rightarrow> (engine \<times> sd35_generate_request_t ptr) list \<Rightarrow>
   (bool \<times> (error_code_t + sd35_generate_response_t) \<times> bool \<times> engine_call list) list option"
  where
  "run_requests gp [] = Some []"
| "run_requests gp ((eng, req) # rest) =
     (case process_generate_request eng gp (Ptr ()) req (Ptr ()) of
        None \<Rightarrow> None
      | Some (res, gp', calls) \<Rightarrow>
          (case run_requests gp' rest of
             None \<Rightarrow> None
           | Some rs \<Rightarrow> Some ((gp, res, gp', calls) # rs)))"

section \<open>The connection handler (main.c)\<close>

definition MAX_REQUEST_SIZE :: u32 where "MAX_REQUEST_SIZE = 10 * 1024 * 1024"

text \<open>
  The peer and the kernel are outside the program.  What successive \<open>read\<close> calls on the
  socket return is a list of events: a chunk of bytes that has arrived (a call takes at
  most what it asked for and leaves the rest), an interruption by a signal (\<open>EINTR\<close>), or
  another error; after the last event the peer has closed and \<open>read\<close> returns 0.
  Likewise for \<open>write\<close>: the kernel accepts up to \<open>n\<close> bytes, or the call is interrupted,
  or it fails with another error and returns -1 (the send timeout, for one); after the
  last event the peer has closed.  A \<open>write\<close> to a socket whose peer has closed raises
  \<open>SIGPIPE\<close>.  The program installs handlers for \<open>SIGTERM\<close> and \<open>SIGINT\<close> only and writes
  with plain \<open>write\<close>, so the signal has its default action and the process is
  terminated inside the call: such a run is \<open>Killed\<close> and returns nothing.
\<close>

datatype rd_event = RData "u8 list" | REintr | RError

datatype wr_event = Wrote nat | WEintr | WError

datatype 'a outcome = Returns 'a | Killed

fun rd_event_size :: "rd_event \<Rightarrow> nat" where
  "rd_event_size (RData bs) = Suc (length bs)"
| "rd_event_size REintr = 1"
| "rd_event_size RError = 1"

text \<open>
  \<open>read_full evs buf count\<close>: \<open>buf\<close> holds the \<open>total\<close> bytes read so far.  The result is
  the return value, the bytes read and the events left.
\<close>

function read_full :: "rd_event list \<Rightarrow> u8 list \<Rightarrow> nat \<Rightarrow> int \<times> u8 list \<times> rd_event list" where
  "read_full evs buf count =
     (if length buf < count then
        (case evs of
           [] \<Rightarrow> (- 1, buf, [])
         | REintr # evs' \<Rightarrow> read_full evs' buf count
         | RError # evs' \<Rightarrow> (- 1, buf, evs')
         | RData bs # evs' \<Rightarrow>
             (let n = min (length bs) (count - length buf) in
              if n = 0 then (- 1, buf, evs')
              else read_full (if n < length bs then RData (drop n bs) # evs' else evs')
                     (buf @ take n bs) count))
      else (0, buf, evs))"
  by pat_completeness auto
termination
  by (relation "measure (\<lambda>(evs, buf, count). sum_list (map rd_event_size evs))") auto

declare read_full.simps [simp del]

text \<open>
  \<open>write_full evs pending out\<close>: \<open>pending\<close> are the bytes from \<open>buf + total\<close> up to
  \<open>count\<close>, \<open>out\<close> is what the socket has taken so far.  A \<open>write\<close> that takes nothing
  is not an error for this loop.
\<close>

fun write_full ::
  "wr_event list \<Rightarrow> u8 list \<Rightarrow> u8 list \<Rightarrow> (int \<times> u8 list \<times> wr_event list) outcome" where
  "write_full evs [] out = Returns (0, out, evs)"
| "write_full [] (b # bs) out = Killed"
| "write_full (WEintr # evs) (b # bs) out = write_full evs (b # bs) out"
| "write_full (WError # evs) (b # bs) out = Returns (- 1, out, evs)"
| "write_full (Wrote n # evs) (b # bs) out =
     write_full evs (drop n (b # bs)) (out @ take n (b # bs))"

fun is_server_error :: "error_code_t \<Rightarrow> bool" where
  "is_server_error ERR_OUT_OF_MEMORY = True"
| "is_server_error ERR_GPU_ERROR = True"
| "is_server_error ERR_TIMEOUT = True"
| "is_server_error ERR_INTERNAL = True"
| "is_server_error ERR_NONE = False"
| "is_server_error ERR_INVALID_MAGIC = False"
| "is_server_error ERR_UNSUPPORTED_VERSION = False"
| "is_server_error ERR_INVALID_MODEL_ID = False"
| "is_server_error ERR_INVALID_PROMPT = False"
| "is_server_error ERR_INVALID_DIMENSIONS = False"
| "is_server_error ERR_INVALID_STEPS = False"
| "is_server_error ERR_INVALID_CFG = False"

text \<open>
  The state of one client connection: the events still to come on either side and the
  bytes the socket has taken from the daemon.
\<close>

record conn =
  rd :: "rd_event list"
  wr :: "wr_event list"
  sent :: "u8 list"

text \<open>The bytes of a C string literal, without the terminator.\<close>

definition c_string :: "string \<Rightarrow> u8 list" where
  "c_string s = map (\<lambda>c. of_nat (of_char c)) s"

text \<open>
  \<open>build_error_response\<close> is the first part of \<open>send_error_response\<close>: the fields of
  \<open>err_resp\<close>.  \<open>response_buf\<close> is a 4096-byte array on the stack and \<open>response_len\<close> a
  local; neither is initialised, and their first contents are taken as zero here.
\<close>

definition build_error_response :: "u64 \<Rightarrow> error_code_t \<Rightarrow> u8 list \<Rightarrow> error_response_t" where
  "build_error_response rid code msg =
     \<lparr>err_request_id = rid,
      err_status = (if is_server_error code then STATUS_INTERNAL_SERVER_ERROR
                    else STATUS_BAD_REQUEST),
      error_code = error_code_value code,
      error_msg_len = of_nat (length msg),
      error_msg = Ptr msg\<rparr>"

definition send_error_response ::
  "conn \<Rightarrow> u64 \<Rightarrow> error_code_t \<Rightarrow> u8 list \<Rightarrow> (int \<times> conn) outcome" where
  "send_error_response c rid code msg =
     (let err_resp = build_error_response rid code msg in
      case encode_error_response (Ptr err_resp) (Ptr (replicate 4096 0)) 4096 (Ptr 0) of
        (encode_err, response_buf, response_len) \<Rightarrow>
          if encode_err \<noteq> ERR_NONE then Returns (- 1, c)
          else case (response_buf, response_len) of
            (Ptr b, Ptr n) \<Rightarrow>
              (case write_full (wr c) (take (unat n) b) (sent c) of
                 Killed \<Rightarrow> Killed
               | Returns (r, out, evs) \<Rightarrow>
                   Returns (if r \<noteq> 0 then - 1 else 0, c\<lparr>wr := evs, sent := out\<rparr>))
          | _ \<Rightarrow> Returns (- 1, c))"

text \<open>
  What one call of \<open>handle_connection\<close> gets from outside, besides the connection:
  whether \<open>malloc\<close> and \<open>realloc\<close> succeed, the loaded model context \<open>g_sd_ctx\<close>, and the
  engine's answers.  The state it works on is the connection and the pipeline's flag;
  the engine calls are collected.
\<close>

record handler_env =
  malloc_ok :: bool
  realloc_ok :: bool
  g_sd_ctx :: "unit ptr"
  eng :: engine

record handler_state =
  client :: conn
  generation_performed :: bool
  engine_calls :: "engine_call list"

text \<open>
  \<open>handle_connection\<close> returns 0 (continue the loop) or -1 (leave it), or the process
  is killed while it writes.  \<open>None\<close> is an out-of-bounds read.  The buffer from \<open>malloc\<close>
  holds the header and then the payload; \<open>realloc\<close> keeps the old contents up to the new
  size, the rest is taken as zero.  \<open>16 + payload_len\<close> and
  \<open>16 + 16 + 16 + resp.image_data_len\<close> are \<open>uint32_t\<close> sums.  The return value of
  \<open>send_error_response\<close> is not looked at.
\<close>

definition handle_connection ::
  "handler_env \<Rightarrow> handler_state \<Rightarrow> (int \<times> handler_state) outcome option" where
  "handle_connection env s =
     (case read_full (rd (client s)) [] 16 of (r, header, evs) \<Rightarrow>
      let c = (client s)\<lparr>rd := evs\<rparr> in
      if r \<noteq> 0 then Some (Returns (- 1, s\<lparr>client := c\<rparr>))
      else do {
        magic \<leftarrow> read_u32_be header 0;
        if magic \<noteq> PROTOCOL_MAGIC then
          Some (case send_error_response c 0 ERR_INVALID_MAGIC (c_string ''invalid magic number'')
                of Killed \<Rightarrow> Killed
                 | Returns (e, c') \<Rightarrow> Returns (0, s\<lparr>client := c'\<rparr>))
        else do {
          payload_len \<leftarrow> read_u32_be header 8;
          if payload_len > MAX_REQUEST_SIZE - 16 then
            Some (case send_error_response c 0 ERR_INTERNAL (c_string ''payload too large'')
                  of Killed \<Rightarrow> Killed
                   | Returns (e, c') \<Rightarrow> Returns (0, s\<lparr>client := c'\<rparr>))
          else if \<not> malloc_ok env then Some (Returns (- 1, s\<lparr>client := c\<rparr>))
          else
            case (if payload_len > 0 then read_full (rd c) [] (unat payload_len)
                  else (0, [], rd c)) of (r2, payload, evs2) \<Rightarrow>
            let c = c\<lparr>rd := evs2\<rparr> in
            if r2 \<noteq> 0 then Some (Returns (- 1, s\<lparr>client := c\<rparr>))
            else do {
              let buffer = header @ payload;
              d \<leftarrow> decode_generate_request (Ptr buffer) (ucast (16 + payload_len)) (Ptr ());
              case d of
                Inl err \<Rightarrow>
                  Some (case send_error_response c 0 err (c_string ''invalid request'')
                        of Killed \<Rightarrow> Killed
                         | Returns (e, c') \<Rightarrow> Returns (0, s\<lparr>client := c'\<rparr>))
              | Inr req \<Rightarrow> do {
                 pr \<leftarrow> process_generate_request (eng env) (generation_performed s)
                        (g_sd_ctx env) (Ptr req) (Ptr ());
                 case pr of (res, gp, calls) \<Rightarrow>
                 let s = s\<lparr>generation_performed := gp,
                            engine_calls := engine_calls s @ calls\<rparr> in
                 case res of
                   Inl err \<Rightarrow>
                     Some (case send_error_response c (request_id req) err
                                  (c_string ''generation failed'')
                           of Killed \<Rightarrow> Killed
                            | Returns (e, c') \<Rightarrow> Returns (0, s\<lparr>client := c'\<rparr>))
                 | Inr resp \<Rightarrow>
                     let response_buf_size = (ucast (16 + 16 + 16 + image_data_len resp) :: size_t) in
                     if \<not> realloc_ok env then
                       Some (Returns (- 1, s\<lparr>client := c,
                                          engine_calls := engine_calls s @ [CallFreeImage]\<rparr>))
                     else
                       let buffer = take (unat response_buf_size)
                                      (buffer @ replicate (unat response_buf_size) 0) in
                       case encode_generate_response (Ptr resp) (Ptr buffer) response_buf_size (Ptr 0)
                       of (err, bufp, lenp) \<Rightarrow>
                       let s = s\<lparr>engine_calls := engine_calls s @ [CallFreeImage]\<rparr> in
                       if err \<noteq> ERR_NONE then Some (Returns (- 1, s\<lparr>client := c\<rparr>))
                       else case (bufp, lenp) of
                         (Ptr b, Ptr response_len) \<Rightarrow>
                           (case write_full (wr c) (take (unat response_len) b) (sent c) of
                              Killed \<Rightarrow> Some Killed
                            | Returns (r3, out, wevs) \<Rightarrow>
                                Some (Returns (if r3 \<noteq> 0 then - 1 else 0,
                                      s\<lparr>client := c\<lparr>wr := wevs, sent := out\<rparr>\<rparr>)))
                       | _ \<Rightarrow> Some (Returns (- 1, s\<lparr>client := c\<rparr>)) }
            }
        }
      })"

section \<open>Socket timeouts and the accept loop (socket.c)\<close>

datatype socket_error_t =
    SOCKET_OK
  | SOCKET_ERR_XDG_NOT_SET
  | SOCKET_ERR_PATH_TOO_LONG
  | SOCKET_ERR_MKDIR_FAILED
  | SOCKET_ERR_SOCKET_FAILED
  | SOCKET_ERR_BIND_FAILED
  | SOCKET_ERR_LISTEN_FAILED
  | SOCKET_ERR_CHMOD_FAILED
  | SOCKET_ERR_UNLINK_FAILED
  | SOCKET_ERR_NULL_POINTER
  | SOCKET_ERR_STALE_SOCKET
  | SOCKET_ERR_AUTH_FAILED
  | SOCKET_ERR_AUTH_UID_MISMATCH
  | SOCKET_ERR_INVALID_FD
  | SOCKET_ERR_TIMEOUT_FAILED
  | SOCKET_ERR_ACCEPT_FAILED
  | SOCKET_ERR_NULL_HANDLER
  | SOCKET_ERR_CONNECT_FAILED

definition DEFAULT_READ_TIMEOUT_S :: int where "DEFAULT_READ_TIMEOUT_S = 60"
definition DEFAULT_WRITE_TIMEOUT_S :: int where "DEFAULT_WRITE_TIMEOUT_S = 5"

text \<open>
  The kernel keeps, per socket, the receive and the send timeout (\<open>SO_RCVTIMEO\<close>,
  \<open>SO_SNDTIMEO\<close>), here in whole seconds as \<open>socket_set_timeouts\<close> only sets \<open>tv_sec\<close>.
  Whether each \<open>setsockopt\<close> call succeeds is given from outside.
\<close>

record sock_timeouts =
  rcvtimeo :: int
  sndtimeo :: int

definition socket_set_timeouts ::
  "bool \<Rightarrow> bool \<Rightarrow> sock_timeouts \<Rightarrow> int \<Rightarrow> int \<Rightarrow> int \<Rightarrow> socket_error_t \<times> sock_timeouts" where
  "socket_set_timeouts rcv_ok snd_ok opts fd read_timeout_s write_timeout_s =
     (if fd < 0 then (SOCKET_ERR_INVALID_FD, opts)
      else if read_timeout_s > 0 \<and> \<not> rcv_ok then (SOCKET_ERR_TIMEOUT_FAILED, opts)
      else
        let opts = (if read_timeout_s > 0 then opts\<lparr>rcvtimeo := read_timeout_s\<rparr> else opts) in
        if write_timeout_s > 0 \<and> \<not> snd_ok then (SOCKET_ERR_TIMEOUT_FAILED, opts)
        else (SOCKET_OK,
              if write_timeout_s > 0 then opts\<lparr>sndtimeo := write_timeout_s\<rparr> else opts))"

text \<open>
  One pass through the body of the accept loop gets from outside: what \<open>accept\<close> returns
  (and whether a failure is \<open>EINTR\<close>), the timeouts of the new socket, the verdict of
  \<open>socket_auth_connection\<close>, the success of the two \<open>setsockopt\<close> calls and the handler's
  return value.  The loop runs one pass per list element and finds the shutdown flag set
  after the last.  It reports what it did with each connection, in order; the handler
  is reported with the timeouts in force when it is called.
\<close>

record accept_step =
  accept_ret :: int
  accept_eintr :: bool
  new_timeouts :: sock_timeouts
  auth_err :: socket_error_t
  rcv_ok :: bool
  snd_ok :: bool
  handler_result :: int

datatype loop_event =
    EvAuth int
  | EvSetTimeouts int int int socket_error_t
  | EvHandler int sock_timeouts
  | EvClose int

fun accept_iterations :: "accept_step list \<Rightarrow> socket_error_t \<times> loop_event list" where
  "accept_iterations [] = (SOCKET_OK, [])"
| "accept_iterations (st # rest) =
     (let client_fd = accept_ret st in
      if client_fd < 0 then
        (if accept_eintr st then accept_iterations rest else (SOCKET_ERR_ACCEPT_FAILED, []))
      else if auth_err st \<noteq> SOCKET_OK then
        (case accept_iterations rest of (e, evs) \<Rightarrow> (e, EvAuth client_fd # EvClose client_fd # evs))
      else
        case socket_set_timeouts (rcv_ok st) (snd_ok st) (new_timeouts st) client_fd
               DEFAULT_READ_TIMEOUT_S DEFAULT_WRITE_TIMEOUT_S of (timeout_err, opts) \<Rightarrow>
        case accept_iterations rest of (e, evs) \<Rightarrow>
          (e, EvAuth client_fd
              # EvSetTimeouts client_fd DEFAULT_READ_TIMEOUT_S DEFAULT_WRITE_TIMEOUT_S timeout_err
              # EvHandler client_fd opts # EvClose client_fd # evs))"

definition socket_accept_loop :: "int \<Rightarrow> unit ptr \<Rightarrow> accept_step list \<Rightarrow> socket_error_t \<times> loop_event list" where
  "socket_accept_loop listen_fd handler passes =
     (if listen_fd < 0 then (SOCKET_ERR_INVALID_FD, [])
      else if handler = NULL then (SOCKET_ERR_NULL_HANDLER, [])
      else accept_iterations passes)"

section \<open>The specification's view of a frame\<close>

text \<open>
  The specification describes a frame as big-endian fields at fixed offsets.
  \<open>be_word\<close> is the value of a byte string read most significant byte first, and
  \<open>frame_u16\<close>, \<open>frame_u32\<close>, \<open>frame_u64\<close> are the fields of that width at an offset.
\<close>

definition be_word :: "u8 list \<Rightarrow> 'a::len word" where
  "be_word bs = foldl (\<lambda>w b. push_bit 8 w OR ucast b) 0 bs"

definition frame_u16 :: "u8 list \<Rightarrow> nat \<Rightarrow> u16" where
  "frame_u16 frame p = be_word (take 2 (drop p frame))"

definition frame_u32 :: "u8 list \<Rightarrow> nat \<Rightarrow> u32" where
  "frame_u32 frame p = be_word (take 4 (drop p frame))"

definition frame_u64 :: "u8 list \<Rightarrow> nat \<Rightarrow> u64" where
  "frame_u64 frame p = be_word (take 8 (drop p frame))"

text \<open>
  The decode gates as the specification lists them, on unbounded numbers: a dimension
  is in 64..2048 and divisible by 64; \<open>cfg_scale\<close> is finite and in [0.0, 20.0]; a prompt
  pair has its length in 1..256, its offset at most the size of the prompt region and
  its length at most the region size minus the offset.
\<close>

definition spec_dimension_ok :: "nat \<Rightarrow> bool" where
  "spec_dimension_ok d = (64 \<le> d \<and> d \<le> 2048 \<and> d mod 64 = 0)"

definition spec_steps_ok :: "nat \<Rightarrow> bool" where
  "spec_steps_ok n = (1 \<le> n \<and> n \<le> 100)"

definition spec_cfg_ok :: "u32 \<Rightarrow> bool" where
  "spec_cfg_ok c = (\<not> isnan c \<and> \<not> isinf c \<and> 0 \<le> f32_scaled c \<and> f32_scaled c \<le> 20 * 2 ^ 149)"

definition spec_prompt_pair_ok :: "nat \<Rightarrow> nat \<Rightarrow> nat \<Rightarrow> bool" where
  "spec_prompt_pair_ok region off len =
     (1 \<le> len \<and> len \<le> 256 \<and> off \<le> region \<and> len \<le> region - off)"

definition spec_prompt_region_size :: "u8 list \<Rightarrow> nat" where
  "spec_prompt_region_size frame = unat (frame_u32 frame 8) - 60"

definition spec_prompts_ok :: "u8 list \<Rightarrow> bool" where
  "spec_prompts_ok frame =
     (let region = spec_prompt_region_size frame in
      spec_prompt_pair_ok region (unat (frame_u32 frame 52)) (unat (frame_u32 frame 56)) \<and>
      spec_prompt_pair_ok region (unat (frame_u32 frame 60)) (unat (frame_u32 frame 64)) \<and>
      spec_prompt_pair_ok region (unat (frame_u32 frame 68)) (unat (frame_u32 frame 72)))"

text \<open>Gates 1 to 10 of the specification, in its order; \<open>ERR_NONE\<close> when all pass.\<close>

definition spec_gates_1_to_10 :: "u8 list \<Rightarrow> error_code_t" where
  "spec_gates_1_to_10 frame =
     (let n = length frame; plen = unat (frame_u32 frame 8) in
      if n < 16 then ERR_INTERNAL
      else if frame_u32 frame 0 \<noteq> 0x57455645 then ERR_INVALID_MAGIC
      else if frame_u16 frame 4 \<noteq> 1 then ERR_UNSUPPORTED_VERSION
      else if frame_u16 frame 6 \<noteq> 1 then ERR_INTERNAL
      else if plen > 10 * 1024 * 1024 - 16 \<or> n < 16 + plen then ERR_INTERNAL
      else if plen < 60 then ERR_INTERNAL
      else if frame_u32 frame 24 \<noteq> 0 then ERR_INVALID_MODEL_ID
      else if \<not> spec_dimension_ok (unat (frame_u32 frame 28)) \<or>
              \<not> spec_dimension_ok (unat (frame_u32 frame 32)) then ERR_INVALID_DIMENSIONS
      else if \<not> spec_steps_ok (unat (frame_u32 frame 36)) then ERR_INVALID_STEPS
      else if \<not> spec_cfg_ok (frame_u32 frame 40) then ERR_INVALID_CFG
      else ERR_NONE)"

text \<open>All eleven gates: the first violated gate decides.\<close>

definition spec_first_violation :: "u8 list \<Rightarrow> error_code_t" where
  "spec_first_violation frame =
     (if spec_gates_1_to_10 frame \<noteq> ERR_NONE then spec_gates_1_to_10 frame
      else if \<not> spec_prompts_ok frame then ERR_INVALID_PROMPT
      else ERR_NONE)"

text \<open>The error code a call of the decoder returns.\<close>

fun returned_code :: "error_code_t + 'a \<Rightarrow> error_code_t" where
  "returned_code (Inl e) = e"
| "returned_code (Inr _) = ERR_NONE"

text \<open>Flipping bit \<open>k\<close> of byte \<open>i\<close> of a frame.\<close>

definition flip_frame_bit :: "u8 list \<Rightarrow> nat \<Rightarrow> nat \<Rightarrow> u8 list" where
  "flip_frame_bit frame i k = frame[i := (frame ! i) XOR push_bit k 1]"

text \<open>
  The error kinds that blame a field of the request: the \<open>INVALID_*\<close> kinds and
  \<open>UNSUPPORTED_VERSION\<close>.
\<close>

definition is_field_error_kind :: "error_code_t \<Rightarrow> bool" where
  "is_field_error_kind e = (e \<in> {ERR_INVALID_MAGIC, ERR_UNSUPPORTED_VERSION, ERR_INVALID_MODEL_ID,
                                  ERR_INVALID_PROMPT, ERR_INVALID_DIMENSIONS, ERR_INVALID_STEPS,
                                  ERR_INVALID_CFG})"

text \<open>
  Modelled from the spec: the decoder of response frames.  The C sources only encode
  responses; the peer that decodes them is not among them.  The specification gives
  the layout: a 16-byte header (magic, version, kind = response, payload length,
  reserved) and then \<open>request_id\<close> (u64), \<open>status\<close>, \<open>generation_time_ms\<close>, \<open>width\<close>,
  \<open>height\<close>, \<open>channels\<close>, \<open>image_byte_length\<close> (u32 each) and the raw pixels, with the
  payload length equal to 16 + 16 + image byte length.
\<close>

definition decode_generate_response :: "u8 list \<Rightarrow> sd35_generate_response_t option" where
  "decode_generate_response frame =
     (if length frame < 48 then None
      else if frame_u32 frame 0 \<noteq> 0x57455645 \<or> frame_u16 frame 4 \<noteq> 1 \<or>
              frame_u16 frame 6 \<noteq> 2 then None
      else
        let plen = unat (frame_u32 frame 8); len = unat (frame_u32 frame 44) in
        if plen \<noteq> 16 + 16 + len \<or> length frame < 16 + plen then None
        else Some \<lparr>resp_request_id = frame_u64 frame 16,
                   status = frame_u32 frame 24,
                   generation_time_ms = frame_u32 frame 28,
                   image_width = frame_u32 frame 32,
                   image_height = frame_u32 frame 36,
                   channels = frame_u32 frame 40,
                   image_data_len = frame_u32 frame 44,
                   image_data = Ptr (take len (drop 48 frame))\<rparr>)"

text \<open>The request a frame denotes: its fields, and the prompt region as a borrow.\<close>

definition request_of_frame :: "u8 list \<Rightarrow> sd35_generate_request_t" where
  "request_of_frame frame =
     \<lparr>request_id = frame_u64 frame 16, model_id = frame_u32 frame 24,
      width = frame_u32 frame 28, height = frame_u32 frame 32,
      steps = frame_u32 frame 36, cfg_scale = frame_u32 frame 40,
      seed = frame_u64 frame 44,
      clip_l_offset = frame_u32 frame 52, clip_l_length = frame_u32 frame 56,
      clip_g_offset = frame_u32 frame 60, clip_g_length = frame_u32 frame 64,
      t5_offset = frame_u32 frame 68, t5_length = frame_u32 frame 72,
      prompt_data = Ptr (drop 76 frame),
      prompt_data_len = of_nat (spec_prompt_region_size frame)\<rparr>"

text \<open>
  A response is valid for encoding when both dimensions pass the dimension gate, there
  are 3 or 4 channels, and width times height times channels fits in 32 bits and equals
  the image byte length.  The response frame is the header with kind = response and
  payload length 16 + 16 + image byte length, the common fields, the image meta data
  and the pixels.
\<close>

definition spec_response_valid :: "sd35_generate_response_t \<Rightarrow> bool" where
  "spec_response_valid resp =
     (spec_dimension_ok (unat (image_width resp)) \<and>
      spec_dimension_ok (unat (image_height resp)) \<and>
      (unat (channels resp) = 3 \<or> unat (channels resp) = 4) \<and>
      unat (image_width resp) * unat (image_height resp) * unat (channels resp) < 2 ^ 32 \<and>
      unat (image_width resp) * unat (image_height resp) * unat (channels resp)
        = unat (image_data_len resp))"

definition response_frame :: "sd35_generate_response_t \<Rightarrow> u8 list \<Rightarrow> u8 list" where
  "response_frame resp pixels =
     be32 0x57455645 @ be16 1 @ be16 2 @ be32 (16 + 16 + image_data_len resp) @ be32 0 @
     be64 (resp_request_id resp) @ be32 (status resp) @ be32 (generation_time_ms resp) @
     be32 (image_width resp) @ be32 (image_height resp) @ be32 (channels resp) @
     be32 (image_data_len resp) @ pixels"

text \<open>
  The error frame: header with kind = error, then \<open>request_id\<close>, \<open>status\<close>, \<open>error_kind\<close>,
  the message length and the message.
\<close>

definition error_frame :: "error_response_t \<Rightarrow> u8 list \<Rightarrow> u8 list" where
  "error_frame resp msg =
     be32 0x57455645 @ be16 1 @ be16 0xFF @ be32 (18 + ucast (error_msg_len resp)) @ be32 0 @
     be64 (err_request_id resp) @ be32 (err_status resp) @ be32 (error_code resp) @
     be16 (error_msg_len resp) @ msg"

text \<open>
  A request frame used as a concrete input: 512 by 512, 4 steps, \<open>cfg_scale\<close> 4.5, seed
  42, request id 12345, and the three prompts \<open>a\<close>, \<open>b\<close>, \<open>c\<close>.
\<close>

definition example_request_frame :: "u8 list" where
  "example_request_frame =
     [0x57, 0x45, 0x56, 0x45,  0x00, 0x01,  0x00, 0x01,  0x00, 0x00, 0x00, 0x3F,  0, 0, 0, 0,
      0, 0, 0, 0, 0, 0, 0x30, 0x39,  0, 0, 0, 0,
      0, 0, 0x02, 0x00,  0, 0, 0x02, 0x00,  0, 0, 0, 4,  0x40, 0x90, 0, 0,
      0, 0, 0, 0, 0, 0, 0, 42,
      0, 0, 0, 0,  0, 0, 0, 1,  0, 0, 0, 1,  0, 0, 0, 1,  0, 0, 0, 2,  0, 0, 0, 1,
      0x61, 0x62, 0x63]"

text \<open>
  Three requests served in a row, as a concrete input: the request of the example frame
  each time; the engine fails the first with a GPU error and answers the other two with
  a 512 by 512 RGB image.
\<close>

definition example_engine_ok :: engine where
  "example_engine_ok =
     \<lparr>reset_result = SD_WRAPPER_OK,
      generate_result = (\<lambda>p. (SD_WRAPPER_OK,
         \<lparr>img_width = 512, img_height = 512, img_channels = 3,
          img_data = Ptr (replicate 786432 0), img_data_size = 786432\<rparr>)),
      start_time = 1000, end_time = 3500\<rparr>"

definition example_engine_gpu_error :: engine where
  "example_engine_gpu_error =
     \<lparr>reset_result = SD_WRAPPER_OK,
      generate_result = (\<lambda>p. (SD_WRAPPER_ERR_GPU_ERROR,
         \<lparr>img_width = 0, img_height = 0, img_channels = 0,
          img_data = NULL, img_data_size = 0\<rparr>)),
      start_time = 1000, end_time = 1200\<rparr>"

definition example_requests :: "(engine \<times> sd35_generate_request_t ptr) list" where
  "example_requests =
     [(example_engine_gpu_error, Ptr (request_of_frame example_request_frame)),
      (example_engine_ok, Ptr (request_of_frame example_request_frame)),
      (example_engine_ok, Ptr (request_of_frame example_request_frame))]"

section \<open>Facts about bytes, words and the readers\<close>

lemma mask255: "(255 :: 'a::len word) = mask 8"
  by (simp add: mask_eq_exp_minus_1)

lemma bit_u8_high: "8 \<le> n \<Longrightarrow> \<not> bit (b::u8) n"
  by (auto dest: bit_imp_le_length)

lemma byte_index_cases:
  assumes "(n::nat) < 64"
  obtains m where "m < 8" "n = m" | m where "m < 8" "n = 8 + m"
    | m where "m < 8" "n = 16 + m" | m where "m < 8" "n = 24 + m"
    | m where "m < 8" "n = 32 + m" | m where "m < 8" "n = 40 + m"
    | m where "m < 8" "n = 48 + m" | m where "m < 8" "n = 56 + m"
proof -
  consider "n < 8" | "8 \<le> n" "n < 16" | "16 \<le> n" "n < 24" | "24 \<le> n" "n < 32"
    | "32 \<le> n" "n < 40" | "40 \<le> n" "n < 48" | "48 \<le> n" "n < 56" | "56 \<le> n"
    by linarith
  then show ?thesis
  proof cases
    case 1 then show ?thesis using that(1) [of n] by simp
  next
    case 2 then show ?thesis using that(2) [of "n - 8"] by simp
  next
    case 3 then show ?thesis using that(3) [of "n - 16"] by simp
  next
    case 4 then show ?thesis using that(4) [of "n - 24"] by simp
  next
    case 5 then show ?thesis using that(5) [of "n - 32"] by simp
  next
    case 6 then show ?thesis using that(6) [of "n - 40"] by simp
  next
    case 7 then show ?thesis using that(7) [of "n - 48"] by simp
  next
    case 8 then show ?thesis using that(8) [of "n - 56"] assms by simp
  qed
qed

lemma be_word2: "(be_word [b0, b1] :: u16) = push_bit 8 (ucast b0) OR ucast b1"
  by (simp add: be_word_def)

lemma be_word4:
  "(be_word [b0, b1, b2, b3] :: u32) =
     push_bit 24 (ucast b0) OR push_bit 16 (ucast b1) OR push_bit 8 (ucast b2) OR ucast b3"
  by (simp add: be_word_def or.assoc)

lemma be_word8:
  "(be_word [b0, b1, b2, b3, b4, b5, b6, b7] :: u64) =
     push_bit 56 (ucast b0) OR push_bit 48 (ucast b1) OR push_bit 40 (ucast b2)
     OR push_bit 32 (ucast b3) OR push_bit 24 (ucast b4) OR push_bit 16 (ucast b5)
     OR push_bit 8 (ucast b6) OR ucast b7"
  by (simp add: be_word_def or.assoc)

lemma be16_be_word: "be16 (be_word [b0, b1]) = [b0, b1]"
  unfolding be16_def be_word2
  by (simp, intro conjI bit_eqI) (simp_all add: bit_simps mask255 bit_u8_high)

lemma be32_be_word: "be32 (be_word [b0, b1, b2, b3]) = [b0, b1, b2, b3]"
  unfolding be32_def be_word4
  by (simp, intro conjI bit_eqI) (simp_all add: bit_simps mask255 bit_u8_high)

lemma be64_be_word: "be64 (be_word [b0, b1, b2, b3, b4, b5, b6, b7]) = [b0, b1, b2, b3, b4, b5, b6, b7]"
  unfolding be64_def be_word8
  by (simp, intro conjI bit_eqI) (simp_all add: bit_simps mask255 bit_u8_high)

lemma be_word_be16: "be_word (be16 v) = v"
proof (rule bit_eqI)
  fix n
  assume "possible_bit TYPE(u16) n"
  then have n: "n < 16" by simp
  then have "n < 64" by simp
  then show "bit (be_word (be16 v) :: u16) n = bit v n"
    using n unfolding be16_def be_word2
    by (cases n rule: byte_index_cases) (simp_all add: bit_simps mask255)
qed

lemma be_word_be32: "be_word (be32 v) = v"
proof (rule bit_eqI)
  fix n
  assume "possible_bit TYPE(u32) n"
  then have n: "n < 32" by simp
  then have "n < 64" by simp
  then show "bit (be_word (be32 v) :: u32) n = bit v n"
    using n unfolding be32_def be_word4
    by (cases n rule: byte_index_cases) (simp_all add: bit_simps mask255)
qed

lemma be_word_be64: "be_word (be64 v) = v"
proof (rule bit_eqI)
  fix n
  assume "possible_bit TYPE(u64) n"
  then have n: "n < 64" by simp
  from n show "bit (be_word (be64 v) :: u64) n = bit v n"
    unfolding be64_def be_word8
    by (cases n rule: byte_index_cases) (simp_all add: bit_simps mask255)
qed

lemma length_be16: "length (be16 v) = 2" by (simp add: be16_def)
lemma length_be32: "length (be32 v) = 4" by (simp add: be32_def)
lemma length_be64: "length (be64 v) = 8" by (simp add: be64_def)

lemma take2_drop: "p + 2 \<le> length xs \<Longrightarrow> take 2 (drop p xs) = [xs ! p, xs ! (p + 1)]"
  by (simp add: list_eq_iff_nth_eq less_Suc_eq numeral_2_eq_2)

lemma take4_drop:
  "p + 4 \<le> length xs \<Longrightarrow> take 4 (drop p xs) = [xs ! p, xs ! (p + 1), xs ! (p + 2), xs ! (p + 3)]"
  apply (rule nth_equalityI)
   apply simp
  apply (simp add: less_Suc_eq numeral_eq_Suc)
  apply (auto simp: add.commute)
  done

lemma take8_drop:
  "p + 8 \<le> length xs \<Longrightarrow> take 8 (drop p xs) =
     [xs ! p, xs ! (p + 1), xs ! (p + 2), xs ! (p + 3), xs ! (p + 4), xs ! (p + 5), xs ! (p + 6), xs ! (p + 7)]"
  apply (rule nth_equalityI)
   apply simp
  apply (simp add: less_Suc_eq numeral_eq_Suc)
  apply (auto simp: add.commute)
  done

lemma read_u16_be_eq:
  "read_u16_be buf p = (if p + 2 \<le> length buf then Some (frame_u16 buf p) else None)"
  by (auto simp add: read_u16_be_def byte_at_def frame_u16_def take2_drop be_word2)

lemma read_u32_be_eq:
  "read_u32_be buf p = (if p + 4 \<le> length buf then Some (frame_u32 buf p) else None)"
  by (auto simp add: read_u32_be_def byte_at_def frame_u32_def take4_drop be_word4)

lemma read_u64_be_eq:
  "read_u64_be buf p = (if p + 8 \<le> length buf then Some (frame_u64 buf p) else None)"
  by (auto simp add: read_u64_be_def byte_at_def frame_u64_def take8_drop be_word8)

lemma version_range: "((v::u16) < MIN_SUPPORTED_VERSION \<or> v > MAX_SUPPORTED_VERSION) = (v \<noteq> 1)"
  unfolding MIN_SUPPORTED_VERSION_def MAX_SUPPORTED_VERSION_def PROTOCOL_VERSION_1_def
  by unat_arith

lemma decode_protocol_header_eq:
  assumes "16 \<le> length data" "\<not> data_len < 16"
  shows "decode_protocol_header data data_len =
     Some (if frame_u32 data 0 \<noteq> 0x57455645 then Inl ERR_INVALID_MAGIC
           else if frame_u16 data 4 \<noteq> 1 then Inl ERR_UNSUPPORTED_VERSION
           else if frame_u16 data 6 \<noteq> 1 then Inl ERR_INTERNAL
           else if frame_u32 data 8 > 10485744 then Inl ERR_INTERNAL
           else Inr \<lparr>magic = frame_u32 data 0, version = frame_u16 data 4,
                     msg_type = frame_u16 data 6, payload_len = frame_u32 data 8,
                     reserved = frame_u32 data 12\<rparr>)"
  using assms
  by (simp add: decode_protocol_header_def read_u16_be_eq read_u32_be_eq version_range
      PROTOCOL_MAGIC_def MSG_GENERATE_REQUEST_def MAX_MESSAGE_SIZE_def)

lemma unat_ucast_32_64: "unat (ucast (x::u32) :: u64) = unat x"
proof -
  have "unat x < 2 ^ 32" using unsigned_less [of x] by simp
  then have "unat x < 2 ^ 64" by simp
  then show ?thesis
    by (simp add: unsigned_ucast_eq take_bit_nat_eq_self)
qed

lemma ucast_less_32_64: "((ucast (x::u32) :: u64) < ucast (y::u32)) = (x < y)"
  by (simp add: word_less_nat_alt unat_ucast_32_64)

lemma unat_data_len: "n < 2 ^ 64 \<Longrightarrow> unat (of_nat n :: u64) = n"
  by (simp add: unsigned_of_nat take_bit_nat_eq_self)

lemma dim_cond:
  "(w < SD35_MIN_DIMENSION \<or> w > SD35_MAX_DIMENSION \<or> w mod SD35_DIMENSION_ALIGNMENT \<noteq> 0)
   = (\<not> spec_dimension_ok (unat w))"
  unfolding SD35_MIN_DIMENSION_def SD35_MAX_DIMENSION_def SD35_DIMENSION_ALIGNMENT_def
    spec_dimension_ok_def
  by (auto simp add: word_less_nat_alt unat_mod unat_eq_0 [symmetric])

lemma steps_cond:
  "(s < SD35_MIN_STEPS \<or> s > SD35_MAX_STEPS) = (\<not> spec_steps_ok (unat s))"
  unfolding SD35_MIN_STEPS_def SD35_MAX_STEPS_def spec_steps_ok_def
  by (auto simp add: word_less_nat_alt)

lemma f32_min_cfg: "\<not> isnan SD35_MIN_CFG" "f32_scaled SD35_MIN_CFG = 0"
  by (simp_all add: isnan_def f32_scaled_def f32_exp_def f32_mant_def f32_sign_def SD35_MIN_CFG_def)

lemma f32_max_cfg: "\<not> isnan SD35_MAX_CFG" "f32_scaled SD35_MAX_CFG = 20 * 2 ^ 149"
  by (simp_all add: isnan_def f32_scaled_def f32_exp_def f32_mant_def f32_sign_def SD35_MAX_CFG_def
      drop_bit_eq_div)

lemma cfg_cond:
  "(f32_lt c SD35_MIN_CFG \<or> f32_gt c SD35_MAX_CFG \<or> isnan c \<or> isinf c) = (\<not> spec_cfg_ok c)"
  by (auto simp add: f32_lt_def f32_gt_def spec_cfg_ok_def f32_min_cfg f32_max_cfg)

lemma unat_plus16:
  assumes "(p::u32) \<le> 10485744"
  shows "unat (ucast (16 + p) :: u64) = 16 + unat p"
proof -
  have "unat p \<le> 10485744" using assms by (simp add: word_le_nat_alt)
  then have "unat (16 + p) = 16 + unat p"
    by (simp add: unat_word_ariths)
  then show ?thesis by (simp add: unat_ucast_32_64)
qed

lemma unat_region:
  assumes "60 \<le> unat (p::u32)"
  shows "unat (ucast p - 8 - 4 - 48 :: u64) = unat p - 60"
    and "\<not> (ucast p - 8 - 4 :: u64) < 48"
proof -
  have a: "unat (ucast p :: u64) = unat p" by (rule unat_ucast_32_64)
  have "(60 :: u64) \<le> ucast p" using assms by (simp add: word_le_nat_alt a)
  then have b: "unat (ucast p - 60 :: u64) = unat p - 60"
    by (simp add: unat_sub a)
  have c: "(ucast p - 8 - 4 - 48 :: u64) = ucast p - 60" by simp
  show "unat (ucast p - 8 - 4 - 48 :: u64) = unat p - 60" using b c by simp
  have "(12 :: u64) \<le> ucast p" using assms by (simp add: word_le_nat_alt a)
  then have "unat (ucast p - 12 :: u64) = unat p - 12"
    by (simp add: unat_sub a)
  moreover have "(ucast p - 8 - 4 :: u64) = ucast p - 12" by simp
  ultimately show "\<not> (ucast p - 8 - 4 :: u64) < 48"
    using assms by (simp add: word_less_nat_alt)
qed

lemma decode_generate_request_body:
  assumes n76: "76 \<le> length data"
    and hdr: "decode_protocol_header data dl = Some (Inr h)"
    and dl16: "\<not> dl < 16"
    and c5: "\<not> dl < ucast (16 + payload_len h)"
    and p60: "60 \<le> unat (payload_len h)"
    and pdl: "pdl = ucast (payload_len h) - 8 - 4 - 48"
    and r: "r = \<lparr>request_id = frame_u64 data 16, model_id = frame_u32 data 24,
               width = frame_u32 data 28, height = frame_u32 data 32,
               steps = frame_u32 data 36, cfg_scale = frame_u32 data 40,
               seed = frame_u64 data 44,
               clip_l_offset = frame_u32 data 52, clip_l_length = frame_u32 data 56,
               clip_g_offset = frame_u32 data 60, clip_g_length = frame_u32 data 64,
               t5_offset = frame_u32 data 68, t5_length = frame_u32 data 72,
               prompt_data = Ptr (drop 76 data), prompt_data_len = pdl\<rparr>"
  shows "decode_generate_request (Ptr data) dl (Ptr ()) =
    (if frame_u32 data 24 \<noteq> MODEL_ID_SD35 then Some (Inl ERR_INVALID_MODEL_ID)
     else if frame_u32 data 28 < SD35_MIN_DIMENSION \<or> frame_u32 data 28 > SD35_MAX_DIMENSION \<or>
             frame_u32 data 28 mod SD35_DIMENSION_ALIGNMENT \<noteq> 0
       then Some (Inl ERR_INVALID_DIMENSIONS)
     else if frame_u32 data 32 < SD35_MIN_DIMENSION \<or> frame_u32 data 32 > SD35_MAX_DIMENSION \<or>
             frame_u32 data 32 mod SD35_DIMENSION_ALIGNMENT \<noteq> 0
       then Some (Inl ERR_INVALID_DIMENSIONS)
     else if frame_u32 data 36 < SD35_MIN_STEPS \<or> frame_u32 data 36 > SD35_MAX_STEPS
       then Some (Inl ERR_INVALID_STEPS)
     else if f32_lt (frame_u32 data 40) SD35_MIN_CFG \<or> f32_gt (frame_u32 data 40) SD35_MAX_CFG \<or>
             isnan (frame_u32 data 40) \<or> isinf (frame_u32 data 40)
       then Some (Inl ERR_INVALID_CFG)
     else if frame_u32 data 56 < SD35_MIN_PROMPT_LENGTH \<or>
             frame_u32 data 56 > SD35_MAX_PROMPT_LENGTH then Some (Inl ERR_INVALID_PROMPT)
     else if frame_u32 data 64 < SD35_MIN_PROMPT_LENGTH \<or>
             frame_u32 data 64 > SD35_MAX_PROMPT_LENGTH then Some (Inl ERR_INVALID_PROMPT)
     else if frame_u32 data 72 < SD35_MIN_PROMPT_LENGTH \<or>
             frame_u32 data 72 > SD35_MAX_PROMPT_LENGTH then Some (Inl ERR_INVALID_PROMPT)
     else if ucast (frame_u32 data 52) > pdl then Some (Inl ERR_INVALID_PROMPT)
     else if ucast (frame_u32 data 56) > pdl - ucast (frame_u32 data 52)
       then Some (Inl ERR_INVALID_PROMPT)
     else if ucast (frame_u32 data 60) > pdl then Some (Inl ERR_INVALID_PROMPT)
     else if ucast (frame_u32 data 64) > pdl - ucast (frame_u32 data 60)
       then Some (Inl ERR_INVALID_PROMPT)
     else if ucast (frame_u32 data 68) > pdl then Some (Inl ERR_INVALID_PROMPT)
     else if ucast (frame_u32 data 72) > pdl - ucast (frame_u32 data 68)
       then Some (Inl ERR_INVALID_PROMPT)
     else Some (Inr r))"
proof -
  have c6: "\<not> payload_len h < 60"
    using p60 by (simp add: word_less_nat_alt)
  have rem: "\<not> (ucast (payload_len h) - 12 :: u64) < 48"
    using unat_region(2) [OF p60] by simp
  note rem' = unat_region(2) [OF p60]
  show ?thesis
    unfolding r pdl using n76
    by (simp add: decode_generate_request_def hdr dl16 c5 c6 rem rem' read_f32_be_def
        read_u32_be_eq read_u64_be_eq Let_def split del: if_split cong: if_cong)
qed

lemma prompt_len_cond:
  "(l < SD35_MIN_PROMPT_LENGTH \<or> l > SD35_MAX_PROMPT_LENGTH) = (\<not> (1 \<le> unat l \<and> unat l \<le> 256))"
  unfolding SD35_MIN_PROMPT_LENGTH_def SD35_MAX_PROMPT_LENGTH_def
  by (auto simp add: word_less_nat_alt)

lemma prompt_off_cond:
  "unat (pdl::u64) = region \<Longrightarrow> (pdl < ucast (off::u32)) = (region < unat off)"
  by (simp add: word_less_nat_alt unat_ucast_32_64)

lemma prompt_bound_cond:
  assumes "unat (pdl::u64) = region" "\<not> region < unat (off::u32)"
  shows "(pdl - ucast off < ucast (len::u32)) = (region - unat off < unat len)"
proof -
  have "ucast off \<le> pdl"
    using assms by (simp add: word_le_nat_alt unat_ucast_32_64)
  then have "unat (pdl - ucast off) = region - unat off"
    using assms by (simp add: unat_sub unat_ucast_32_64)
  then show ?thesis
    by (simp add: word_less_nat_alt unat_ucast_32_64)
qed

lemma decode_generate_request_spec:
  assumes n: "length frame < 2 ^ 64"
  shows "decode_generate_request (Ptr frame) (of_nat (length frame)) (Ptr ()) =
           Some (if spec_first_violation frame = ERR_NONE then Inr (request_of_frame frame)
                 else Inl (spec_first_violation frame))"
proof -
  define Q where "Q x \<longleftrightarrow> x = Some (if spec_first_violation frame = ERR_NONE
      then Inr (request_of_frame frame) else Inl (spec_first_violation frame))"
    for x :: "(error_code_t + sd35_generate_request_t) option"
  define dl :: u64 where "dl = of_nat (length frame)"
  have dl: "unat dl = length frame"
    using n by (simp add: dl_def unat_data_len)
  have gate: "Q (if c then a else b)" if "c \<Longrightarrow> Q a" "\<not> c \<Longrightarrow> Q b" for c a b
    using that by simp
  note spec = spec_first_violation_def spec_gates_1_to_10_def Let_def
  have "Q (decode_generate_request (Ptr frame) dl (Ptr ()))"
  proof (cases "length frame < 16")
    case True
    then have "dl < 16" by (simp add: word_less_nat_alt dl)
    then show ?thesis using True
      by (simp add: Q_def decode_generate_request_def spec)
  next
    case False
    then have n16: "16 \<le> length frame" by simp
    have dl16: "\<not> dl < 16" using n16 by (simp add: word_less_nat_alt dl)
    note hdr = decode_protocol_header_eq [OF n16 dl16]
    consider (magic) "frame_u32 frame 0 \<noteq> 0x57455645"
      | (version) "frame_u32 frame 0 = 0x57455645" "frame_u16 frame 4 \<noteq> 1"
      | (kind) "frame_u32 frame 0 = 0x57455645" "frame_u16 frame 4 = 1" "frame_u16 frame 6 \<noteq> 1"
      | (cap) "frame_u32 frame 0 = 0x57455645" "frame_u16 frame 4 = 1" "frame_u16 frame 6 = 1"
          "frame_u32 frame 8 > 10485744"
      | (ok) "frame_u32 frame 0 = 0x57455645" "frame_u16 frame 4 = 1" "frame_u16 frame 6 = 1"
          "\<not> frame_u32 frame 8 > 10485744"
      by blast
    then show ?thesis
    proof cases
      case magic
      then show ?thesis using n16
        by (simp add: Q_def decode_generate_request_def dl16 hdr spec)
    next
      case version
      then show ?thesis using n16
        by (simp add: Q_def decode_generate_request_def dl16 hdr spec)
    next
      case kind
      then show ?thesis using n16
        by (simp add: Q_def decode_generate_request_def dl16 hdr spec)
    next
      case cap
      then have "10485744 < unat (frame_u32 frame 8)" by (simp add: word_less_nat_alt)
      then show ?thesis using n16 cap
        by (simp add: Q_def decode_generate_request_def dl16 hdr spec)
    next
      case ok
      define h where "h = \<lparr>magic = frame_u32 frame 0, version = frame_u16 frame 4,
        msg_type = frame_u16 frame 6, payload_len = frame_u32 frame 8,
        reserved = frame_u32 frame 12\<rparr>"
      have hdr': "decode_protocol_header frame dl = Some (Inr h)"
        using ok by (simp add: hdr h_def)
      have plen: "payload_len h = frame_u32 frame 8" by (simp add: h_def)
      have cap: "frame_u32 frame 8 \<le> 10485744" using ok by simp
      then have capn: "unat (frame_u32 frame 8) \<le> 10485744" by (simp add: word_le_nat_alt)
      have c5: "(dl < ucast (16 + frame_u32 frame 8)) = (length frame < 16 + unat (frame_u32 frame 8))"
        by (simp add: word_less_nat_alt dl unat_plus16 [OF cap])
      show ?thesis
      proof (cases "length frame < 16 + unat (frame_u32 frame 8)")
        case True
        then show ?thesis using n16 ok capn
          by (simp add: Q_def decode_generate_request_def dl16 hdr' plen c5 spec)
      next
        case long: False
        show ?thesis
        proof (cases "unat (frame_u32 frame 8) < 60")
          case True
          then have "frame_u32 frame 8 < 60" by (simp add: word_less_nat_alt)
          then show ?thesis using n16 ok capn long True
            by (simp add: Q_def decode_generate_request_def dl16 hdr' plen c5 spec)
        next
          case False
          then have p60: "60 \<le> unat (payload_len h)" by (simp add: plen)
          have n76: "76 \<le> length frame" using long False by simp
          define pdl :: u64 where "pdl = ucast (payload_len h) - 8 - 4 - 48"
          have pdl: "unat pdl = unat (frame_u32 frame 8) - 60"
            using unat_region(1) [OF p60] by (simp add: pdl_def plen)
          have "pdl = of_nat (unat pdl)" by simp
          then have pdl': "pdl = of_nat (spec_prompt_region_size frame)"
            by (simp only: pdl spec_prompt_region_size_def)
          have r: "request_of_frame frame =
              \<lparr>request_id = frame_u64 frame 16, model_id = frame_u32 frame 24,
               width = frame_u32 frame 28, height = frame_u32 frame 32,
               steps = frame_u32 frame 36, cfg_scale = frame_u32 frame 40,
               seed = frame_u64 frame 44,
               clip_l_offset = frame_u32 frame 52, clip_l_length = frame_u32 frame 56,
               clip_g_offset = frame_u32 frame 60, clip_g_length = frame_u32 frame 64,
               t5_offset = frame_u32 frame 68, t5_length = frame_u32 frame 72,
               prompt_data = Ptr (drop 76 frame), prompt_data_len = pdl\<rparr>"
            by (simp only: request_of_frame_def pdl')
          have c5': "\<not> dl < ucast (16 + payload_len h)" using long by (simp add: plen c5)
          note body = decode_generate_request_body [OF n76 hdr' dl16 c5' p60 pdl_def r]
          note conds = dim_cond steps_cond cfg_cond prompt_len_cond prompt_off_cond [OF pdl]
            MODEL_ID_SD35_def
          note pre = n16 ok capn long False
          show ?thesis
            unfolding body
            apply (intro gate)
            apply (insert pre)
            apply (simp_all add: conds)
            apply (simp_all add: Q_def spec spec_prompts_ok_def spec_prompt_pair_ok_def
                spec_prompt_region_size_def prompt_bound_cond [OF pdl])
            done
        qed
      qed
    qed
  qed
  then show ?thesis by (simp add: Q_def dl_def)
qed

lemma example_request_frame_length: "length example_request_frame = 79"
  by (simp add: example_request_frame_def)

lemma example_request_frame_fields:
  "frame_u32 example_request_frame 0 = 0x57455645"
  "frame_u16 example_request_frame 4 = 1"
  "frame_u16 example_request_frame 6 = 1"
  "frame_u32 example_request_frame 8 = 63"
  "frame_u32 example_request_frame 24 = 0"
  "frame_u32 example_request_frame 28 = 512"
  "frame_u32 example_request_frame 32 = 512"
  "frame_u32 example_request_frame 36 = 4"
  "frame_u32 example_request_frame 40 = 0x40900000"
  "frame_u32 example_request_frame 52 = 0"
  "frame_u32 example_request_frame 56 = 1"
  "frame_u32 example_request_frame 60 = 1"
  "frame_u32 example_request_frame 64 = 1"
  "frame_u32 example_request_frame 68 = 2"
  "frame_u32 example_request_frame 72 = 1"
  by (simp_all add: frame_u32_def frame_u16_def example_request_frame_def be_word_def)

lemma spec_cfg_ok_example: "spec_cfg_ok 0x40900000"
  by (simp add: spec_cfg_ok_def isnan_def isinf_def f32_scaled_def f32_exp_def f32_mant_def
      f32_sign_def drop_bit_eq_div)

lemma example_request_frame_gates: "spec_gates_1_to_10 example_request_frame = ERR_NONE"
  by (simp add: spec_gates_1_to_10_def example_request_frame_length example_request_frame_fields
      spec_dimension_ok_def spec_steps_ok_def spec_cfg_ok_example)

lemma example_request_frame_prompts: "spec_prompts_ok example_request_frame"
  by (simp add: spec_prompts_ok_def spec_prompt_region_size_def spec_prompt_pair_ok_def
      example_request_frame_fields)

lemma example_request_frame_valid: "spec_first_violation example_request_frame = ERR_NONE"
  by (simp add: spec_first_violation_def example_request_frame_gates example_request_frame_prompts)

section \<open>C1: the decoder returns the error kind of the first violated gate\<close>

text \<open>
  C1.  For every input byte slice (shorter than \<open>2 ^ 64\<close> bytes, as every object in a
  64-bit address space is), \<open>decode_generate_request\<close> never leaves the slice and returns
  exactly what the gates of the specification, taken in their order, prescribe: the
  error kind of the first violated gate (\<open>INTERNAL\<close> for a slice shorter than 16 bytes,
  a wrong message kind, a payload length above the cap, a truncated or an undersized
  payload; \<open>INVALID_MAGIC\<close>; \<open>UNSUPPORTED_VERSION\<close>; \<open>INVALID_MODEL_ID\<close>;
  \<open>INVALID_DIMENSIONS\<close>; \<open>INVALID_STEPS\<close>; \<open>INVALID_CFG\<close> for a NaN, an infinity or a value
  outside [0.0, 20.0]; \<open>INVALID_PROMPT\<close>), and success, with the request the frame
  denotes, only when every gate passes.
\<close>

theorem decode_returns_first_violated_gate:
  assumes "length frame < 2 ^ 64"
  shows "decode_generate_request (Ptr frame) (of_nat (length frame)) (Ptr ()) =
           Some (if spec_first_violation frame = ERR_NONE then Inr (request_of_frame frame)
                 else Inl (spec_first_violation frame))"
  using assms by (rule decode_generate_request_spec)

theorem decode_returns_first_violated_gate_witness:
  "length example_request_frame < 2 ^ 64 \<and>
   decode_generate_request (Ptr example_request_frame)
     (of_nat (length example_request_frame)) (Ptr ()) =
       Some (Inr (request_of_frame example_request_frame))"
proof -
  have len: "length example_request_frame < 2 ^ 64"
    by (simp add: example_request_frame_length)
  show ?thesis
    using len decode_returns_first_violated_gate [OF len]
    by (simp add: example_request_frame_valid)
qed

section \<open>Facts about the writers and the encoders\<close>

lemma store_0: "store buf 0 bs = bs @ drop (length bs) buf"
  by (simp add: store_def)

lemma store_append: "length xs \<le> p \<Longrightarrow> store (xs @ ys) p bs = xs @ store ys (p - length xs) bs"
  by (simp add: store_def)

lemmas write_simps = write_u16_be_def write_u32_be_def write_u64_be_def memcpy_def
  store_0 store_append length_be16 length_be32 length_be64

lemma channels_cond: "((c::u32) \<noteq> 3 \<and> c \<noteq> 4) = (\<not> (unat c = 3 \<or> unat c = 4))"
  by (simp add: word_unat_eq_iff)

lemma response_products:
  assumes w: "spec_dimension_ok (unat (w::u32))" and h: "spec_dimension_ok (unat (h::u32))"
    and c: "unat (c::u32) = 3 \<or> unat c = 4"
  shows "\<not> w > UINT32_MAX div h"
    and "\<not> w * h > UINT32_MAX div c"
    and "unat (w * h * c) = unat w * unat h * unat c"
    and "unat w * unat h * unat c < 2 ^ 32"
    and "4096 dvd unat w * unat h * unat c"
proof -
  have wb: "unat w \<le> 2048" "64 dvd unat w" and hb: "unat h \<le> 2048" "64 \<le> unat h" "64 dvd unat h"
    using w h by (auto simp add: spec_dimension_ok_def dvd_eq_mod_eq_0)
  have wh: "unat w * unat h \<le> 2048 * 2048"
    using wb(1) hb(1) by (rule mult_le_mono)
  then have "unat w * unat h < 2 ^ LENGTH(32)" by simp
  then have whu: "unat (w * h) = unat w * unat h"
    by (simp only: unat_mult_lem)
  have "unat c \<le> 4" using c by auto
  with wh have whc: "unat w * unat h * unat c \<le> (2048 * 2048) * 4"
    by (rule mult_le_mono)
  then show lt: "unat w * unat h * unat c < 2 ^ 32" by simp
  have "unat (w * h) * unat c < 2 ^ LENGTH(32)"
    using lt by (simp add: whu)
  then have "unat (w * h * c) = unat (w * h) * unat c"
    by (simp only: unat_mult_lem)
  then show "unat (w * h * c) = unat w * unat h * unat c"
    by (simp only: whu)
  have "unat (UINT32_MAX div h) = 4294967295 div unat h"
    by (simp add: unat_div UINT32_MAX_def)
  moreover have "(4294967295::nat) div unat h \<ge> 4294967295 div 2048"
    using hb by (intro div_le_mono2) auto
  ultimately show "\<not> w > UINT32_MAX div h"
    using wb by (simp add: word_less_nat_alt)
  have "unat (UINT32_MAX div c) = 4294967295 div unat c"
    by (simp add: unat_div UINT32_MAX_def)
  moreover have "(4294967295::nat) div unat c \<ge> 4294967295 div 4"
    using c by (intro div_le_mono2) auto
  ultimately show "\<not> w * h > UINT32_MAX div c"
    using wh by (simp add: word_less_nat_alt whu)
  have "64 * 64 dvd unat w * unat h"
    using wb hb by (intro mult_dvd_mono) auto
  then show "4096 dvd unat w * unat h * unat c" by simp
qed


lemma frame_cap_cond:
  assumes "4096 dvd (n::nat)"
  shows "(10485728 < n) = (10485760 < 48 + n)"
proof -
  from assms obtain k where k: "n = 4096 * k" by (auto simp add: dvd_def)
  show ?thesis
  proof (cases "k \<le> 2559")
    case True
    then have "4096 * k \<le> 4096 * 2559" by (rule mult_le_mono2)
    then show ?thesis unfolding k by linarith
  next
    case False
    then have "2560 \<le> k" by simp
    then have "4096 * 2560 \<le> 4096 * k" by (rule mult_le_mono2)
    then show ?thesis unfolding k by linarith
  qed
qed

lemma unat_total_len:
  assumes "unat (len::u32) \<le> 10485728"
  shows "unat (ucast (16 + (16 + 16 + len)) :: u64) = 48 + unat len"
proof -
  have "unat (16 + (16 + 16 + len)) = 48 + unat len"
    using assms by (simp add: unat_word_ariths)
  then show ?thesis by (simp add: unat_ucast_32_64)
qed

lemma encode_generate_response_invalid:
  assumes img: "image_data resp = Ptr img" and inv: "\<not> spec_response_valid resp"
  shows "encode_generate_response (Ptr resp) (Ptr buf) bs (Ptr ol) =
           (ERR_INVALID_DIMENSIONS, Ptr buf, Ptr ol)"
proof -
  consider (w) "\<not> spec_dimension_ok (unat (image_width resp))"
    | (h) "spec_dimension_ok (unat (image_width resp))"
          "\<not> spec_dimension_ok (unat (image_height resp))"
    | (c) "spec_dimension_ok (unat (image_width resp))"
          "spec_dimension_ok (unat (image_height resp))"
          "\<not> (unat (channels resp) = 3 \<or> unat (channels resp) = 4)"
    | (len) "spec_dimension_ok (unat (image_width resp))"
          "spec_dimension_ok (unat (image_height resp))"
          "unat (channels resp) = 3 \<or> unat (channels resp) = 4"
    by blast
  then show ?thesis
  proof cases
    case w
    then show ?thesis
      by (simp add: encode_generate_response_def img dim_cond)
  next
    case h
    then show ?thesis
      by (simp add: encode_generate_response_def img dim_cond)
  next
    case c
    then show ?thesis
      by (simp add: encode_generate_response_def img dim_cond channels_cond)
  next
    case len
    note p = response_products [OF len]
    have "unat (image_data_len resp) \<noteq>
        unat (image_width resp * image_height resp * channels resp)"
      using inv len p(4) by (simp add: spec_response_valid_def p(3))
    then have ne: "image_data_len resp \<noteq> image_width resp * image_height resp * channels resp"
      by auto
    show ?thesis
      using len p(1,2) ne
      by (simp add: encode_generate_response_def img dim_cond channels_cond Let_def)
  qed
qed

lemma encode_generate_response_valid:
  assumes img: "image_data resp = Ptr img" and valid: "spec_response_valid resp"
  shows "encode_generate_response (Ptr resp) (Ptr buf) bs (Ptr ol) =
     (if 10485760 < 48 + unat (image_data_len resp) \<or> unat bs < 48 + unat (image_data_len resp)
      then (ERR_INTERNAL, Ptr buf, Ptr ol)
      else (ERR_NONE,
            Ptr (memcpy (write_u32_be (write_u32_be (write_u32_be (write_u32_be (write_u32_be
              (write_u32_be (write_u64_be (write_u32_be (write_u32_be (write_u16_be (write_u16_be
              (write_u32_be buf 0 PROTOCOL_MAGIC) 4 PROTOCOL_VERSION_1) 6 MSG_GENERATE_RESPONSE)
              8 (16 + 16 + image_data_len resp)) 12 0) 16 (resp_request_id resp))
              24 (status resp)) 28 (generation_time_ms resp)) 32 (image_width resp))
              36 (image_height resp)) 40 (channels resp)) 44 (image_data_len resp))
              48 img (unat (image_data_len resp))),
            Ptr (ucast (16 + (16 + 16 + image_data_len resp)))))"
proof -
  have v: "spec_dimension_ok (unat (image_width resp))"
    "spec_dimension_ok (unat (image_height resp))"
    "unat (channels resp) = 3 \<or> unat (channels resp) = 4"
    and len: "unat (image_width resp) * unat (image_height resp) * unat (channels resp)
        = unat (image_data_len resp)"
    using valid by (simp_all add: spec_response_valid_def)
  note p = response_products [OF v]
  have eq: "image_data_len resp = image_width resp * image_height resp * channels resp"
    using len p(3) by (simp add: word_unat_eq_iff)
  have cap: "(MAX_MESSAGE_SIZE - 16 - 16 < image_data_len resp)
      = (10485760 < 48 + unat (image_data_len resp))"
    using frame_cap_cond [OF p(5)] by (simp add: MAX_MESSAGE_SIZE_def word_less_nat_alt len)
  show ?thesis
  proof (cases "10485760 < 48 + unat (image_data_len resp)")
    case True
    then show ?thesis
      using v p(1,2) eq [symmetric] cap
      by (simp add: encode_generate_response_def img dim_cond channels_cond Let_def)
  next
    case False
    then have "unat (image_data_len resp) \<le> 10485728" using cap by simp
    note tl = unat_total_len [OF this]
    have sz: "(bs < ucast (16 + (16 + 16 + image_data_len resp)))
        = (unat bs < 48 + unat (image_data_len resp))"
      by (simp only: word_less_nat_alt tl)
    show ?thesis
      using v p(1,2) eq [symmetric] cap False sz
      by (simp add: encode_generate_response_def img dim_cond channels_cond Let_def)
  qed
qed

lemma response_write_chain:
  assumes "48 + n \<le> length buf" "n \<le> length img"
  shows "memcpy (write_u32_be (write_u32_be (write_u32_be (write_u32_be (write_u32_be
              (write_u32_be (write_u64_be (write_u32_be (write_u32_be (write_u16_be (write_u16_be
              (write_u32_be buf 0 PROTOCOL_MAGIC) 4 PROTOCOL_VERSION_1) 6 MSG_GENERATE_RESPONSE)
              8 (16 + 16 + image_data_len resp)) 12 0) 16 (resp_request_id resp))
              24 (status resp)) 28 (generation_time_ms resp)) 32 (image_width resp))
              36 (image_height resp)) 40 (channels resp)) 44 (image_data_len resp))
              48 img n
         = response_frame resp (take n img) @ drop (48 + n) buf"
  using assms
  by (simp add: write_simps response_frame_def PROTOCOL_MAGIC_def PROTOCOL_VERSION_1_def
      MSG_GENERATE_RESPONSE_def min_absorb2 add.commute)

lemma encode_generate_response_success:
  assumes img: "image_data resp = Ptr img" and valid: "spec_response_valid resp"
    and cap: "48 + unat (image_data_len resp) \<le> 10485760"
    and fits: "48 + unat (image_data_len resp) \<le> unat bs"
    and buf: "unat bs \<le> length buf"
    and pix: "unat (image_data_len resp) \<le> length img"
  shows "encode_generate_response (Ptr resp) (Ptr buf) bs (Ptr ol) =
     (ERR_NONE,
      Ptr (response_frame resp (take (unat (image_data_len resp)) img)
           @ drop (48 + unat (image_data_len resp)) buf),
      Ptr (of_nat (48 + unat (image_data_len resp))))"
proof -
  have "unat (image_data_len resp) \<le> 10485728" using cap by simp
  note tl = unat_total_len [OF this]
  have "(ucast (16 + (16 + 16 + image_data_len resp)) :: u64)
      = of_nat (unat (ucast (16 + (16 + 16 + image_data_len resp)) :: u64))"
    by simp
  then have n: "(ucast (16 + (16 + 16 + image_data_len resp)) :: u64)
      = of_nat (48 + unat (image_data_len resp))"
    by (simp only: tl)
  have "48 + unat (image_data_len resp) \<le> length buf" using fits buf by simp
  note chain = response_write_chain [OF this pix]
  show ?thesis
    using cap fits
    by (simp only: encode_generate_response_valid [OF img valid] chain n) simp
qed

lemma frame_u16_append: "length xs \<le> p \<Longrightarrow> frame_u16 (xs @ ys) p = frame_u16 ys (p - length xs)"
  by (simp add: frame_u16_def)

lemma frame_u32_append: "length xs \<le> p \<Longrightarrow> frame_u32 (xs @ ys) p = frame_u32 ys (p - length xs)"
  by (simp add: frame_u32_def)

lemma frame_u64_append: "length xs \<le> p \<Longrightarrow> frame_u64 (xs @ ys) p = frame_u64 ys (p - length xs)"
  by (simp add: frame_u64_def)

lemma frame_u16_be16: "frame_u16 (be16 v @ ys) 0 = v"
  by (simp add: frame_u16_def length_be16 be_word_be16)

lemma frame_u32_be32: "frame_u32 (be32 v @ ys) 0 = v"
  by (simp add: frame_u32_def length_be32 be_word_be32)

lemma frame_u64_be64: "frame_u64 (be64 v @ ys) 0 = v"
  by (simp add: frame_u64_def length_be64 be_word_be64)

lemmas frame_simps = frame_u16_append frame_u32_append frame_u64_append
  frame_u16_be16 frame_u32_be32 frame_u64_be64 length_be16 length_be32 length_be64

lemma decode_response_frame:
  assumes "length pixels = unat (image_data_len resp)"
    and "unat (image_data_len resp) \<le> 10485728"
    and "image_data resp = Ptr pixels"
  shows "decode_generate_response (response_frame resp pixels) = Some resp"
proof -
  have plen: "unat (16 + 16 + image_data_len resp) = 32 + unat (image_data_len resp)"
    using assms(2) by (simp add: unat_word_ariths)
  then have plen': "unat (32 + image_data_len resp) = 32 + unat (image_data_len resp)"
    by simp
  have len: "length (response_frame resp pixels) = 48 + unat (image_data_len resp)"
    by (simp add: response_frame_def length_be16 length_be32 length_be64 assms(1))
  have fields:
    "frame_u32 (response_frame resp pixels) 0 = 0x57455645"
    "frame_u16 (response_frame resp pixels) 4 = 1"
    "frame_u16 (response_frame resp pixels) 6 = 2"
    "frame_u32 (response_frame resp pixels) 8 = 16 + 16 + image_data_len resp"
    "frame_u64 (response_frame resp pixels) 16 = resp_request_id resp"
    "frame_u32 (response_frame resp pixels) 24 = status resp"
    "frame_u32 (response_frame resp pixels) 28 = generation_time_ms resp"
    "frame_u32 (response_frame resp pixels) 32 = image_width resp"
    "frame_u32 (response_frame resp pixels) 36 = image_height resp"
    "frame_u32 (response_frame resp pixels) 40 = channels resp"
    "frame_u32 (response_frame resp pixels) 44 = image_data_len resp"
    by (simp_all add: response_frame_def frame_simps)
  have pix: "take (unat (image_data_len resp)) (drop 48 (response_frame resp pixels)) = pixels"
    by (simp add: response_frame_def length_be16 length_be32 length_be64 assms(1))
  show ?thesis
    using assms(3)
    by (simp add: decode_generate_response_def len fields plen plen' pix Let_def)
qed

lemma encode_generate_response_atomic:
  assumes err: "fst (encode_generate_response respp buffer bs out_len) \<noteq> ERR_NONE"
  shows "snd (encode_generate_response respp buffer bs out_len) = (buffer, out_len)"
proof (cases respp)
  case NULL
  then show ?thesis by (simp add: encode_generate_response_def)
next
  case (Ptr resp)
  note resp = this
  show ?thesis
  proof (cases buffer)
    case NULL
    then show ?thesis by (simp add: encode_generate_response_def resp)
  next
    case (Ptr buf)
    note buf = this
    show ?thesis
    proof (cases out_len)
      case NULL
      then show ?thesis by (simp add: encode_generate_response_def resp buf)
    next
      case (Ptr ol)
      note ol = this
      show ?thesis
      proof (cases "image_data resp")
        case NULL
        then show ?thesis by (simp add: encode_generate_response_def resp buf ol)
      next
        case (Ptr img)
        show ?thesis
        proof (cases "spec_response_valid resp")
          case False
          then show ?thesis
            by (simp add: resp buf ol encode_generate_response_invalid [OF Ptr])
        next
          case True
          note eq = encode_generate_response_valid [OF Ptr True, of buf bs ol]
          show ?thesis
          proof (cases "10485760 < 48 + unat (image_data_len resp) \<or>
              unat bs < 48 + unat (image_data_len resp)")
            case True
            then show ?thesis by (simp only: resp buf ol eq if_True snd_conv)
          next
            case False
            then have "fst (encode_generate_response (Ptr resp) (Ptr buf) bs (Ptr ol)) = ERR_NONE"
              by (simp only: eq if_False fst_conv)
            then show ?thesis using err by (simp add: resp buf ol)
          qed
        qed
      qed
    qed
  qed
qed

lemma encode_error_response_atomic:
  assumes err: "fst (encode_error_response respp buffer bs out_len) \<noteq> ERR_NONE"
  shows "snd (encode_error_response respp buffer bs out_len) = (buffer, out_len)"
proof (cases respp)
  case NULL
  then show ?thesis by (simp add: encode_error_response_def)
next
  case (Ptr resp)
  note resp = this
  show ?thesis
  proof (cases buffer)
    case NULL
    then show ?thesis by (simp add: encode_error_response_def resp)
  next
    case (Ptr buf)
    note buf = this
    show ?thesis
    proof (cases out_len)
      case NULL
      then show ?thesis by (simp add: encode_error_response_def resp buf)
    next
      case (Ptr ol)
      consider (msg) "error_msg resp = NULL \<and> error_msg_len resp > 0"
        | (cap) "\<not> (error_msg resp = NULL \<and> error_msg_len resp > 0)"
            "(8 + 4 + 4 + 2 + ucast (error_msg_len resp) :: u32) > MAX_MESSAGE_SIZE - 16"
        | (size) "\<not> (error_msg resp = NULL \<and> error_msg_len resp > 0)"
            "\<not> (8 + 4 + 4 + 2 + ucast (error_msg_len resp) :: u32) > MAX_MESSAGE_SIZE - 16"
            "(ucast (16 + (8 + 4 + 4 + 2 + ucast (error_msg_len resp) :: u32)) :: u64) > bs"
        | (ok) "\<not> (error_msg resp = NULL \<and> error_msg_len resp > 0)"
            "\<not> (8 + 4 + 4 + 2 + ucast (error_msg_len resp) :: u32) > MAX_MESSAGE_SIZE - 16"
            "\<not> (ucast (16 + (8 + 4 + 4 + 2 + ucast (error_msg_len resp) :: u32)) :: u64) > bs"
        by blast
      then show ?thesis
      proof cases
        case msg
        then show ?thesis by (simp add: encode_error_response_def resp buf Ptr)
      next
        case cap
        then show ?thesis by (simp add: encode_error_response_def resp buf Ptr Let_def)
      next
        case size
        then show ?thesis by (simp add: encode_error_response_def resp buf Ptr Let_def)
      next
        case ok
        then have "fst (encode_error_response (Ptr resp) (Ptr buf) bs (Ptr ol)) = ERR_NONE"
          by (simp add: encode_error_response_def Let_def)
        then show ?thesis using err by (simp add: resp buf Ptr)
      qed
    qed
  qed
qed

lemma unat_error_payload: "unat (18 + ucast (l::u16) :: u32) = 18 + unat l"
proof -
  have "unat l < 2 ^ 16" using unsigned_less [of l] by simp
  then have l: "unat l < 65536" by simp
  then have "unat (ucast l :: u32) = unat l"
    by (simp add: unsigned_ucast_eq take_bit_nat_eq_self)
  then show ?thesis using l by (simp add: unat_word_ariths)
qed

lemma unat_error_total: "unat (ucast (16 + (18 + ucast (l::u16) :: u32)) :: u64) = 34 + unat l"
proof -
  have "unat l < 2 ^ 16" using unsigned_less [of l] by simp
  then have l: "unat l < 65536" by simp
  have "unat (ucast l :: u32) = unat l"
    using l by (simp add: unsigned_ucast_eq take_bit_nat_eq_self)
  then have "unat (16 + (18 + ucast l :: u32)) = 34 + unat l"
    using l by (simp add: unat_word_ariths)
  then show ?thesis by (simp add: unat_ucast_32_64)
qed

lemma error_payload_cap: "\<not> MAX_MESSAGE_SIZE - 16 < (18 + ucast (l::u16) :: u32)"
proof -
  have "unat l < 2 ^ 16" using unsigned_less [of l] by simp
  then show ?thesis
    by (simp add: word_less_nat_alt unat_error_payload MAX_MESSAGE_SIZE_def)
qed

lemma encode_error_response_eq:
  assumes msg: "error_msg resp = Ptr msg"
  shows "encode_error_response (Ptr resp) (Ptr buf) bs (Ptr ol) =
     (if unat bs < 34 + unat (error_msg_len resp) then (ERR_INTERNAL, Ptr buf, Ptr ol)
      else (ERR_NONE,
            Ptr (if error_msg_len resp > 0 then
                   memcpy (write_u16_be (write_u32_be (write_u32_be (write_u64_be (write_u32_be
                     (write_u32_be (write_u16_be (write_u16_be (write_u32_be buf 0 PROTOCOL_MAGIC)
                     4 PROTOCOL_VERSION_1) 6 MSG_ERROR) 8 (18 + ucast (error_msg_len resp))) 12 0)
                     16 (err_request_id resp)) 24 (err_status resp)) 28 (error_code resp))
                     32 (error_msg_len resp)) 34 msg (unat (error_msg_len resp))
                 else
                   write_u16_be (write_u32_be (write_u32_be (write_u64_be (write_u32_be
                     (write_u32_be (write_u16_be (write_u16_be (write_u32_be buf 0 PROTOCOL_MAGIC)
                     4 PROTOCOL_VERSION_1) 6 MSG_ERROR) 8 (18 + ucast (error_msg_len resp))) 12 0)
                     16 (err_request_id resp)) 24 (err_status resp)) 28 (error_code resp))
                     32 (error_msg_len resp)),
            Ptr (ucast (16 + (18 + ucast (error_msg_len resp) :: u32)))))"
proof -
  have sz: "(bs < ucast (16 + (18 + ucast (error_msg_len resp) :: u32)))
      = (unat bs < 34 + unat (error_msg_len resp))"
    by (simp only: word_less_nat_alt unat_error_total)
  show ?thesis
    using error_payload_cap [of "error_msg_len resp"] sz
    by (simp add: encode_error_response_def msg Let_def)
qed

lemma error_write_chain:
  assumes "34 + unat (error_msg_len resp) \<le> length buf"
    and "unat (error_msg_len resp) \<le> length msg"
  shows "(if error_msg_len resp > 0 then
                   memcpy (write_u16_be (write_u32_be (write_u32_be (write_u64_be (write_u32_be
                     (write_u32_be (write_u16_be (write_u16_be (write_u32_be buf 0 PROTOCOL_MAGIC)
                     4 PROTOCOL_VERSION_1) 6 MSG_ERROR) 8 (18 + ucast (error_msg_len resp))) 12 0)
                     16 (err_request_id resp)) 24 (err_status resp)) 28 (error_code resp))
                     32 (error_msg_len resp)) 34 msg (unat (error_msg_len resp))
                 else
                   write_u16_be (write_u32_be (write_u32_be (write_u64_be (write_u32_be
                     (write_u32_be (write_u16_be (write_u16_be (write_u32_be buf 0 PROTOCOL_MAGIC)
                     4 PROTOCOL_VERSION_1) 6 MSG_ERROR) 8 (18 + ucast (error_msg_len resp))) 12 0)
                     16 (err_request_id resp)) 24 (err_status resp)) 28 (error_code resp))
                     32 (error_msg_len resp))
         = error_frame resp (take (unat (error_msg_len resp)) msg)
           @ drop (34 + unat (error_msg_len resp)) buf"
proof (cases "error_msg_len resp > 0")
  case True
  then show ?thesis
    using assms
    by (simp add: write_simps error_frame_def PROTOCOL_MAGIC_def PROTOCOL_VERSION_1_def
        MSG_ERROR_def min_absorb2 add.commute [of _ "34::nat"])
next
  case False
  then have "unat (error_msg_len resp) = 0" by (simp add: word_less_nat_alt)
  then show ?thesis
    using assms False
    by (simp add: write_simps error_frame_def PROTOCOL_MAGIC_def PROTOCOL_VERSION_1_def
        MSG_ERROR_def)
qed

lemma encode_error_response_success:
  assumes msg: "error_msg resp = Ptr msg" and len: "unat (error_msg_len resp) \<le> length msg"
    and fits: "34 + unat (error_msg_len resp) \<le> unat bs" and buf: "unat bs \<le> length buf"
  shows "encode_error_response (Ptr resp) (Ptr buf) bs (Ptr ol) =
     (ERR_NONE,
      Ptr (error_frame resp (take (unat (error_msg_len resp)) msg)
           @ drop (34 + unat (error_msg_len resp)) buf),
      Ptr (of_nat (34 + unat (error_msg_len resp))))"
proof -
  have "(ucast (16 + (18 + ucast (error_msg_len resp) :: u32)) :: u64)
      = of_nat (unat (ucast (16 + (18 + ucast (error_msg_len resp) :: u32)) :: u64))"
    by simp
  then have n: "(ucast (16 + (18 + ucast (error_msg_len resp) :: u32)) :: u64)
      = of_nat (34 + unat (error_msg_len resp))"
    by (simp only: unat_error_total)
  have b: "34 + unat (error_msg_len resp) \<le> length buf" using fits buf by simp
  note chain = error_write_chain [OF b len]
  show ?thesis
    using fits
    by (simp only: encode_error_response_eq [OF msg] chain n) simp
qed

lemma length_error_frame: "length (error_frame resp msg) = 34 + length msg"
  by (simp add: error_frame_def length_be16 length_be32 length_be64)

lemma length_response_frame: "length (response_frame resp pixels) = 48 + length pixels"
  by (simp add: response_frame_def length_be16 length_be32 length_be64)

lemma send_error_response_eq:
  assumes "length msg \<le> 4062"
  shows "send_error_response c rid code msg =
     (case write_full (wr c) (error_frame (build_error_response rid code msg) msg) (sent c) of
        Killed \<Rightarrow> Killed
      | Returns (r, out, evs) \<Rightarrow>
          Returns (if r \<noteq> 0 then - 1 else 0, c\<lparr>wr := evs, sent := out\<rparr>))"
proof -
  define resp where "resp = build_error_response rid code msg"
  have m: "error_msg resp = Ptr msg" by (simp add: resp_def build_error_response_def)
  have l: "unat (error_msg_len resp) = length msg"
    using assms by (simp add: resp_def build_error_response_def unsigned_of_nat take_bit_nat_eq_self)
  have enc: "encode_error_response (Ptr resp) (Ptr (replicate 4096 0)) 4096 (Ptr 0) =
     (ERR_NONE, Ptr (error_frame resp msg @ drop (34 + length msg) (replicate 4096 0)),
      Ptr (of_nat (34 + length msg)))"
    using encode_error_response_success [OF m, of "4096" "replicate 4096 0" 0] assms
    by (simp add: l)
  have n: "unat (of_nat (34 + length msg) :: u64) = 34 + length msg"
    using assms by (simp only: unsigned_of_nat) (simp add: take_bit_nat_eq_self)
  then have n': "unat (34 + word_of_nat (length msg) :: u64) = 34 + length msg"
    by simp
  show ?thesis
    unfolding send_error_response_def Let_def resp_def [symmetric] enc
    by (simp add: n n' length_error_frame)
qed

lemma error_frame_status: "frame_u32 (error_frame resp msg) 24 = err_status resp"
  by (simp add: error_frame_def frame_simps)

lemma error_frame_code: "frame_u32 (error_frame resp msg) 28 = error_code resp"
  by (simp add: error_frame_def frame_simps)

lemma is_server_error_iff:
  "is_server_error code = (code \<in> {ERR_OUT_OF_MEMORY, ERR_GPU_ERROR, ERR_TIMEOUT, ERR_INTERNAL})"
  by (cases code) simp_all

section \<open>C5: the status of an error frame\<close>

text \<open>
  C5.  The status that \<open>send_error_response\<close> puts into an error frame depends on the
  error kind alone, through the table of \<open>is_server_error\<close>: it is 400 for
  \<open>INVALID_MAGIC\<close>, \<open>UNSUPPORTED_VERSION\<close>, \<open>INVALID_MODEL_ID\<close>, \<open>INVALID_PROMPT\<close>,
  \<open>INVALID_DIMENSIONS\<close>, \<open>INVALID_STEPS\<close> and \<open>INVALID_CFG\<close>, 500 for \<open>OUT_OF_MEMORY\<close>,
  \<open>GPU_ERROR\<close>, \<open>TIMEOUT\<close> and \<open>INTERNAL\<close>, and never anything else; and for a message
  that fits the 4096-byte buffer, the bytes handed to the socket are the error frame
  with that status at offset 24.
\<close>

theorem error_frame_status_by_kind:
  "(code \<in> {ERR_INVALID_MAGIC, ERR_UNSUPPORTED_VERSION, ERR_INVALID_MODEL_ID, ERR_INVALID_PROMPT,
             ERR_INVALID_DIMENSIONS, ERR_INVALID_STEPS, ERR_INVALID_CFG}
      \<longrightarrow> err_status (build_error_response rid code msg) = 400) \<and>
   (code \<in> {ERR_OUT_OF_MEMORY, ERR_GPU_ERROR, ERR_TIMEOUT, ERR_INTERNAL}
      \<longrightarrow> err_status (build_error_response rid code msg) = 500) \<and>
   err_status (build_error_response rid code msg) \<in> {400, 500} \<and>
   (length msg \<le> 4062 \<longrightarrow>
      send_error_response c rid code msg =
        (case write_full (wr c) (error_frame (build_error_response rid code msg) msg) (sent c) of
           Killed \<Rightarrow> Killed
         | Returns (r, out, evs) \<Rightarrow>
             Returns (if r \<noteq> 0 then - 1 else 0, c\<lparr>wr := evs, sent := out\<rparr>)) \<and>
      frame_u32 (error_frame (build_error_response rid code msg) msg) 24 =
        err_status (build_error_response rid code msg))"
proof -
  have "err_status (build_error_response rid code msg) =
      (if is_server_error code then 500 else 400)"
    by (simp add: build_error_response_def STATUS_INTERNAL_SERVER_ERROR_def STATUS_BAD_REQUEST_def)
  then show ?thesis
    by (cases code) (simp_all add: send_error_response_eq error_frame_status)
qed

theorem error_frame_status_by_kind_witness:
  "ERR_INVALID_CFG \<in> {ERR_INVALID_MAGIC, ERR_UNSUPPORTED_VERSION, ERR_INVALID_MODEL_ID,
      ERR_INVALID_PROMPT, ERR_INVALID_DIMENSIONS, ERR_INVALID_STEPS, ERR_INVALID_CFG} \<and>
   err_status (build_error_response 7 ERR_INVALID_CFG (c_string ''invalid request'')) = 400 \<and>
   ERR_TIMEOUT \<in> {ERR_OUT_OF_MEMORY, ERR_GPU_ERROR, ERR_TIMEOUT, ERR_INTERNAL} \<and>
   err_status (build_error_response 7 ERR_TIMEOUT (c_string ''generation failed'')) = 500 \<and>
   length (c_string ''invalid request'') \<le> 4062 \<and>
   frame_u32 (error_frame (build_error_response 7 ERR_INVALID_CFG (c_string ''invalid request''))
                (c_string ''invalid request'')) 24 = 400"
  using error_frame_status_by_kind [of ERR_INVALID_CFG 7 "c_string ''invalid request''"]
    error_frame_status_by_kind [of ERR_TIMEOUT 7 "c_string ''generation failed''"]
  by (simp add: c_string_def)

section \<open>C4: validation and layout of the response encoder\<close>

text \<open>
  C4.  For a response with image data, an output buffer and \<open>out_len\<close> (none of them
  \<open>NULL\<close>): \<open>encode_generate_response\<close> fails with \<open>INVALID_DIMENSIONS\<close> whenever the width
  or the height is outside 64..2048 or not divisible by 64, the channel count is not 3
  or 4, or width times height times channels overflows 32 bits or differs from the image
  data length, whatever the buffer and its size are.  For a valid response it fails with
  \<open>INTERNAL\<close> when the frame would exceed 10 MiB or the buffer is too small for it.
  Otherwise it succeeds, reports 16 + 16 + 16 + image byte length bytes, and the buffer
  starts with the response frame, whose payload length is 16 + 16 + image byte length;
  the rest of the buffer is unchanged.
\<close>

theorem encode_generate_response_validation:
  assumes "image_data resp = Ptr img"
  shows
   "(\<not> spec_response_valid resp \<longrightarrow>
       encode_generate_response (Ptr resp) (Ptr buf) bs (Ptr ol)
         = (ERR_INVALID_DIMENSIONS, Ptr buf, Ptr ol)) \<and>
    (spec_response_valid resp \<and>
       (10 * 1024 * 1024 < 48 + unat (image_data_len resp)
        \<or> unat bs < 48 + unat (image_data_len resp)) \<longrightarrow>
       encode_generate_response (Ptr resp) (Ptr buf) bs (Ptr ol)
         = (ERR_INTERNAL, Ptr buf, Ptr ol)) \<and>
    (spec_response_valid resp \<and> 48 + unat (image_data_len resp) \<le> 10 * 1024 * 1024 \<and>
       48 + unat (image_data_len resp) \<le> unat bs \<and> unat bs \<le> length buf \<and>
       unat (image_data_len resp) \<le> length img \<longrightarrow>
       encode_generate_response (Ptr resp) (Ptr buf) bs (Ptr ol)
         = (ERR_NONE,
            Ptr (response_frame resp (take (unat (image_data_len resp)) img)
                 @ drop (48 + unat (image_data_len resp)) buf),
            Ptr (of_nat (16 + 16 + 16 + unat (image_data_len resp)))))"
proof (intro conjI impI)
  assume "\<not> spec_response_valid resp"
  then show "encode_generate_response (Ptr resp) (Ptr buf) bs (Ptr ol)
      = (ERR_INVALID_DIMENSIONS, Ptr buf, Ptr ol)"
    by (rule encode_generate_response_invalid [OF assms])
next
  assume a: "spec_response_valid resp \<and>
       (10 * 1024 * 1024 < 48 + unat (image_data_len resp)
        \<or> unat bs < 48 + unat (image_data_len resp))"
  then show "encode_generate_response (Ptr resp) (Ptr buf) bs (Ptr ol)
      = (ERR_INTERNAL, Ptr buf, Ptr ol)"
    using encode_generate_response_valid [OF assms, of buf bs ol] by auto
next
  assume a: "spec_response_valid resp \<and> 48 + unat (image_data_len resp) \<le> 10 * 1024 * 1024 \<and>
       48 + unat (image_data_len resp) \<le> unat bs \<and> unat bs \<le> length buf \<and>
       unat (image_data_len resp) \<le> length img"
  then show "encode_generate_response (Ptr resp) (Ptr buf) bs (Ptr ol)
         = (ERR_NONE,
            Ptr (response_frame resp (take (unat (image_data_len resp)) img)
                 @ drop (48 + unat (image_data_len resp)) buf),
            Ptr (of_nat (16 + 16 + 16 + unat (image_data_len resp))))"
    using encode_generate_response_success [OF assms, of bs buf ol] by simp
qed

theorem encode_generate_response_validation_witness:
  "encode_generate_response
     (Ptr \<lparr>resp_request_id = 12345, status = 200, generation_time_ms = 10, image_width = 64,
           image_height = 64, channels = 3, image_data_len = 12287,
           image_data = Ptr (replicate 12288 0xAA)\<rparr>) (Ptr []) 0 (Ptr 7)
     = (ERR_INVALID_DIMENSIONS, Ptr [], Ptr 7) \<and>
   encode_generate_response
     (Ptr \<lparr>resp_request_id = 12345, status = 200, generation_time_ms = 10, image_width = 64,
           image_height = 64, channels = 3, image_data_len = 12288,
           image_data = Ptr (replicate 12288 0xAA)\<rparr>) (Ptr (replicate 100 0)) 100 (Ptr 7)
     = (ERR_INTERNAL, Ptr (replicate 100 0), Ptr 7) \<and>
   encode_generate_response
     (Ptr \<lparr>resp_request_id = 12345, status = 200, generation_time_ms = 10, image_width = 64,
           image_height = 64, channels = 3, image_data_len = 12288,
           image_data = Ptr (replicate 12288 0xAA)\<rparr>) (Ptr (replicate 12336 0)) 12336 (Ptr 7)
     = (ERR_NONE,
        Ptr (response_frame
          \<lparr>resp_request_id = 12345, status = 200, generation_time_ms = 10, image_width = 64,
           image_height = 64, channels = 3, image_data_len = 12288,
           image_data = Ptr (replicate 12288 0xAA)\<rparr> (replicate 12288 0xAA)),
        Ptr 12336)"
  using
    encode_generate_response_validation [of
      "\<lparr>resp_request_id = 12345, status = 200, generation_time_ms = 10, image_width = 64,
        image_height = 64, channels = 3, image_data_len = 12287,
        image_data = Ptr (replicate 12288 0xAA)\<rparr>" "replicate 12288 0xAA" "[]" 0 7]
    encode_generate_response_validation [of
      "\<lparr>resp_request_id = 12345, status = 200, generation_time_ms = 10, image_width = 64,
        image_height = 64, channels = 3, image_data_len = 12288,
        image_data = Ptr (replicate 12288 0xAA)\<rparr>" "replicate 12288 0xAA" "replicate 100 0" 100 7]
    encode_generate_response_validation [of
      "\<lparr>resp_request_id = 12345, status = 200, generation_time_ms = 10, image_width = 64,
        image_height = 64, channels = 3, image_data_len = 12288,
        image_data = Ptr (replicate 12288 0xAA)\<rparr>" "replicate 12288 0xAA" "replicate 12336 0"
      12336 7]
  by (simp add: spec_response_valid_def spec_dimension_ok_def)

section \<open>C7: a response survives encoding and decoding\<close>

text \<open>
  C7.  For every valid response \<open>R\<close> (dimensions in 64..2048 and divisible by 64, 3 or 4
  channels, as many pixel bytes as width times height times channels, a frame of at most
  10 MiB) and every buffer that is large enough, \<open>encode_generate_response\<close> succeeds and
  decoding the bytes it reports gives \<open>R\<close> again.  The decoder is the one the specification
  describes by the response layout.
\<close>

theorem response_round_trip:
  assumes "image_data resp = Ptr pixels"
    and "length pixels = unat (image_data_len resp)"
    and "spec_response_valid resp"
    and "48 + unat (image_data_len resp) \<le> 10 * 1024 * 1024"
    and "48 + unat (image_data_len resp) \<le> unat bs"
    and "unat bs \<le> length buf"
  shows "\<exists>b n. encode_generate_response (Ptr resp) (Ptr buf) bs (Ptr ol) = (ERR_NONE, Ptr b, Ptr n)
           \<and> decode_generate_response (take (unat n) b) = Some resp"
proof -
  let ?n = "48 + unat (image_data_len resp)"
  have enc: "encode_generate_response (Ptr resp) (Ptr buf) bs (Ptr ol) =
     (ERR_NONE, Ptr (response_frame resp pixels @ drop ?n buf), Ptr (of_nat ?n))"
    using encode_generate_response_success [OF assms(1,3), of bs buf ol] assms(2,4,5,6)
    by simp
  have n: "unat (of_nat ?n :: u64) = ?n"
    using assms(4) by (simp only: unsigned_of_nat) (simp add: take_bit_nat_eq_self)
  have t: "take ?n (response_frame resp pixels @ drop ?n buf) = response_frame resp pixels"
    by (simp add: length_response_frame assms(2))
  have d: "decode_generate_response (response_frame resp pixels) = Some resp"
    using assms(4) by (intro decode_response_frame assms(1,2)) simp
  have "decode_generate_response
      (take (unat (of_nat ?n :: u64)) (response_frame resp pixels @ drop ?n buf)) = Some resp"
    by (simp only: n t d)
  then show ?thesis
    unfolding enc by blast
qed

theorem response_round_trip_witness:
  "spec_response_valid
     \<lparr>resp_request_id = 12345, status = 200, generation_time_ms = 10, image_width = 64,
      image_height = 64, channels = 3, image_data_len = 12288,
      image_data = Ptr (replicate 12288 0xAA)\<rparr> \<and>
   (\<exists>b n. encode_generate_response
       (Ptr \<lparr>resp_request_id = 12345, status = 200, generation_time_ms = 10, image_width = 64,
             image_height = 64, channels = 3, image_data_len = 12288,
             image_data = Ptr (replicate 12288 0xAA)\<rparr>) (Ptr (replicate 20000 0)) 20000 (Ptr 0)
       = (ERR_NONE, Ptr b, Ptr n) \<and>
     decode_generate_response (take (unat n) b) =
       Some \<lparr>resp_request_id = 12345, status = 200, generation_time_ms = 10, image_width = 64,
             image_height = 64, channels = 3, image_data_len = 12288,
             image_data = Ptr (replicate 12288 0xAA)\<rparr>)"
  using response_round_trip [of
      "\<lparr>resp_request_id = 12345, status = 200, generation_time_ms = 10, image_width = 64,
        image_height = 64, channels = 3, image_data_len = 12288,
        image_data = Ptr (replicate 12288 0xAA)\<rparr>" "replicate 12288 0xAA" 20000
      "replicate 20000 0" 0]
  by (simp add: spec_response_valid_def spec_dimension_ok_def)

section \<open>C10: the encoders write nothing when they fail\<close>

text \<open>
  C10.  Whenever \<open>encode_generate_response\<close> or \<open>encode_error_response\<close> returns an error,
  for any arguments, \<open>NULL\<close> ones included, the output buffer and \<open>*out_len\<close> are as they
  were before the call.
\<close>

theorem encoders_atomic_on_failure:
  "(fst (encode_generate_response respp buffer bs out_len) \<noteq> ERR_NONE \<longrightarrow>
      snd (encode_generate_response respp buffer bs out_len) = (buffer, out_len)) \<and>
   (fst (encode_error_response erespp ebuffer ebs eout_len) \<noteq> ERR_NONE \<longrightarrow>
      snd (encode_error_response erespp ebuffer ebs eout_len) = (ebuffer, eout_len))"
  using encode_generate_response_atomic encode_error_response_atomic by blast

theorem encoders_atomic_on_failure_witness:
  "fst (encode_generate_response
     (Ptr \<lparr>resp_request_id = 1, status = 200, generation_time_ms = 10, image_width = 64,
           image_height = 64, channels = 3, image_data_len = 12288,
           image_data = Ptr (replicate 12288 0xAA)\<rparr>) (Ptr [1, 2, 3]) 3 (Ptr 7)) \<noteq> ERR_NONE \<and>
   snd (encode_generate_response
     (Ptr \<lparr>resp_request_id = 1, status = 200, generation_time_ms = 10, image_width = 64,
           image_height = 64, channels = 3, image_data_len = 12288,
           image_data = Ptr (replicate 12288 0xAA)\<rparr>) (Ptr [1, 2, 3]) 3 (Ptr 7))
     = (Ptr [1, 2, 3], Ptr 7) \<and>
   fst (encode_error_response
     (Ptr \<lparr>err_request_id = 1, err_status = 400, error_code = 5, error_msg_len = 2,
           error_msg = Ptr [0x68, 0x69]\<rparr>) (Ptr [1, 2, 3]) 3 (Ptr 7)) \<noteq> ERR_NONE \<and>
   snd (encode_error_response
     (Ptr \<lparr>err_request_id = 1, err_status = 400, error_code = 5, error_msg_len = 2,
           error_msg = Ptr [0x68, 0x69]\<rparr>) (Ptr [1, 2, 3]) 3 (Ptr 7))
     = (Ptr [1, 2, 3], Ptr 7)"
proof -
  have a: "fst (encode_generate_response
     (Ptr \<lparr>resp_request_id = 1, status = 200, generation_time_ms = 10, image_width = 64,
           image_height = 64, channels = 3, image_data_len = 12288,
           image_data = Ptr (replicate 12288 0xAA)\<rparr>) (Ptr [1, 2, 3]) 3 (Ptr 7)) \<noteq> ERR_NONE"
    by (simp add: encode_generate_response_valid spec_response_valid_def spec_dimension_ok_def)
  have b: "fst (encode_error_response
     (Ptr \<lparr>err_request_id = 1, err_status = 400, error_code = 5, error_msg_len = 2,
           error_msg = Ptr [0x68, 0x69]\<rparr>) (Ptr [1, 2, 3]) 3 (Ptr 7)) \<noteq> ERR_NONE"
    by (simp add: encode_error_response_eq)
  show ?thesis
    using a b encoders_atomic_on_failure [of
      "Ptr \<lparr>resp_request_id = 1, status = 200, generation_time_ms = 10, image_width = 64,
           image_height = 64, channels = 3, image_data_len = 12288,
           image_data = Ptr (replicate 12288 0xAA)\<rparr>" "Ptr [1, 2, 3]" 3 "Ptr 7"
      "Ptr \<lparr>err_request_id = 1, err_status = 400, error_code = 5, error_msg_len = 2,
           error_msg = Ptr [0x68, 0x69]\<rparr>" "Ptr [1, 2, 3]" 3 "Ptr 7"]
    by blast
qed

section \<open>Facts about flipped bits\<close>

lemma flip_changes_byte: "k < 8 \<Longrightarrow> (x::u8) XOR push_bit k 1 \<noteq> x"
proof
  assume k: "k < 8" and eq: "x XOR push_bit k 1 = x"
  have "bit (x XOR push_bit k 1) k = (\<not> bit x k)"
    using k by (simp add: bit_simps)
  then show False using eq by simp
qed

lemma length_flip_frame_bit: "length (flip_frame_bit frame i k) = length frame"
  by (simp add: flip_frame_bit_def)

lemma be_word_inj4:
  assumes "length xs = 4" "length ys = 4" "(be_word xs :: u32) = be_word ys"
  shows "xs = ys"
proof -
  obtain a b c d where xs: "xs = [a, b, c, d]"
    using assms(1) by (auto simp add: length_Suc_conv numeral_eq_Suc)
  obtain a' b' c' d' where ys: "ys = [a', b', c', d']"
    using assms(2) by (auto simp add: length_Suc_conv numeral_eq_Suc)
  have "be32 (be_word xs) = be32 (be_word ys)" using assms(3) by simp
  then show ?thesis unfolding xs ys be32_be_word .
qed

lemma be_word_inj2:
  assumes "length xs = 2" "length ys = 2" "(be_word xs :: u16) = be_word ys"
  shows "xs = ys"
proof -
  obtain a b where xs: "xs = [a, b]"
    using assms(1) by (auto simp add: length_Suc_conv numeral_eq_Suc)
  obtain a' b' where ys: "ys = [a', b']"
    using assms(2) by (auto simp add: length_Suc_conv numeral_eq_Suc)
  have "be16 (be_word xs) = be16 (be_word ys)" using assms(3) by simp
  then show ?thesis unfolding xs ys be16_be_word .
qed

lemma frame_u32_update_outside:
  "i < p \<or> p + 4 \<le> i \<Longrightarrow> frame_u32 (xs[i := v]) p = frame_u32 xs p"
  by (auto simp add: frame_u32_def drop_update_swap)

lemma frame_u16_update_outside:
  "i < p \<or> p + 2 \<le> i \<Longrightarrow> frame_u16 (xs[i := v]) p = frame_u16 xs p"
  by (auto simp add: frame_u16_def drop_update_swap)

lemma frame_u32_update_inside:
  assumes "p \<le> i" "i < p + 4" "p + 4 \<le> length xs" "v \<noteq> xs ! i"
  shows "frame_u32 (xs[i := v]) p \<noteq> frame_u32 xs p"
proof
  assume "frame_u32 (xs[i := v]) p = frame_u32 xs p"
  then have "take 4 (drop p (xs[i := v])) = take 4 (drop p xs)"
    unfolding frame_u32_def using assms(3) by (intro be_word_inj4) simp_all
  then have "take 4 (drop p (xs[i := v])) ! (i - p) = take 4 (drop p xs) ! (i - p)"
    by simp
  then show False
    using assms by (simp add: drop_update_swap)
qed

lemma frame_u16_update_inside:
  assumes "p \<le> i" "i < p + 2" "p + 2 \<le> length xs" "v \<noteq> xs ! i"
  shows "frame_u16 (xs[i := v]) p \<noteq> frame_u16 xs p"
proof
  assume "frame_u16 (xs[i := v]) p = frame_u16 xs p"
  then have "take 2 (drop p (xs[i := v])) = take 2 (drop p xs)"
    unfolding frame_u16_def using assms(3) by (intro be_word_inj2) simp_all
  then have "take 2 (drop p (xs[i := v])) ! (i - p) = take 2 (drop p xs) ! (i - p)"
    by simp
  then show False
    using assms by (simp add: drop_update_swap)
qed

lemma valid_frame_header:
  assumes "spec_first_violation frame = ERR_NONE"
  shows "16 \<le> length frame" "frame_u32 frame 0 = 0x57455645" "frame_u16 frame 4 = 1"
    "frame_u16 frame 6 = 1"
  using assms
  by (simp_all add: spec_first_violation_def spec_gates_1_to_10_def Let_def split: if_splits)

lemma flipped_header_violation:
  assumes valid: "spec_first_violation frame = ERR_NONE" and k: "k < 8"
  shows "i < 4 \<Longrightarrow> spec_first_violation (flip_frame_bit frame i k) = ERR_INVALID_MAGIC"
    and "4 \<le> i \<Longrightarrow> i < 6 \<Longrightarrow> spec_first_violation (flip_frame_bit frame i k) = ERR_UNSUPPORTED_VERSION"
    and "6 \<le> i \<Longrightarrow> i < 8 \<Longrightarrow> spec_first_violation (flip_frame_bit frame i k) = ERR_INTERNAL"
proof -
  note h = valid_frame_header [OF valid]
  note ne = flip_changes_byte [OF k]
  {
    assume i: "i < 4"
    have "frame_u32 (flip_frame_bit frame i k) 0 \<noteq> frame_u32 frame 0"
      unfolding flip_frame_bit_def using i h(1) ne by (intro frame_u32_update_inside) simp_all
    then show "spec_first_violation (flip_frame_bit frame i k) = ERR_INVALID_MAGIC"
      using h by (simp add: spec_first_violation_def spec_gates_1_to_10_def Let_def length_flip_frame_bit)
  }
  {
    assume i: "4 \<le> i" "i < 6"
    have "frame_u16 (flip_frame_bit frame i k) 4 \<noteq> frame_u16 frame 4"
      unfolding flip_frame_bit_def using i h(1) ne by (intro frame_u16_update_inside) simp_all
    moreover have "frame_u32 (flip_frame_bit frame i k) 0 = frame_u32 frame 0"
      unfolding flip_frame_bit_def using i by (intro frame_u32_update_outside) simp
    ultimately show "spec_first_violation (flip_frame_bit frame i k) = ERR_UNSUPPORTED_VERSION"
      using h by (simp add: spec_first_violation_def spec_gates_1_to_10_def Let_def length_flip_frame_bit)
  }
  {
    assume i: "6 \<le> i" "i < 8"
    have "frame_u16 (flip_frame_bit frame i k) 6 \<noteq> frame_u16 frame 6"
      unfolding flip_frame_bit_def using i h(1) ne by (intro frame_u16_update_inside) simp_all
    moreover have "frame_u32 (flip_frame_bit frame i k) 0 = frame_u32 frame 0"
      unfolding flip_frame_bit_def using i by (intro frame_u32_update_outside) simp
    moreover have "frame_u16 (flip_frame_bit frame i k) 4 = frame_u16 frame 4"
      unfolding flip_frame_bit_def using i by (intro frame_u16_update_outside) simp
    ultimately show "spec_first_violation (flip_frame_bit frame i k) = ERR_INTERNAL"
      using h by (simp add: spec_first_violation_def spec_gates_1_to_10_def Let_def length_flip_frame_bit)
  }
qed

section \<open>C6: a flipped bit in the magic, version or kind field\<close>

text \<open>
  C6, as the claim states it, fails: a flipped bit in the message-kind field is answered
  with \<open>INTERNAL\<close>, which is no \<open>INVALID_*\<close> kind (nor \<open>UNSUPPORTED_VERSION\<close>).  Here it
  is bit 0 of byte 7 of a valid frame.
\<close>

theorem kind_bit_flip_counterexample:
  "decode_generate_request (Ptr example_request_frame) 79 (Ptr ())
     = Some (Inr (request_of_frame example_request_frame)) \<and>
   decode_generate_request (Ptr (flip_frame_bit example_request_frame 7 0)) 79 (Ptr ())
     = Some (Inl ERR_INTERNAL) \<and>
   \<not> is_field_error_kind ERR_INTERNAL"
proof -
  have len: "length example_request_frame < 2 ^ 64"
    by (simp add: example_request_frame_length)
  then have len': "length (flip_frame_bit example_request_frame 7 0) < 2 ^ 64"
    by (simp add: length_flip_frame_bit)
  have "spec_first_violation (flip_frame_bit example_request_frame 7 0) = ERR_INTERNAL"
    by (rule flipped_header_violation(3) [OF example_request_frame_valid]) simp_all
  then show ?thesis
    using decode_generate_request_spec [OF len] decode_generate_request_spec [OF len']
    by (simp add: example_request_frame_valid example_request_frame_length length_flip_frame_bit
        is_field_error_kind_def)
qed

text \<open>
  C6, amended.  For every valid request frame, flipping any single bit of the magic
  field makes \<open>decode_generate_request\<close> return \<open>INVALID_MAGIC\<close>, flipping any single bit
  of the version field makes it return \<open>UNSUPPORTED_VERSION\<close>, and flipping any single bit
  of the message-kind field makes it return \<open>INTERNAL\<close>; it never returns success.
\<close>

theorem header_bit_flip_rejected:
  assumes "length frame < 2 ^ 64"
    and "decode_generate_request (Ptr frame) (of_nat (length frame)) (Ptr ()) = Some (Inr req)"
    and "k < 8"
  shows
    "(i < 4 \<longrightarrow>
        decode_generate_request (Ptr (flip_frame_bit frame i k)) (of_nat (length frame)) (Ptr ())
          = Some (Inl ERR_INVALID_MAGIC)) \<and>
     (4 \<le> i \<and> i < 6 \<longrightarrow>
        decode_generate_request (Ptr (flip_frame_bit frame i k)) (of_nat (length frame)) (Ptr ())
          = Some (Inl ERR_UNSUPPORTED_VERSION)) \<and>
     (6 \<le> i \<and> i < 8 \<longrightarrow>
        decode_generate_request (Ptr (flip_frame_bit frame i k)) (of_nat (length frame)) (Ptr ())
          = Some (Inl ERR_INTERNAL))"
proof -
  have valid: "spec_first_violation frame = ERR_NONE"
    using decode_generate_request_spec [OF assms(1)] assms(2) by (simp split: if_splits)
  have len: "length (flip_frame_bit frame i k) < 2 ^ 64"
    using assms(1) by (simp add: length_flip_frame_bit)
  note d = decode_generate_request_spec [OF len, unfolded length_flip_frame_bit]
  note v = flipped_header_violation [OF valid assms(3), of i]
  show ?thesis
    using v by (auto simp add: d)
qed

theorem header_bit_flip_rejected_witness:
  "length example_request_frame < 2 ^ 64 \<and>
   decode_generate_request (Ptr example_request_frame) (of_nat (length example_request_frame))
     (Ptr ()) = Some (Inr (request_of_frame example_request_frame)) \<and>
   decode_generate_request (Ptr (flip_frame_bit example_request_frame 0 3))
     (of_nat (length example_request_frame)) (Ptr ()) = Some (Inl ERR_INVALID_MAGIC) \<and>
   decode_generate_request (Ptr (flip_frame_bit example_request_frame 5 3))
     (of_nat (length example_request_frame)) (Ptr ()) = Some (Inl ERR_UNSUPPORTED_VERSION) \<and>
   decode_generate_request (Ptr (flip_frame_bit example_request_frame 6 3))
     (of_nat (length example_request_frame)) (Ptr ()) = Some (Inl ERR_INTERNAL)"
proof -
  have len: "length example_request_frame < 2 ^ 64"
    by (simp add: example_request_frame_length)
  have dec: "decode_generate_request (Ptr example_request_frame)
      (of_nat (length example_request_frame)) (Ptr ())
      = Some (Inr (request_of_frame example_request_frame))"
    using decode_generate_request_spec [OF len] by (simp add: example_request_frame_valid)
  have k: "(3::nat) < 8" by simp
  show ?thesis
    using len dec header_bit_flip_rejected [OF len dec k, of 0]
      header_bit_flip_rejected [OF len dec k, of 5]
      header_bit_flip_rejected [OF len dec k, of 6]
    by simp
qed

section \<open>Facts about bounds in the decoder\<close>

lemma decode_generate_request_in_bounds:
  assumes "dl < 16 \<or> (16 \<le> length mem \<and> min (unat dl) (16 + unat (frame_u32 mem 8)) \<le> length mem)"
  shows "decode_generate_request (Ptr mem) dl rq \<noteq> None"
proof (cases "rq = NULL \<or> dl < 16")
  case True
  then show ?thesis by (auto simp add: decode_generate_request_def)
next
  case False
  then have rq: "rq = Ptr ()" and dl16: "\<not> dl < 16" by (cases rq; simp)+
  have n16: "16 \<le> length mem"
    and m: "min (unat dl) (16 + unat (frame_u32 mem 8)) \<le> length mem"
    using assms dl16 by simp_all
  note hdr = decode_protocol_header_eq [OF n16 dl16]
  define Q where "Q x \<longleftrightarrow> x \<noteq> None" for x :: "(error_code_t + sd35_generate_request_t) option"
  have gate: "Q (if c then a else b)" if "c \<Longrightarrow> Q a" "\<not> c \<Longrightarrow> Q b" for c a b
    using that by simp
  consider (err) e where "decode_protocol_header mem dl = Some (Inl e)"
    | (ok) "decode_protocol_header mem dl =
        Some (Inr \<lparr>magic = frame_u32 mem 0, version = frame_u16 mem 4,
                   msg_type = frame_u16 mem 6, payload_len = frame_u32 mem 8,
                   reserved = frame_u32 mem 12\<rparr>)" "frame_u32 mem 8 \<le> 10485744"
  proof -
    have "(\<exists>e. decode_protocol_header mem dl = Some (Inl e)) \<or>
      (decode_protocol_header mem dl =
        Some (Inr \<lparr>magic = frame_u32 mem 0, version = frame_u16 mem 4,
                   msg_type = frame_u16 mem 6, payload_len = frame_u32 mem 8,
                   reserved = frame_u32 mem 12\<rparr>) \<and> frame_u32 mem 8 \<le> 10485744)"
      unfolding hdr by (simp add: linorder_not_less)
    then show ?thesis using that by blast
  qed
  then have "Q (decode_generate_request (Ptr mem) dl (Ptr ()))"
  proof cases
    case err
    then show ?thesis by (simp add: Q_def decode_generate_request_def dl16)
  next
    case ok
    define h where "h = \<lparr>magic = frame_u32 mem 0, version = frame_u16 mem 4,
                   msg_type = frame_u16 mem 6, payload_len = frame_u32 mem 8,
                   reserved = frame_u32 mem 12\<rparr>"
    have hdr': "decode_protocol_header mem dl = Some (Inr h)" using ok(1) by (simp add: h_def)
    have plen: "payload_len h = frame_u32 mem 8" by (simp add: h_def)
    have c5: "(dl < ucast (16 + frame_u32 mem 8)) = (unat dl < 16 + unat (frame_u32 mem 8))"
      by (simp add: word_less_nat_alt unat_plus16 [OF ok(2)])
    show ?thesis
    proof (cases "unat dl < 16 + unat (frame_u32 mem 8) \<or> unat (frame_u32 mem 8) < 60")
      case True
      have a: "(dl < ucast (16 + payload_len h)) = (unat dl < 16 + unat (frame_u32 mem 8))"
        by (simp only: plen c5)
      have b: "(payload_len h < 60) = (unat (frame_u32 mem 8) < 60)"
        by (simp add: plen word_less_nat_alt)
      from True have "dl < ucast (16 + payload_len h) \<or>
          (\<not> dl < ucast (16 + payload_len h) \<and> payload_len h < 60)"
        unfolding a b by blast
      then show ?thesis
        by (auto simp add: Q_def decode_generate_request_def dl16 hdr')
    next
      case False
      then have p60: "60 \<le> unat (payload_len h)" and long: "16 + unat (frame_u32 mem 8) \<le> unat dl"
        by (simp_all add: plen)
      have n76: "76 \<le> length mem" using m long p60 by (simp add: plen)
      have c5': "\<not> dl < ucast (16 + payload_len h)" using long by (simp add: plen c5)
      note body = decode_generate_request_body [OF n76 hdr' dl16 c5' p60 refl refl]
      show ?thesis
        unfolding body
        by (intro gate) (simp_all add: Q_def)
    qed
  qed
  then show ?thesis by (simp add: Q_def rq)
qed

lemma valid_frame_payload:
  assumes "spec_gates_1_to_10 frame = ERR_NONE"
  shows "60 \<le> unat (frame_u32 frame 8)" "16 + unat (frame_u32 frame 8) \<le> length frame"
  using assms
  by (simp_all add: spec_gates_1_to_10_def Let_def split: if_splits)

lemma unat_prompt_data_len:
  "unat (prompt_data_len (request_of_frame frame)) = spec_prompt_region_size frame"
proof -
  have "unat (frame_u32 frame 8) < 2 ^ 32" using unsigned_less [of "frame_u32 frame 8"] by simp
  then have "spec_prompt_region_size frame < 2 ^ 64"
    by (simp add: spec_prompt_region_size_def)
  then show ?thesis
    by (simp add: request_of_frame_def unat_data_len)
qed

section \<open>C2: the prompt pairs are checked, and no read leaves the slice\<close>

text \<open>
  C2.  For every input slice: if \<open>decode_generate_request\<close> succeeds, then each of the
  three (offset, length) pairs of the request has its length in 1..256, its offset at
  most the size of the prompt region and its length at most that size minus the offset
  (on unbounded numbers, so no wrap-around is involved), and the prompt region of that
  size lies inside the slice, from byte 76 on.  If the gates before the prompt gate pass
  and some pair violates one of the three conditions, the result is \<open>INVALID_PROMPT\<close>.
  And the decoder never reads outside the first \<open>16 + payload_len\<close> bytes nor outside the
  first \<open>data_len\<close> bytes it was given: run on a buffer object that holds no more than
  these bytes, it makes no out-of-bounds access, whatever the result.
\<close>

theorem prompt_pairs_checked_in_bounds:
  assumes "length frame < 2 ^ 64"
  shows
    "(decode_generate_request (Ptr frame) (of_nat (length frame)) (Ptr ()) = Some (Inr req) \<longrightarrow>
        spec_prompt_pair_ok (unat (prompt_data_len req))
          (unat (clip_l_offset req)) (unat (clip_l_length req)) \<and>
        spec_prompt_pair_ok (unat (prompt_data_len req))
          (unat (clip_g_offset req)) (unat (clip_g_length req)) \<and>
        spec_prompt_pair_ok (unat (prompt_data_len req))
          (unat (t5_offset req)) (unat (t5_length req)) \<and>
        unat (prompt_data_len req) = spec_prompt_region_size frame \<and>
        prompt_data req = Ptr (drop 76 frame) \<and>
        unat (prompt_data_len req) \<le> length (drop 76 frame)) \<and>
     (spec_gates_1_to_10 frame = ERR_NONE \<and> \<not> spec_prompts_ok frame \<longrightarrow>
        decode_generate_request (Ptr frame) (of_nat (length frame)) (Ptr ())
          = Some (Inl ERR_INVALID_PROMPT)) \<and>
     (dl < 16 \<or> (16 \<le> length mem \<and> min (unat dl) (16 + unat (frame_u32 mem 8)) \<le> length mem) \<longrightarrow>
        decode_generate_request (Ptr mem) dl rq \<noteq> None)"
proof (intro conjI impI)
  assume dec: "decode_generate_request (Ptr frame) (of_nat (length frame)) (Ptr ()) = Some (Inr req)"
  note spec = decode_generate_request_spec [OF assms]
  have valid: "spec_first_violation frame = ERR_NONE" and req: "req = request_of_frame frame"
    using spec dec by (simp_all split: if_splits)
  have gates: "spec_gates_1_to_10 frame = ERR_NONE" and prompts: "spec_prompts_ok frame"
    using valid by (simp_all add: spec_first_violation_def split: if_splits)
  note pl = valid_frame_payload [OF gates]
  note u = unat_prompt_data_len [of frame]
  show "spec_prompt_pair_ok (unat (prompt_data_len req))
          (unat (clip_l_offset req)) (unat (clip_l_length req))"
    using prompts unfolding req u by (simp add: spec_prompts_ok_def Let_def request_of_frame_def)
  show "spec_prompt_pair_ok (unat (prompt_data_len req))
          (unat (clip_g_offset req)) (unat (clip_g_length req))"
    using prompts unfolding req u by (simp add: spec_prompts_ok_def Let_def request_of_frame_def)
  show "spec_prompt_pair_ok (unat (prompt_data_len req))
          (unat (t5_offset req)) (unat (t5_length req))"
    using prompts unfolding req u by (simp add: spec_prompts_ok_def Let_def request_of_frame_def)
  show "unat (prompt_data_len req) = spec_prompt_region_size frame"
    unfolding req by (rule u)
  show "prompt_data req = Ptr (drop 76 frame)"
    unfolding req by (simp add: request_of_frame_def)
  show "unat (prompt_data_len req) \<le> length (drop 76 frame)"
    unfolding req u using pl by (simp add: spec_prompt_region_size_def)
next
  assume "spec_gates_1_to_10 frame = ERR_NONE \<and> \<not> spec_prompts_ok frame"
  then show "decode_generate_request (Ptr frame) (of_nat (length frame)) (Ptr ())
      = Some (Inl ERR_INVALID_PROMPT)"
    using decode_generate_request_spec [OF assms] by (simp add: spec_first_violation_def)
next
  assume "dl < 16 \<or> (16 \<le> length mem \<and> min (unat dl) (16 + unat (frame_u32 mem 8)) \<le> length mem)"
  then show "decode_generate_request (Ptr mem) dl rq \<noteq> None"
    by (rule decode_generate_request_in_bounds)
qed

lemma example_zero_length_prompt:
  "spec_gates_1_to_10 (example_request_frame[59 := 0]) = ERR_NONE"
  "\<not> spec_prompts_ok (example_request_frame[59 := 0])"
proof -
  have "frame_u32 (example_request_frame[59 := 0]) 56 = 0"
    by (simp add: frame_u32_def example_request_frame_def be_word_def)
  then show "\<not> spec_prompts_ok (example_request_frame[59 := 0])"
    by (simp add: spec_prompts_ok_def spec_prompt_pair_ok_def Let_def)
  show "spec_gates_1_to_10 (example_request_frame[59 := 0]) = ERR_NONE"
    by (simp add: spec_gates_1_to_10_def frame_u32_update_outside frame_u16_update_outside
        example_request_frame_length example_request_frame_fields spec_dimension_ok_def
        spec_steps_ok_def spec_cfg_ok_example)
qed

theorem prompt_pairs_checked_in_bounds_witness:
  "length example_request_frame < 2 ^ 64 \<and>
   decode_generate_request (Ptr example_request_frame) (of_nat (length example_request_frame))
     (Ptr ()) = Some (Inr (request_of_frame example_request_frame)) \<and>
   spec_prompt_pair_ok (unat (prompt_data_len (request_of_frame example_request_frame)))
     (unat (t5_offset (request_of_frame example_request_frame)))
     (unat (t5_length (request_of_frame example_request_frame))) \<and>
   unat (prompt_data_len (request_of_frame example_request_frame)) = 3 \<and>
   spec_gates_1_to_10 (example_request_frame[59 := 0]) = ERR_NONE \<and>
   \<not> spec_prompts_ok (example_request_frame[59 := 0]) \<and>
   decode_generate_request (Ptr (example_request_frame[59 := 0]))
     (of_nat (length (example_request_frame[59 := 0]))) (Ptr ()) = Some (Inl ERR_INVALID_PROMPT) \<and>
   16 \<le> length example_request_frame \<and>
   min (unat (1000 :: size_t)) (16 + unat (frame_u32 example_request_frame 8))
     \<le> length example_request_frame \<and>
   decode_generate_request (Ptr example_request_frame) 1000 (Ptr ()) \<noteq> None"
proof -
  have len: "length example_request_frame < 2 ^ 64"
    by (simp add: example_request_frame_length)
  have len': "length (example_request_frame[59 := 0]) < 2 ^ 64"
    by (simp add: example_request_frame_length)
  have dec: "decode_generate_request (Ptr example_request_frame)
      (of_nat (length example_request_frame)) (Ptr ())
      = Some (Inr (request_of_frame example_request_frame))"
    using decode_generate_request_spec [OF len] by (simp add: example_request_frame_valid)
  have m: "16 \<le> length example_request_frame \<and>
      min (unat (1000 :: size_t)) (16 + unat (frame_u32 example_request_frame 8))
        \<le> length example_request_frame"
    by (simp add: example_request_frame_length example_request_frame_fields)
  note t1 = prompt_pairs_checked_in_bounds [OF len,
        of "request_of_frame example_request_frame" 1000 example_request_frame "Ptr ()"]
  note t2 = prompt_pairs_checked_in_bounds [OF len',
        of "request_of_frame example_request_frame" 1000 example_request_frame "Ptr ()"]
  have a: "spec_prompt_pair_ok (unat (prompt_data_len (request_of_frame example_request_frame)))
     (unat (t5_offset (request_of_frame example_request_frame)))
     (unat (t5_length (request_of_frame example_request_frame))) \<and>
     unat (prompt_data_len (request_of_frame example_request_frame)) = 3"
    using t1 [THEN conjunct1, THEN mp, OF dec]
    by (auto simp add: spec_prompt_region_size_def example_request_frame_fields)
  have b: "decode_generate_request (Ptr (example_request_frame[59 := 0]))
     (of_nat (length (example_request_frame[59 := 0]))) (Ptr ()) = Some (Inl ERR_INVALID_PROMPT)"
    using t2 [THEN conjunct2, THEN conjunct1, THEN mp] example_zero_length_prompt by blast
  have c: "decode_generate_request (Ptr example_request_frame) 1000 (Ptr ()) \<noteq> None"
    using t1 [THEN conjunct2, THEN conjunct2, THEN mp] m by blast
  show ?thesis
    using len dec m example_zero_length_prompt a b c by blast
qed

section \<open>Facts about the generation pipeline\<close>

lemma map_sd_error_none: "map_sd_error x = (ERR_NONE, s) \<Longrightarrow> x = SD_WRAPPER_OK"
  by (cases x) simp_all

lemma map_sd_error_ok: "fst (map_sd_error x) = ERR_NONE \<longleftrightarrow> x = SD_WRAPPER_OK"
  by (cases x) simp_all

lemma ex_less_Suc_Cons:
  "(\<exists>j<Suc k. P ((a # xs) ! j)) = (P a \<or> (\<exists>j<k. P (xs ! j)))"
  by (auto simp add: less_Suc_eq_0_disj)

lemma image_dimension_cond:
  "(w < SD35_MIN_DIMENSION \<or> w > SD35_MAX_DIMENSION \<or> w mod 64 \<noteq> 0)
   = (\<not> spec_dimension_ok (unat w))"
  using dim_cond [of w] by (simp add: SD35_DIMENSION_ALIGNMENT_def)

lemma image_size_cond: "((n::size_t) > ucast UINT32_MAX) = (\<not> unat n < 2 ^ 32)"
  by (auto simp add: UINT32_MAX_def word_less_nat_alt)

text \<open>The sanity checks of the pipeline on what the engine returned.\<close>

lemma process_generate_request_engine:
  assumes "convert_request_params (Ptr req) (Ptr ()) (Ptr ()) (ucast SD35_MAX_PROMPT_LENGTH + 1)
             = Some (Inr q)"
    and "ctx \<noteq> NULL" and "resp \<noteq> NULL"
    and "gp \<longrightarrow> reset_result e = SD_WRAPPER_OK"
    and "generate_result e q = (sd_err, img)"
  shows "process_generate_request e gp ctx (Ptr req) resp =
     Some (let calls = (if gp then [CallReset] else []) @ [CallGenerate q] in
       if sd_err \<noteq> SD_WRAPPER_OK then (Inl (fst (map_sd_error sd_err)), gp, calls)
       else case img_data img of
         NULL \<Rightarrow> (Inl ERR_INTERNAL, gp, calls)
       | Ptr pixels \<Rightarrow>
           if img_width img = width req \<and> img_height img = height req \<and>
              spec_dimension_ok (unat (img_width img)) \<and>
              spec_dimension_ok (unat (img_height img)) \<and>
              (img_channels img = 3 \<or> img_channels img = 4) \<and>
              unat (img_data_size img) < 2 ^ 32
           then (Inr \<lparr>resp_request_id = request_id req,
                       status = STATUS_OK,
                       generation_time_ms =
                         ucast (if end_time e - start_time e > ucast UINT32_MAX
                                then ucast UINT32_MAX else end_time e - start_time e),
                       image_width = img_width img,
                       image_height = img_height img,
                       channels = img_channels img,
                       image_data_len = ucast (img_data_size img),
                       image_data = Ptr pixels\<rparr>, True, calls)
           else (Inl ERR_INTERNAL, gp, calls @ [CallFreeImage]))"
proof -
  obtain err st where m: "map_sd_error sd_err = (err, st)" by (cases "map_sd_error sd_err")
  have ok: "err = ERR_NONE \<longleftrightarrow> sd_err = SD_WRAPPER_OK"
    using map_sd_error_ok [of sd_err] m by simp
  show ?thesis
    using assms ok
    by (auto simp add: process_generate_request_def Let_def m image_dimension_cond image_size_cond
        split: ptr.splits)
qed

lemma process_generate_request_calls:
  assumes "process_generate_request e gp ctx reqp resp = Some (res, gp', calls)"
  shows "gp' = (gp \<or> \<not> isl res)"
    and "CallReset \<in> set calls \<longleftrightarrow> gp \<and> calls \<noteq> []"
    and "CallGenerate p \<in> set calls \<Longrightarrow>
           take (if gp then 2 else 1) calls = (if gp then [CallReset, CallGenerate p] else [CallGenerate p])"
  using assms
  by (auto simp add: process_generate_request_def Let_def dest: map_sd_error_none
      split: ptr.splits sum.splits if_splits prod.splits option.splits)

lemma process_generate_request_success:
  assumes "process_generate_request e gp ctx reqp resp = Some (res, gp', calls)"
  shows "\<not> isl res \<longleftrightarrow>
     (\<exists>req q img pixels.
        reqp = Ptr req \<and> ctx \<noteq> NULL \<and> resp \<noteq> NULL \<and>
        convert_request_params reqp (Ptr ()) (Ptr ()) (ucast SD35_MAX_PROMPT_LENGTH + 1)
          = Some (Inr q) \<and>
        (gp \<longrightarrow> reset_result e = SD_WRAPPER_OK) \<and>
        generate_result e q = (SD_WRAPPER_OK, img) \<and>
        img_data img = Ptr pixels \<and>
        img_width img = width req \<and> img_height img = height req \<and>
        spec_dimension_ok (unat (img_width img)) \<and>
        spec_dimension_ok (unat (img_height img)) \<and>
        (img_channels img = 3 \<or> img_channels img = 4) \<and>
        unat (img_data_size img) < 2 ^ 32 \<and>
        calls = (if gp then [CallReset] else []) @ [CallGenerate q])"
    (is "?l \<longleftrightarrow> ?r")
proof
  assume ?r
  then obtain req q img pixels where
    r: "reqp = Ptr req" "ctx \<noteq> NULL" "resp \<noteq> NULL"
      "convert_request_params (Ptr req) (Ptr ()) (Ptr ()) (ucast SD35_MAX_PROMPT_LENGTH + 1)
          = Some (Inr q)"
      "gp \<longrightarrow> reset_result e = SD_WRAPPER_OK"
      "generate_result e q = (SD_WRAPPER_OK, img)"
      "img_data img = Ptr pixels"
      "img_width img = width req \<and> img_height img = height req \<and>
        spec_dimension_ok (unat (img_width img)) \<and>
        spec_dimension_ok (unat (img_height img)) \<and>
        (img_channels img = 3 \<or> img_channels img = 4) \<and>
        unat (img_data_size img) < 2 ^ 32"
    by blast
  show ?l
    using assms r(7,8)
    unfolding r(1) process_generate_request_engine [OF r(4) r(2) r(3) r(5) r(6)]
    by (auto simp add: Let_def)
next
  assume l: ?l
  obtain req where req: "reqp = Ptr req" and c: "ctx \<noteq> NULL" "resp \<noteq> NULL"
    using assms l
    by (cases reqp) (auto simp add: process_generate_request_def split: if_splits)
  obtain q where q: "convert_request_params (Ptr req) (Ptr ()) (Ptr ())
      (ucast SD35_MAX_PROMPT_LENGTH + 1) = Some (Inr q)"
    using assms l c unfolding req
    by (auto simp add: process_generate_request_def split: option.splits sum.splits)
  have rs: "gp \<longrightarrow> reset_result e = SD_WRAPPER_OK"
    using assms l c q unfolding req
    by (auto simp add: process_generate_request_def split: if_splits)
  obtain sd_err img where g: "generate_result e q = (sd_err, img)"
    by (cases "generate_result e q")
  note eq = process_generate_request_engine [OF q c rs g]
  have "sd_err = SD_WRAPPER_OK"
    using assms l unfolding req eq by (auto simp add: Let_def split: if_splits)
  moreover obtain pixels where "img_data img = Ptr pixels"
    using assms l unfolding req eq
    by (cases "img_data img") (auto simp add: Let_def split: if_splits)
  moreover have "img_width img = width req \<and> img_height img = height req \<and>
        spec_dimension_ok (unat (img_width img)) \<and>
        spec_dimension_ok (unat (img_height img)) \<and>
        (img_channels img = 3 \<or> img_channels img = 4) \<and>
        unat (img_data_size img) < 2 ^ 32"
    using assms l unfolding req eq
    by (auto simp add: Let_def split: if_splits ptr.splits)
  moreover have "calls = (if gp then [CallReset] else []) @ [CallGenerate q]"
    using assms l unfolding req eq
    by (auto simp add: Let_def split: if_splits ptr.splits)
  ultimately show ?r
    using req c q rs g by blast
qed


lemma convert_request_params_in_bounds:
  assumes "prompt_data req = Ptr pd"
    and "unat (clip_l_offset req) + unat (clip_l_length req) \<le> length pd"
  shows "convert_request_params (Ptr req) p b n \<noteq> None"
  using assms by (simp add: convert_request_params_def Let_def)

lemma decoded_clip_l_in_bounds:
  assumes "spec_first_violation f = ERR_NONE"
  shows "unat (clip_l_offset (request_of_frame f)) + unat (clip_l_length (request_of_frame f))
           \<le> length (drop 76 f)"
proof -
  have g: "spec_gates_1_to_10 f = ERR_NONE" and p: "spec_prompts_ok f"
    using assms by (simp_all add: spec_first_violation_def split: if_splits)
  note v = valid_frame_payload [OF g]
  have "spec_prompt_pair_ok (spec_prompt_region_size f) (unat (frame_u32 f 52))
      (unat (frame_u32 f 56))"
    using p by (simp add: spec_prompts_ok_def Let_def)
  then have "unat (frame_u32 f 52) + unat (frame_u32 f 56) \<le> unat (frame_u32 f 8) - 60"
    unfolding spec_prompt_pair_ok_def spec_prompt_region_size_def by arith
  then show ?thesis
    using v by (simp add: request_of_frame_def)
qed

lemma process_generate_request_in_bounds:
  assumes "spec_first_violation f = ERR_NONE"
  shows "process_generate_request e gp ctx (Ptr (request_of_frame f)) resp \<noteq> None"
proof -
  have "prompt_data (request_of_frame f) = Ptr (drop 76 f)"
    by (simp add: request_of_frame_def)
  from convert_request_params_in_bounds [OF this decoded_clip_l_in_bounds [OF assms]]
  obtain y where "convert_request_params (Ptr (request_of_frame f)) (Ptr ()) (Ptr ())
      (ucast SD35_MAX_PROMPT_LENGTH + 1) = Some y"
    by blast
  then show ?thesis
    by (cases y) (simp_all add: process_generate_request_def del: not_None_eq)
qed

text \<open>
  A request that did not come from the decoder can make the \<open>uint32_t\<close> sum wrap: with
  offset \<open>0xFFFFFFFF\<close> and length 2 the sum is 1, the check against a prompt data length
  of 3 passes, and \<open>memcpy\<close> reads 4 GiB past the prompt data.
\<close>

lemma convert_request_params_wrapped_sum:
  "convert_request_params
     (Ptr \<lparr>request_id = 1, model_id = 0, width = 512, height = 512, steps = 4,
           cfg_scale = 0x40900000, seed = 0,
           clip_l_offset = 0xFFFFFFFF, clip_l_length = 2,
           clip_g_offset = 0, clip_g_length = 1, t5_offset = 0, t5_length = 1,
           prompt_data = Ptr [0x61, 0x62, 0x63], prompt_data_len = 3\<rparr>)
     (Ptr ()) (Ptr ()) (ucast SD35_MAX_PROMPT_LENGTH + 1) = None"
  by (simp add: convert_request_params_def SD35_MAX_PROMPT_LENGTH_def
      word_le_nat_alt word_less_nat_alt)

lemma run_requests_length: "run_requests gp reqs = Some rs \<Longrightarrow> length rs = length reqs"
  by (induction reqs arbitrary: gp rs) (auto split: prod.splits option.splits)

lemma run_requests_nth:
  "run_requests gp reqs = Some rs \<Longrightarrow> k < length rs \<Longrightarrow>
   process_generate_request (fst (reqs ! k)) (fst (rs ! k)) (Ptr ()) (snd (reqs ! k)) (Ptr ())
     = Some (fst (snd (rs ! k)), snd (snd (rs ! k)))"
proof (induction reqs arbitrary: gp rs k)
  case Nil
  then show ?case by simp
next
  case (Cons r reqs)
  obtain e rq where r: "r = (e, rq)" by (cases r)
  obtain res gp' calls rs' where
    p: "process_generate_request e gp (Ptr ()) rq (Ptr ()) = Some (res, gp', calls)"
    and t: "run_requests gp' reqs = Some rs'" and rs: "rs = (gp, res, gp', calls) # rs'"
    using Cons.prems(1) unfolding r by (auto split: option.splits)
  show ?case
  proof (cases k)
    case 0
    then show ?thesis by (simp add: r p rs)
  next
    case (Suc k')
    then have "k' < length rs'" using Cons.prems(2) rs by simp
    from Cons.IH [OF t this] show ?thesis by (simp add: rs Suc)
  qed
qed

lemma run_requests_flag:
  "run_requests gp reqs = Some rs \<Longrightarrow> k < length rs \<Longrightarrow>
   fst (rs ! k) = (gp \<or> (\<exists>j<k. \<not> isl (fst (snd (rs ! j)))))"
proof (induction reqs arbitrary: gp rs k)
  case Nil
  then show ?case by simp
next
  case (Cons r reqs)
  obtain e rq where r: "r = (e, rq)" by (cases r)
  obtain res gp' calls rs' where
    p: "process_generate_request e gp (Ptr ()) rq (Ptr ()) = Some (res, gp', calls)"
    and t: "run_requests gp' reqs = Some rs'" and rs: "rs = (gp, res, gp', calls) # rs'"
    using Cons.prems(1) unfolding r by (auto split: option.splits)
  have gp': "gp' = (gp \<or> \<not> isl res)" by (rule process_generate_request_calls(1) [OF p])
  show ?case
  proof (cases k)
    case 0
    then show ?thesis by (simp add: rs)
  next
    case (Suc k')
    then have k': "k' < length rs'" using Cons.prems(2) rs by simp
    have "(\<exists>j<Suc k'. \<not> isl (fst (snd (rs ! j)))) =
        (\<not> isl res \<or> (\<exists>j<k'. \<not> isl (fst (snd (rs' ! j)))))"
      using ex_less_Suc_Cons [of k' "\<lambda>x. \<not> isl (fst (snd x))" "(gp, res, gp', calls)" rs']
      by (simp add: rs)
    then show ?thesis
      using Cons.IH [OF t k'] by (auto simp add: rs Suc gp')
  qed
qed

lemma run_requests_next:
  "run_requests gp reqs = Some rs \<Longrightarrow> Suc k < length rs \<Longrightarrow>
   fst (rs ! Suc k) = fst (snd (snd (rs ! k)))"
proof (induction reqs arbitrary: gp rs k)
  case Nil
  then show ?case by simp
next
  case (Cons r reqs)
  obtain e rq where r: "r = (e, rq)" by (cases r)
  obtain res gp' calls rs' where
    p: "process_generate_request e gp (Ptr ()) rq (Ptr ()) = Some (res, gp', calls)"
    and t: "run_requests gp' reqs = Some rs'" and rs: "rs = (gp, res, gp', calls) # rs'"
    using Cons.prems(1) unfolding r by (auto split: option.splits)
  show ?case
  proof (cases k)
    case 0
    then have "0 < length rs'" using Cons.prems(2) rs by simp
    from run_requests_flag [OF t this] show ?thesis by (simp add: rs 0)
  next
    case (Suc k')
    then have "Suc k' < length rs'" using Cons.prems(2) rs by simp
    from Cons.IH [OF t this] show ?thesis by (simp add: rs Suc)
  qed
qed

lemma run_requests_in_bounds:
  "\<forall>r\<in>set reqs. \<exists>f. snd r = Ptr (request_of_frame f) \<and> spec_first_violation f = ERR_NONE \<Longrightarrow>
   \<exists>rs. run_requests gp reqs = Some rs"
proof (induction reqs arbitrary: gp)
  case Nil
  then show ?case by simp
next
  case (Cons r reqs)
  obtain e rq where r: "r = (e, rq)" by (cases r)
  obtain f where f: "rq = Ptr (request_of_frame f)" "spec_first_violation f = ERR_NONE"
    using Cons.prems r by auto
  obtain res gp' calls where
    p: "process_generate_request e gp (Ptr ()) rq (Ptr ()) = Some (res, gp', calls)"
    using process_generate_request_in_bounds [OF f(2), of e gp "Ptr ()" "Ptr ()"] f(1)
    by (cases "process_generate_request e gp (Ptr ()) rq (Ptr ())") auto
  obtain rs' where "run_requests gp' reqs = Some rs'"
    using Cons.IH [of gp'] Cons.prems by auto
  then show ?case by (simp add: r p)
qed

section \<open>C9: the engine is reset exactly after a successful generation\<close>

text \<open>
  C9.  A process starts with the flag \<open>generation_performed\<close> clear and serves a sequence
  of requests; for the request at any position \<open>k\<close>, with any answers of the engine:
  the flag at the start of the call is set exactly when an earlier call of the sequence
  returned success; the flag after the call, which the next call finds, is set exactly
  when it was set before or this call returns success; the engine's reset is invoked in
  this call exactly when the flag is set and the call reaches the engine, and then
  directly before generate (when the reset itself succeeds); the very first call never
  invokes reset.  The call returns success exactly when the prompt was converted, the
  reset (if due) succeeded, generate returned \<open>OK\<close> and every sanity check on the image
  passed: the pixel pointer is not \<open>NULL\<close>, width and height are those of the request,
  each in 64..2048 and divisible by 64, the channel count is 3 or 4 and the byte count
  fits 32 bits.  So a generation that fails, in the engine or in a sanity check, leaves
  the flag as it was.  Requests that passed the decoder never make the pipeline read
  outside the prompt data.
\<close>

theorem reset_exactly_after_success:
  "(run_requests False reqs = Some rs \<and> k < length rs \<and> rs ! k = (gp, res, gp', calls) \<and>
    reqs ! k = (e, reqp) \<longrightarrow>
      gp = (\<exists>j<k. \<not> isl (fst (snd (rs ! j)))) \<and>
      gp' = (gp \<or> \<not> isl res) \<and>
      (Suc k < length rs \<longrightarrow> fst (rs ! Suc k) = gp') \<and>
      (CallReset \<in> set calls \<longleftrightarrow> gp \<and> calls \<noteq> []) \<and>
      (\<forall>p. CallGenerate p \<in> set calls \<longrightarrow>
         take (if gp then 2 else 1) calls
           = (if gp then [CallReset, CallGenerate p] else [CallGenerate p])) \<and>
      (k = 0 \<longrightarrow> CallReset \<notin> set calls) \<and>
      (\<not> isl res \<longleftrightarrow>
         (\<exists>req q img pixels.
            reqp = Ptr req \<and>
            convert_request_params reqp (Ptr ()) (Ptr ()) (ucast SD35_MAX_PROMPT_LENGTH + 1)
              = Some (Inr q) \<and>
            (gp \<longrightarrow> reset_result e = SD_WRAPPER_OK) \<and>
            generate_result e q = (SD_WRAPPER_OK, img) \<and>
            img_data img = Ptr pixels \<and>
            img_width img = width req \<and> img_height img = height req \<and>
            spec_dimension_ok (unat (img_width img)) \<and>
            spec_dimension_ok (unat (img_height img)) \<and>
            (img_channels img = 3 \<or> img_channels img = 4) \<and>
            unat (img_data_size img) < 2 ^ 32 \<and>
            calls = (if gp then [CallReset] else []) @ [CallGenerate q]))) \<and>
   ((\<forall>r\<in>set reqs. \<exists>f. snd r = Ptr (request_of_frame f) \<and> spec_first_violation f = ERR_NONE)
      \<longrightarrow> (\<exists>rs. run_requests False reqs = Some rs \<and> length rs = length reqs))"
proof (intro conjI impI)
  assume a: "run_requests False reqs = Some rs \<and> k < length rs \<and>
    rs ! k = (gp, res, gp', calls) \<and> reqs ! k = (e, reqp)"
  then have run: "run_requests False reqs = Some rs" and k: "k < length rs"
    and rk: "rs ! k = (gp, res, gp', calls)" and qk: "reqs ! k = (e, reqp)"
    by simp_all
  have p: "process_generate_request e gp (Ptr ()) reqp (Ptr ()) = Some (res, gp', calls)"
    using run_requests_nth [OF run k] by (simp add: rk qk)
  note c = process_generate_request_calls [OF p]
  show gp: "gp = (\<exists>j<k. \<not> isl (fst (snd (rs ! j))))"
    using run_requests_flag [OF run k] by (simp add: rk)
  show "gp' = (gp \<or> \<not> isl res)" by (rule c(1))
  show "CallReset \<in> set calls \<longleftrightarrow> gp \<and> calls \<noteq> []" by (rule c(2))
  show "\<forall>p. CallGenerate p \<in> set calls \<longrightarrow>
         take (if gp then 2 else 1) calls
           = (if gp then [CallReset, CallGenerate p] else [CallGenerate p])"
    using c(3) by blast
  show "\<not> isl res \<longleftrightarrow>
         (\<exists>req q img pixels.
            reqp = Ptr req \<and>
            convert_request_params reqp (Ptr ()) (Ptr ()) (ucast SD35_MAX_PROMPT_LENGTH + 1)
              = Some (Inr q) \<and>
            (gp \<longrightarrow> reset_result e = SD_WRAPPER_OK) \<and>
            generate_result e q = (SD_WRAPPER_OK, img) \<and>
            img_data img = Ptr pixels \<and>
            img_width img = width req \<and> img_height img = height req \<and>
            spec_dimension_ok (unat (img_width img)) \<and>
            spec_dimension_ok (unat (img_height img)) \<and>
            (img_channels img = 3 \<or> img_channels img = 4) \<and>
            unat (img_data_size img) < 2 ^ 32 \<and>
            calls = (if gp then [CallReset] else []) @ [CallGenerate q])"
    unfolding process_generate_request_success [OF p] by simp
  {
    assume "Suc k < length rs"
    then show "fst (rs ! Suc k) = gp'"
      using run_requests_next [OF run] by (simp add: rk)
  }
  {
    assume "k = 0"
    then have "\<not> gp" using gp by simp
    then show "CallReset \<notin> set calls" using c(2) by simp
  }
next
  assume "\<forall>r\<in>set reqs. \<exists>f. snd r = Ptr (request_of_frame f) \<and> spec_first_violation f = ERR_NONE"
  then obtain rs where "run_requests False reqs = Some rs"
    using run_requests_in_bounds by blast
  then show "\<exists>rs. run_requests False reqs = Some rs \<and> length rs = length reqs"
    using run_requests_length by blast
qed

lemma example_request_prompt:
  "prompt_data (request_of_frame example_request_frame) = Ptr [0x61, 0x62, 0x63]"
  "prompt_data_len (request_of_frame example_request_frame) = 3"
  "clip_l_offset (request_of_frame example_request_frame) = 0"
  "clip_l_length (request_of_frame example_request_frame) = 1"
  "width (request_of_frame example_request_frame) = 512"
  "height (request_of_frame example_request_frame) = 512"
  by (simp_all add: request_of_frame_def spec_prompt_region_size_def example_request_frame_fields)
     (simp add: example_request_frame_def)

lemma example_convert:
  "\<exists>p. convert_request_params (Ptr (request_of_frame example_request_frame)) (Ptr ()) (Ptr ())
          (ucast SD35_MAX_PROMPT_LENGTH + 1) = Some (Inr p)"
  by (simp add: convert_request_params_def example_request_prompt SD35_MAX_PROMPT_LENGTH_def
      word_le_nat_alt word_less_nat_alt)

lemma example_requests_run:
  "\<exists>p resp. run_requests False example_requests =
     Some [(False, Inl ERR_GPU_ERROR, False, [CallGenerate p]),
           (False, Inr resp, True, [CallGenerate p]),
           (True, Inr resp, True, [CallReset, CallGenerate p])]"
proof -
  obtain p where p: "convert_request_params (Ptr (request_of_frame example_request_frame))
      (Ptr ()) (Ptr ()) (ucast SD35_MAX_PROMPT_LENGTH + 1) = Some (Inr p)"
    using example_convert by blast
  show ?thesis
    by (simp add: example_requests_def process_generate_request_def p Let_def
        example_engine_ok_def example_engine_gpu_error_def example_request_prompt
        SD35_MIN_DIMENSION_def SD35_MAX_DIMENSION_def UINT32_MAX_def
        word_le_nat_alt word_less_nat_alt)
qed

theorem reset_exactly_after_success_witness:
  "run_requests False example_requests \<noteq> None \<and>
   length (the (run_requests False example_requests)) = 3 \<and>
   \<not> fst (the (run_requests False example_requests) ! 0) \<and>
   isl (fst (snd (the (run_requests False example_requests) ! 0))) \<and>
   \<not> fst (the (run_requests False example_requests) ! 1) \<and>
   \<not> isl (fst (snd (the (run_requests False example_requests) ! 1))) \<and>
   CallReset \<notin> set (snd (snd (snd (the (run_requests False example_requests) ! 1)))) \<and>
   fst (the (run_requests False example_requests) ! 2) \<and>
   CallReset \<in> set (snd (snd (snd (the (run_requests False example_requests) ! 2))))"
proof -
  obtain p resp where run: "run_requests False example_requests =
     Some [(False, Inl ERR_GPU_ERROR, False, [CallGenerate p]),
           (False, Inr resp, True, [CallGenerate p]),
           (True, Inr resp, True, [CallReset, CallGenerate p])]"
    using example_requests_run by blast
  let ?rs = "[(False, Inl ERR_GPU_ERROR, False, [CallGenerate p]),
           (False, Inr resp, True, [CallGenerate p]),
           (True, Inr resp, True, [CallReset, CallGenerate p])]"
  let ?rq = "Ptr (request_of_frame example_request_frame)"
  have h0: "run_requests False example_requests = Some ?rs \<and> 0 < length ?rs \<and>
      ?rs ! 0 = (False, Inl ERR_GPU_ERROR, False, [CallGenerate p]) \<and>
      example_requests ! 0 = (example_engine_gpu_error, ?rq)"
    and h1: "run_requests False example_requests = Some ?rs \<and> 1 < length ?rs \<and>
      ?rs ! 1 = (False, Inr resp, True, [CallGenerate p]) \<and>
      example_requests ! 1 = (example_engine_ok, ?rq)"
    and h2: "run_requests False example_requests = Some ?rs \<and> 2 < length ?rs \<and>
      ?rs ! 2 = (True, Inr resp, True, [CallReset, CallGenerate p]) \<and>
      example_requests ! 2 = (example_engine_ok, ?rq)"
    using run by (simp_all add: example_requests_def)
  note t0 = reset_exactly_after_success [where reqs = example_requests and rs = ?rs and k = 0
      and gp = False and res = "Inl ERR_GPU_ERROR" and gp' = False and calls = "[CallGenerate p]"
      and e = example_engine_gpu_error and reqp = ?rq, THEN conjunct1, THEN mp, OF h0]
  note t1 = reset_exactly_after_success [where reqs = example_requests and rs = ?rs and k = 1
      and gp = False and res = "Inr resp" and gp' = True and calls = "[CallGenerate p]"
      and e = example_engine_ok and reqp = ?rq, THEN conjunct1, THEN mp, OF h1]
  note t2 = reset_exactly_after_success [where reqs = example_requests and rs = ?rs and k = 2
      and gp = True and res = "Inr resp" and gp' = True
      and calls = "[CallReset, CallGenerate p]"
      and e = example_engine_ok and reqp = ?rq, THEN conjunct1, THEN mp, OF h2]
  have a: "CallReset \<notin> set [CallGenerate p]"
    using t1 by blast
  have b: "CallReset \<in> set [CallReset, CallGenerate p]"
    using t2 by simp
  have c: "\<not> False \<longrightarrow> isl (Inl ERR_GPU_ERROR :: error_code_t + sd35_generate_response_t)"
    using t0 by simp
  have "\<forall>r\<in>set example_requests.
      \<exists>f. snd r = Ptr (request_of_frame f) \<and> spec_first_violation f = ERR_NONE"
    using example_request_frame_valid by (auto simp add: example_requests_def)
  then have d: "\<exists>rs. run_requests False example_requests = Some rs \<and>
      length rs = length example_requests"
    by (rule reset_exactly_after_success [where reqs = example_requests,
          THEN conjunct2, THEN mp])
  show ?thesis
    using run a b c d by (auto simp add: example_requests_def)
qed

section \<open>Facts about the connection handler\<close>

lemma read_full_zero: "read_full evs [] 0 = (0, [], evs)"
  by (simp add: read_full.simps [of evs "[]" 0])

lemma read_full_length:
  "read_full evs buf count = (0, out, evs') \<Longrightarrow> length buf \<le> count \<Longrightarrow> length out = count"
proof (induction evs buf count arbitrary: out evs' rule: read_full.induct)
  case (1 evs buf count)
  note p = "1.prems"(1) [unfolded read_full.simps [of evs buf count]]
  show ?case
  proof (cases "length buf < count")
    case False
    then show ?thesis
      using p "1.prems"(2) by simp
  next
    case True
    show ?thesis
    proof (cases evs)
      case Nil
      then show ?thesis
        using p True by simp
    next
      case (Cons ev rest)
      show ?thesis
      proof (cases ev)
        case (RData bs)
        define n where "n = min (length bs) (count - length buf)"
        show ?thesis
        proof (cases "n = 0")
          case True
          then show ?thesis
            using p \<open>length buf < count\<close> Cons RData
            by (simp add: n_def Let_def)
        next
          case False
          have "read_full (if n < length bs then RData (drop n bs) # rest else rest)
              (buf @ take n bs) count = (0, out, evs')"
            using p \<open>length buf < count\<close> Cons RData False
            by (simp add: n_def [symmetric] Let_def split del: if_split cong: if_cong)
          moreover have "length (buf @ take n bs) \<le> count"
            using \<open>length buf < count\<close> by (simp add: n_def)
          ultimately show ?thesis
            using "1.IH"(1) [OF \<open>length buf < count\<close> Cons RData n_def False] by blast
        qed
      next
        case REintr
        then have "read_full rest buf count = (0, out, evs')"
          using p True Cons by simp
        then show ?thesis
          using "1.IH"(2) [OF True Cons REintr] "1.prems"(2) by blast
      next
        case RError
        then show ?thesis
          using p True Cons by simp
      qed
    qed
  qed
qed

lemma read_full_payload:
  assumes "(if 0 < (n::u32) then read_full evs [] (unat n) else (0, [], evs)) = (0, payload, evs')"
  shows "length payload = unat n"
proof (cases "0 < n")
  case True
  then show ?thesis using assms read_full_length [of evs "[]" "unat n" payload evs'] by simp
next
  case False
  then have "n = 0" by (metis word_neq_0_conv)
  then show ?thesis using assms by simp
qed

lemma request_total_size:
  assumes "\<not> (n::u32) > MAX_REQUEST_SIZE - 16"
  shows "(ucast (16 + n) :: u64) = of_nat (16 + unat n)"
proof -
  have "unat n \<le> 10485744"
    using assms by (simp add: MAX_REQUEST_SIZE_def word_less_nat_alt)
  then have "unat (16 + n) = 16 + unat n"
    by (simp add: unat_word_ariths)
  moreover have "unat (of_nat (16 + unat n) :: u64) = 16 + unat n"
    using \<open>unat n \<le> 10485744\<close> by (intro unat_data_len) simp
  ultimately show ?thesis
    by (simp only: word_unat_eq_iff unat_ucast_32_64)
qed


lemma write_full_all:
  "length bs \<le> k \<Longrightarrow> bs \<noteq> [] \<Longrightarrow>
   write_full (Wrote k # evs) bs out = Returns (0, out @ bs, evs)"
  by (cases bs) simp_all

lemma write_full_closed: "bs \<noteq> [] \<Longrightarrow> write_full [] bs out = Killed"
  by (cases bs) simp_all

lemma write_full_error:
  "bs \<noteq> [] \<Longrightarrow> write_full (WError # evs) bs out = Returns (- 1, out, evs)"
  by (cases bs) simp_all

lemma error_frame_not_empty: "error_frame resp msg \<noteq> []"
  using length_error_frame [of resp msg] by auto

lemma send_error_response_sent:
  assumes "length msg \<le> 4062" and "wr c = Wrote k # w" and "34 + length msg \<le> k"
  shows "send_error_response c rid code msg =
     Returns (0, c\<lparr>wr := w,
                     sent := sent c @ error_frame (build_error_response rid code msg) msg\<rparr>)"
  using assms
  by (simp add: send_error_response_eq write_full_all length_error_frame error_frame_not_empty)

lemma send_error_response_failed:
  assumes "length msg \<le> 4062" and "wr c = WError # w"
  shows "send_error_response c rid code msg = Returns (- 1, c\<lparr>wr := w, sent := sent c\<rparr>)"
  using assms
  by (simp add: send_error_response_eq write_full_error error_frame_not_empty)

lemma send_error_response_closed:
  assumes "length msg \<le> 4062" and "wr c = []"
  shows "send_error_response c rid code msg = Killed"
  using assms
  by (simp add: send_error_response_eq write_full_closed error_frame_not_empty)

lemma handle_connection_short_header:
  assumes "fst (read_full (rd (client s)) [] 16) \<noteq> 0"
  shows "handle_connection env s =
     Some (Returns (- 1, s\<lparr>client := (client s)\<lparr>rd := snd (snd (read_full (rd (client s)) [] 16))\<rparr>\<rparr>))"
proof -
  obtain r h e where x: "read_full (rd (client s)) [] 16 = (r, h, e)"
    by (cases "read_full (rd (client s)) [] 16")
  then show ?thesis
    using assms by (simp add: handle_connection_def Let_def)
qed

lemma handle_connection_bad_magic:
  assumes "read_full (rd (client s)) [] 16 = (0, header, evs)"
    and "frame_u32 header 0 \<noteq> PROTOCOL_MAGIC"
  shows "handle_connection env s =
     Some (case send_error_response ((client s)\<lparr>rd := evs\<rparr>) 0 ERR_INVALID_MAGIC
                  (c_string ''invalid magic number'')
           of Killed \<Rightarrow> Killed
            | Returns (e, c') \<Rightarrow> Returns (0, s\<lparr>client := c'\<rparr>))"
proof -
  have "length header = 16" using read_full_length [OF assms(1)] by simp
  then show ?thesis
    using assms by (simp add: handle_connection_def read_u32_be_eq)
qed

lemma handle_connection_oversized:
  assumes "read_full (rd (client s)) [] 16 = (0, header, evs)"
    and "frame_u32 header 0 = PROTOCOL_MAGIC"
    and "frame_u32 header 8 > MAX_REQUEST_SIZE - 16"
  shows "handle_connection env s =
     Some (case send_error_response ((client s)\<lparr>rd := evs\<rparr>) 0 ERR_INTERNAL
                  (c_string ''payload too large'')
           of Killed \<Rightarrow> Killed
            | Returns (e, c') \<Rightarrow> Returns (0, s\<lparr>client := c'\<rparr>))"
proof -
  have "length header = 16" using read_full_length [OF assms(1)] by simp
  then show ?thesis
    using assms by (simp add: handle_connection_def read_u32_be_eq)
qed

lemma handle_connection_malloc_failed:
  assumes "read_full (rd (client s)) [] 16 = (0, header, evs)"
    and "frame_u32 header 0 = PROTOCOL_MAGIC"
    and "\<not> frame_u32 header 8 > MAX_REQUEST_SIZE - 16"
    and "\<not> malloc_ok env"
  shows "handle_connection env s = Some (Returns (- 1, s\<lparr>client := (client s)\<lparr>rd := evs\<rparr>\<rparr>))"
proof -
  have "length header = 16" using read_full_length [OF assms(1)] by simp
  then show ?thesis
    using assms by (simp add: handle_connection_def read_u32_be_eq)
qed

lemma handle_connection_payload:
  assumes h: "read_full (rd (client s)) [] 16 = (0, header, evs)"
    and m: "frame_u32 header 0 = PROTOCOL_MAGIC"
    and p: "\<not> frame_u32 header 8 > MAX_REQUEST_SIZE - 16"
    and a: "malloc_ok env"
    and r: "(if 0 < frame_u32 header 8 then read_full evs [] (unat (frame_u32 header 8))
             else (0, [], evs)) = (r2, payload, evs')"
  shows "handle_connection env s =
     (if r2 \<noteq> 0 then Some (Returns (- 1, s\<lparr>client := (client s)\<lparr>rd := evs'\<rparr>\<rparr>))
      else case (if spec_first_violation (header @ payload) = ERR_NONE
                 then Inr (request_of_frame (header @ payload))
                 else Inl (spec_first_violation (header @ payload))) of
        Inl err \<Rightarrow>
          Some (case send_error_response ((client s)\<lparr>rd := evs'\<rparr>) 0 err
                       (c_string ''invalid request'')
                of Killed \<Rightarrow> Killed
                 | Returns (e, c') \<Rightarrow> Returns (0, s\<lparr>client := c'\<rparr>))
      | Inr req \<Rightarrow>
         (case process_generate_request (eng env) (generation_performed s)
                 (g_sd_ctx env) (Ptr req) (Ptr ()) of
            None \<Rightarrow> None
          | Some (res, gp, calls) \<Rightarrow>
           (case res of
              Inl err \<Rightarrow>
                Some (case send_error_response ((client s)\<lparr>rd := evs'\<rparr>)
                             (request_id req) err (c_string ''generation failed'')
                      of Killed \<Rightarrow> Killed
                       | Returns (e, c') \<Rightarrow>
                           Returns (0, s\<lparr>generation_performed := gp,
                                         engine_calls := engine_calls s @ calls,
                                         client := c'\<rparr>))
            | Inr resp \<Rightarrow>
                if \<not> realloc_ok env then
                  Some (Returns (- 1, s\<lparr>generation_performed := gp,
                               engine_calls := engine_calls s @ calls @ [CallFreeImage],
                               client := (client s)\<lparr>rd := evs'\<rparr>\<rparr>))
                else
                  case encode_generate_response (Ptr resp)
                         (Ptr (take (unat (ucast (16 + 16 + 16 + image_data_len resp) :: size_t))
                            ((header @ payload) @
                             replicate (unat (ucast (16 + 16 + 16 + image_data_len resp) :: size_t)) 0)))
                         (ucast (16 + 16 + 16 + image_data_len resp)) (Ptr 0)
                  of (err, bufp, lenp) \<Rightarrow>
                    if err \<noteq> ERR_NONE then
                      Some (Returns (- 1, s\<lparr>generation_performed := gp,
                                   engine_calls := engine_calls s @ calls @ [CallFreeImage],
                                   client := (client s)\<lparr>rd := evs'\<rparr>\<rparr>))
                    else case (bufp, lenp) of
                      (Ptr b, Ptr response_len) \<Rightarrow>
                        (case write_full (wr (client s)) (take (unat response_len) b)
                                (sent (client s)) of
                           Killed \<Rightarrow> Some Killed
                         | Returns (r3, out, wevs) \<Rightarrow>
                             Some (Returns (if r3 \<noteq> 0 then - 1 else 0,
                                   s\<lparr>generation_performed := gp,
                                     engine_calls := engine_calls s @ calls @ [CallFreeImage],
                                     client := (client s)\<lparr>rd := evs', wr := wevs, sent := out\<rparr>\<rparr>)))
                    | _ \<Rightarrow> Some (Returns (- 1, s\<lparr>generation_performed := gp,
                                   engine_calls := engine_calls s @ calls @ [CallFreeImage],
                                   client := (client s)\<lparr>rd := evs'\<rparr>\<rparr>)))))"
proof (cases "r2 = 0")
  case False
  have "length header = 16" using read_full_length [OF h] by simp
  then show ?thesis
    using h m p a r False
    by (simp add: handle_connection_def read_u32_be_eq split del: if_split cong: if_cong)
next
  case True
  have lh: "length header = 16" using read_full_length [OF h] by simp
  have lp: "length payload = unat (frame_u32 header 8)"
    using read_full_payload r True by blast
  have "unat (frame_u32 header 8) < 2 ^ 32"
    using unsigned_less [of "frame_u32 header 8"] by simp
  then have "length (header @ payload) < 2 ^ 64"
    using lh lp by simp
  note dec = decode_generate_request_spec [OF this]
  have sz: "(ucast (16 + frame_u32 header 8) :: u64) = of_nat (length (header @ payload))"
    using request_total_size [OF p] lh lp by simp
  have dec': "decode_generate_request (Ptr (header @ payload))
      (ucast (16 + frame_u32 header 8)) (Ptr ()) =
      Some (if spec_first_violation (header @ payload) = ERR_NONE
            then Inr (request_of_frame (header @ payload))
            else Inl (spec_first_violation (header @ payload)))"
    unfolding sz by (rule dec)
  show ?thesis
    using h m p a r True lh
    apply (simp only: handle_connection_def)
    apply (simp add: read_u32_be_eq dec' Let_def split del: if_split cong: if_cong)
    apply (cases "spec_first_violation (header @ payload) = ERR_NONE")
     apply (simp_all add: Let_def
        split: prod.splits sum.splits ptr.splits option.splits outcome.splits)
    done
qed

text \<open>The handler never reads out of bounds, and when it returns, it returns 0 or -1.\<close>

lemma handle_connection_returns:
  "\<exists>x. handle_connection env s = Some x \<and> (\<forall>r s'. x = Returns (r, s') \<longrightarrow> r = 0 \<or> r = - 1)"
proof -
  obtain r header evs where h: "read_full (rd (client s)) [] 16 = (r, header, evs)"
    by (cases "read_full (rd (client s)) [] 16")
  show ?thesis
  proof (cases "r = 0")
    case False
    then show ?thesis
      using handle_connection_short_header [of s env] h by simp
  next
    case True
    note h0 = h [unfolded True]
    show ?thesis
    proof (cases "frame_u32 header 0 = PROTOCOL_MAGIC")
      case False
      then show ?thesis
        using handle_connection_bad_magic [OF h0, of env]
        by (simp split: outcome.splits)
    next
      case m: True
      show ?thesis
      proof (cases "frame_u32 header 8 > MAX_REQUEST_SIZE - 16")
        case True
        then show ?thesis
          using handle_connection_oversized [OF h0 m, of env]
          by (simp split: outcome.splits)
      next
        case p: False
        show ?thesis
        proof (cases "malloc_ok env")
          case False
          then show ?thesis
            using handle_connection_malloc_failed [OF h0 m p, of env] by simp
        next
          case a: True
          obtain r2 payload evs' where
            r: "(if 0 < frame_u32 header 8 then read_full evs [] (unat (frame_u32 header 8))
                 else (0, [], evs)) = (r2, payload, evs')"
            by (cases "if 0 < frame_u32 header 8 then read_full evs [] (unat (frame_u32 header 8))
                 else (0, [], evs)")
          note eq = handle_connection_payload [OF h0 m p a r]
          show ?thesis
          proof (cases "spec_first_violation (header @ payload) = ERR_NONE")
            case False
            then show ?thesis
              unfolding eq by (simp split: outcome.splits)
          next
            case True
            obtain res gp calls where "process_generate_request (eng env) (generation_performed s)
                (g_sd_ctx env) (Ptr (request_of_frame (header @ payload))) (Ptr ())
                = Some (res, gp, calls)"
              using process_generate_request_in_bounds [OF True, of "eng env"
                  "generation_performed s" "g_sd_ctx env" "Ptr ()"]
              by (cases "process_generate_request (eng env) (generation_performed s)
                (g_sd_ctx env) (Ptr (request_of_frame (header @ payload))) (Ptr ())") auto
            then show ?thesis
              unfolding eq using True
              by (simp split: sum.splits prod.splits ptr.splits outcome.splits)
          qed
        qed
      qed
    qed
  qed
qed

section \<open>The handler on concrete connections\<close>

lemma read_full_done: "\<not> length buf < n \<Longrightarrow> read_full evs buf n = (0, buf, evs)"
  by (simp add: read_full.simps [of evs buf n])

lemma read_full_chunk:
  assumes "0 < n" and "n \<le> length bs"
  shows "read_full (RData bs # evs) [] n =
     (0, take n bs, if n < length bs then RData (drop n bs) # evs else evs)"
proof -
  have "min (length bs) n = n" using assms by simp
  then show ?thesis
    using assms
    by (simp add: read_full.simps [of "RData bs # evs" "[]" n] read_full_done)
qed

lemma read_full_short:
  assumes "length bs < n"
  shows "read_full [RData bs] [] n = (- 1, bs, [])"
proof -
  have "min (length bs) n = length bs" using assms by simp
  moreover have "read_full [] bs n = (- 1, bs, [])"
    using assms by (simp add: read_full.simps [of "[]" bs n])
  ultimately show ?thesis
    using assms by (auto simp add: read_full.simps [of "[RData bs]" "[]" n] Let_def)
qed

lemma example_request_id: "request_id (request_of_frame example_request_frame) = 12345"
  by (simp add: request_of_frame_def frame_u64_def example_request_frame_def be_word_def)

lemma example_process_gpu_error:
  "\<exists>p. process_generate_request example_engine_gpu_error False (Ptr ())
          (Ptr (request_of_frame example_request_frame)) (Ptr ()) =
        Some (Inl ERR_GPU_ERROR, False, [CallGenerate p])"
proof -
  obtain p where p: "convert_request_params (Ptr (request_of_frame example_request_frame))
      (Ptr ()) (Ptr ()) (ucast SD35_MAX_PROMPT_LENGTH + 1) = Some (Inr p)"
    using example_convert by blast
  show ?thesis
    by (simp add: process_generate_request_def p Let_def example_engine_gpu_error_def)
qed

lemma example_process_ok:
  "\<exists>p. process_generate_request example_engine_ok False (Ptr ())
          (Ptr (request_of_frame example_request_frame)) (Ptr ()) =
        Some (Inr \<lparr>resp_request_id = 12345, status = 200, generation_time_ms = 2500,
                    image_width = 512, image_height = 512, channels = 3,
                    image_data_len = 786432, image_data = Ptr (replicate 786432 0)\<rparr>,
              True, [CallGenerate p])"
proof -
  obtain p where p: "convert_request_params (Ptr (request_of_frame example_request_frame))
      (Ptr ()) (Ptr ()) (ucast SD35_MAX_PROMPT_LENGTH + 1) = Some (Inr p)"
    using example_convert by blast
  show ?thesis
    by (simp add: process_generate_request_def p Let_def example_engine_ok_def
        example_request_prompt example_request_id STATUS_OK_def
        SD35_MIN_DIMENSION_def SD35_MAX_DIMENSION_def UINT32_MAX_def
        word_le_nat_alt word_less_nat_alt)
qed

lemma example_response_encoded:
  "\<exists>b. encode_generate_response
     (Ptr \<lparr>resp_request_id = 12345, status = 200, generation_time_ms = 2500,
              image_width = 512, image_height = 512, channels = 3,
              image_data_len = 786432, image_data = Ptr (replicate 786432 0)\<rparr>)
     (Ptr (take (unat (ucast (16 + 16 + 16 + (786432 :: u32)) :: size_t))
        (example_request_frame @
         replicate (unat (ucast (16 + 16 + 16 + (786432 :: u32)) :: size_t)) 0)))
     (ucast (16 + 16 + 16 + (786432 :: u32))) (Ptr 0) =
     (ERR_NONE, Ptr b, Ptr 786480) \<and> 786480 \<le> length b"
proof -
  define resp where "resp = \<lparr>resp_request_id = 12345, status = 200, generation_time_ms = 2500,
              image_width = 512, image_height = 512, channels = 3,
              image_data_len = 786432, image_data = Ptr (replicate 786432 (0::u8))\<rparr>"
  define buf where "buf = take 786480 (example_request_frame @ replicate 786480 (0::u8))"
  have sz: "(ucast (16 + 16 + 16 + (786432 :: u32)) :: size_t) = 786480" by simp
  have usz: "unat (786480 :: size_t) = 786480" by simp
  have lb: "length buf = 786480" by (simp add: buf_def)
  have "encode_generate_response (Ptr resp) (Ptr buf) 786480 (Ptr 0) =
     (ERR_NONE,
      Ptr (response_frame resp (take (unat (image_data_len resp)) (replicate 786432 0))
           @ drop (48 + unat (image_data_len resp)) buf),
      Ptr (of_nat (48 + unat (image_data_len resp))))"
    by (rule encode_generate_response_success)
       (simp_all add: resp_def spec_response_valid_def spec_dimension_ok_def lb)
  then show ?thesis
    unfolding sz usz resp_def [symmetric] buf_def [symmetric]
    by (simp add: resp_def length_response_frame lb)
qed

lemma c_string_lengths:
  "length (c_string ''invalid magic number'') = 20"
  by (simp add: c_string_def)

lemma example_request_frame_split:
  "frame_u32 (take 16 example_request_frame) 0 = PROTOCOL_MAGIC"
  "frame_u32 (take 16 example_request_frame) 8 = 63"
  "take 16 example_request_frame @ take 63 (drop 16 example_request_frame) = example_request_frame"
  "length (drop 16 example_request_frame) = 63"
  by (simp_all add: frame_u32_def example_request_frame_def be_word_def PROTOCOL_MAGIC_def)

lemma example_request_frame_reads:
  "read_full [RData example_request_frame] [] 16 =
     (0, take 16 example_request_frame, [RData (drop 16 example_request_frame)])"
  "read_full [RData (drop 16 example_request_frame)] [] 63 =
     (0, take 63 (drop 16 example_request_frame), [])"
  by (simp_all add: read_full_chunk example_request_frame_length example_request_frame_split)

section \<open>C3: a peer that has closed ends the process, not only the request loop\<close>

text \<open>
  C3 does not hold of the code.  A client sends a 16-byte header with a wrong magic
  number and closes the connection.  \<open>handle_connection\<close> reads the header and calls
  \<open>send_error_response\<close>; its \<open>write\<close> raises \<open>SIGPIPE\<close> and the process is killed: no error
  frame is sent and the handler does not return 0 (continue).  Likewise for a well-formed
  request whose client has closed before the response is written: the handler does not
  return -1 (exit loop), the process is killed in \<open>write_full\<close>.  With the peer still
  there, the same malformed request is answered with the error frame and 0.
\<close>

theorem closed_peer_kills_process:
  "handle_connection
     \<lparr>malloc_ok = True, realloc_ok = True, g_sd_ctx = Ptr (), eng = example_engine_ok\<rparr>
     \<lparr>client = \<lparr>rd = [RData [0xDE, 0xAD, 0xBE, 0xEF, 0, 1, 0, 1, 0, 0, 0, 0, 0, 0, 0, 0]],
                wr = [], sent = []\<rparr>,
      generation_performed = False, engine_calls = []\<rparr> = Some Killed \<and>
   handle_connection
     \<lparr>malloc_ok = True, realloc_ok = True, g_sd_ctx = Ptr (), eng = example_engine_ok\<rparr>
     \<lparr>client = \<lparr>rd = [RData example_request_frame], wr = [], sent = []\<rparr>,
      generation_performed = False, engine_calls = []\<rparr> = Some Killed \<and>
   handle_connection
     \<lparr>malloc_ok = True, realloc_ok = True, g_sd_ctx = Ptr (), eng = example_engine_ok\<rparr>
     \<lparr>client = \<lparr>rd = [RData [0xDE, 0xAD, 0xBE, 0xEF, 0, 1, 0, 1, 0, 0, 0, 0, 0, 0, 0, 0]],
                wr = [Wrote 4096], sent = []\<rparr>,
      generation_performed = False, engine_calls = []\<rparr> =
   Some (Returns (0, \<lparr>client = \<lparr>rd = [], wr = [],
                sent = error_frame (build_error_response 0 ERR_INVALID_MAGIC
                         (c_string ''invalid magic number'')) (c_string ''invalid magic number'')\<rparr>,
             generation_performed = False, engine_calls = []\<rparr>))"
proof -
  let ?ok = "\<lparr>malloc_ok = True, realloc_ok = True, g_sd_ctx = Ptr (), eng = example_engine_ok\<rparr>"
  let ?s = "\<lambda>r w. \<lparr>client = \<lparr>rd = r, wr = w, sent = ([] :: u8 list)\<rparr>,
                     generation_performed = False, engine_calls = []\<rparr>"
  let ?msg = "c_string ''invalid magic number''"
  let ?h = "[0xDE, 0xAD, 0xBE, 0xEF, 0, 1, 0, 1, 0, 0, 0, 0, 0, 0, 0, 0] :: u8 list"
  have r: "read_full [RData ?h] [] 16 = (0, ?h, [])"
    using read_full_chunk [of 16 ?h "[]"] by simp
  have m: "frame_u32 ?h 0 \<noteq> PROTOCOL_MAGIC"
    by (simp add: frame_u32_def be_word_def PROTOCOL_MAGIC_def)
  have a: "handle_connection ?ok (?s [RData ?h] []) = Some Killed"
    using handle_connection_bad_magic [of "?s [RData ?h] []" ?h "[]" ?ok] r m
      send_error_response_closed [of ?msg "\<lparr>rd = [], wr = [], sent = []\<rparr>" 0 ERR_INVALID_MAGIC]
    by (simp add: c_string_lengths)
  have c: "handle_connection ?ok (?s [RData ?h] [Wrote 4096]) =
      Some (Returns (0, \<lparr>client = \<lparr>rd = [], wr = [],
                  sent = error_frame (build_error_response 0 ERR_INVALID_MAGIC ?msg) ?msg\<rparr>,
                generation_performed = False, engine_calls = []\<rparr>))"
    using handle_connection_bad_magic [of "?s [RData ?h] [Wrote 4096]" ?h "[]" ?ok] r m
      send_error_response_sent [of ?msg "\<lparr>rd = [], wr = [Wrote 4096], sent = []\<rparr>" 4096 "[]"
        0 ERR_INVALID_MAGIC]
    by (simp add: c_string_lengths)
  let ?H = "take 16 example_request_frame"
  let ?P = "take 63 (drop 16 example_request_frame)"
  obtain q where g: "process_generate_request example_engine_ok False (Ptr ())
          (Ptr (request_of_frame example_request_frame)) (Ptr ()) =
        Some (Inr \<lparr>resp_request_id = 12345, status = 200, generation_time_ms = 2500,
                    image_width = 512, image_height = 512, channels = 3,
                    image_data_len = 786432, image_data = Ptr (replicate 786432 0)\<rparr>,
              True, [CallGenerate q])"
    using example_process_ok by blast
  obtain b where e: "encode_generate_response
     (Ptr \<lparr>resp_request_id = 12345, status = 200, generation_time_ms = 2500,
              image_width = 512, image_height = 512, channels = 3,
              image_data_len = 786432, image_data = Ptr (replicate 786432 0)\<rparr>)
     (Ptr (take (unat (ucast (16 + 16 + 16 + (786432 :: u32)) :: size_t))
        (example_request_frame @
         replicate (unat (ucast (16 + 16 + 16 + (786432 :: u32)) :: size_t)) 0)))
     (ucast (16 + 16 + 16 + (786432 :: u32))) (Ptr 0) =
     (ERR_NONE, Ptr b, Ptr 786480)" and lb: "786480 \<le> length b"
    using example_response_encoded by blast
  have nb: "take (unat (786480 :: size_t)) b \<noteq> []"
    using lb by auto
  have b: "handle_connection ?ok (?s [RData example_request_frame] []) = Some Killed"
    using handle_connection_payload [of "?s [RData example_request_frame] []" ?H
        "[RData (drop 16 example_request_frame)]" ?ok 0 ?P "[]"]
      g e write_full_closed [OF nb, of "[]"]
    by (simp add: example_request_frame_reads example_request_frame_split
        example_request_frame_valid MAX_REQUEST_SIZE_def)
  show ?thesis
    using a b c by simp
qed

section \<open>Facts about the socket timeouts and the accept loop\<close>

lemma socket_set_timeouts_ok:
  assumes "0 \<le> fd" and "rd_t > 0 \<longrightarrow> r_ok" and "wr_t > 0 \<longrightarrow> w_ok"
  shows "socket_set_timeouts r_ok w_ok opts fd rd_t wr_t =
     (SOCKET_OK, opts\<lparr>rcvtimeo := if rd_t > 0 then rd_t else rcvtimeo opts,
                      sndtimeo := if wr_t > 0 then wr_t else sndtimeo opts\<rparr>)"
  using assms by (simp add: socket_set_timeouts_def Let_def)

lemma socket_set_timeouts_error:
  "fst (socket_set_timeouts r_ok w_ok opts fd rd_t wr_t) \<noteq> SOCKET_OK \<longleftrightarrow>
     fd < 0 \<or> (rd_t > 0 \<and> \<not> r_ok) \<or> (wr_t > 0 \<and> \<not> w_ok)"
  by (simp add: socket_set_timeouts_def Let_def)

lemma accept_iterations_authenticated:
  assumes "0 \<le> accept_ret st" and "auth_err st = SOCKET_OK" and "rcv_ok st" and "snd_ok st"
  shows "accept_iterations (st # rest) =
     (fst (accept_iterations rest),
      EvAuth (accept_ret st) # EvSetTimeouts (accept_ret st) 60 5 SOCKET_OK #
      EvHandler (accept_ret st) ((new_timeouts st)\<lparr>rcvtimeo := 60, sndtimeo := 5\<rparr>) #
      EvClose (accept_ret st) # snd (accept_iterations rest))"
proof -
  have "socket_set_timeouts (rcv_ok st) (snd_ok st) (new_timeouts st) (accept_ret st)
      DEFAULT_READ_TIMEOUT_S DEFAULT_WRITE_TIMEOUT_S =
      (SOCKET_OK, (new_timeouts st)\<lparr>rcvtimeo := 60, sndtimeo := 5\<rparr>)"
    using assms
    by (simp add: socket_set_timeouts_ok DEFAULT_READ_TIMEOUT_S_def DEFAULT_WRITE_TIMEOUT_S_def)
  then show ?thesis
    using assms
    by (simp add: Let_def DEFAULT_READ_TIMEOUT_S_def DEFAULT_WRITE_TIMEOUT_S_def
        split: prod.splits)
qed

lemma accept_iterations_rejected:
  assumes "0 \<le> accept_ret st" and "auth_err st \<noteq> SOCKET_OK"
  shows "accept_iterations (st # rest) =
     (fst (accept_iterations rest),
      EvAuth (accept_ret st) # EvClose (accept_ret st) # snd (accept_iterations rest))"
  using assms by (simp add: Let_def split: prod.splits)

section \<open>C8: the timeouts of a client socket\<close>

text \<open>
  C8, as the sentence stands, fails in its last part: a negative timeout is not
  rejected.  With a valid descriptor, \<open>socket_set_timeouts\<close> called with -1 for both
  timeouts returns \<open>SOCKET_OK\<close> and leaves both timeouts as they were.
\<close>

theorem negative_timeout_counterexample:
  "socket_set_timeouts True True \<lparr>rcvtimeo = 60, sndtimeo = 5\<rparr> 3 (- 1) (- 1) =
     (SOCKET_OK, \<lparr>rcvtimeo = 60, sndtimeo = 5\<rparr>)"
  by (simp add: socket_set_timeouts_def)

text \<open>
  C8, amended.  In the accept loop, a connection that has passed authentication gets
  \<open>socket_set_timeouts\<close> with 60 and 5 seconds before the handler runs, and with both
  \<open>setsockopt\<close> calls succeeding the handler runs with a receive timeout of 60 s and a
  send timeout of 5 s; a connection that fails authentication is closed without it.
  \<open>socket_set_timeouts\<close> on a valid descriptor sets each timeout that is positive and
  leaves a timeout whose value is zero or negative unchanged, without an error; it
  fails only for a negative descriptor (\<open>INVALID_FD\<close>) or when a \<open>setsockopt\<close> call for a
  positive value fails.
\<close>

theorem socket_timeouts_applied:
  "(0 \<le> accept_ret st \<and> auth_err st = SOCKET_OK \<and> rcv_ok st \<and> snd_ok st \<longrightarrow>
      accept_iterations (st # rest) =
        (fst (accept_iterations rest),
         EvAuth (accept_ret st) # EvSetTimeouts (accept_ret st) 60 5 SOCKET_OK #
         EvHandler (accept_ret st) ((new_timeouts st)\<lparr>rcvtimeo := 60, sndtimeo := 5\<rparr>) #
         EvClose (accept_ret st) # snd (accept_iterations rest))) \<and>
   (0 \<le> accept_ret st \<and> auth_err st \<noteq> SOCKET_OK \<longrightarrow>
      accept_iterations (st # rest) =
        (fst (accept_iterations rest),
         EvAuth (accept_ret st) # EvClose (accept_ret st) # snd (accept_iterations rest))) \<and>
   (0 \<le> fd \<and> (rd_t > 0 \<longrightarrow> r_ok) \<and> (wr_t > 0 \<longrightarrow> w_ok) \<longrightarrow>
      socket_set_timeouts r_ok w_ok opts fd rd_t wr_t =
        (SOCKET_OK, opts\<lparr>rcvtimeo := if rd_t > 0 then rd_t else rcvtimeo opts,
                         sndtimeo := if wr_t > 0 then wr_t else sndtimeo opts\<rparr>)) \<and>
   (0 \<le> fd \<and> rd_t \<le> 0 \<and> wr_t \<le> 0 \<longrightarrow>
      socket_set_timeouts r_ok w_ok opts fd rd_t wr_t = (SOCKET_OK, opts)) \<and>
   (fst (socket_set_timeouts r_ok w_ok opts fd rd_t wr_t) \<noteq> SOCKET_OK \<longleftrightarrow>
      fd < 0 \<or> (rd_t > 0 \<and> \<not> r_ok) \<or> (wr_t > 0 \<and> \<not> w_ok)) \<and>
   (fd < 0 \<longrightarrow>
      socket_set_timeouts r_ok w_ok opts fd rd_t wr_t = (SOCKET_ERR_INVALID_FD, opts))"
proof (intro conjI impI)
  assume "0 \<le> accept_ret st \<and> auth_err st = SOCKET_OK \<and> rcv_ok st \<and> snd_ok st"
  then show "accept_iterations (st # rest) =
        (fst (accept_iterations rest),
         EvAuth (accept_ret st) # EvSetTimeouts (accept_ret st) 60 5 SOCKET_OK #
         EvHandler (accept_ret st) ((new_timeouts st)\<lparr>rcvtimeo := 60, sndtimeo := 5\<rparr>) #
         EvClose (accept_ret st) # snd (accept_iterations rest))"
    using accept_iterations_authenticated by blast
next
  assume "0 \<le> accept_ret st \<and> auth_err st \<noteq> SOCKET_OK"
  then show "accept_iterations (st # rest) =
        (fst (accept_iterations rest),
         EvAuth (accept_ret st) # EvClose (accept_ret st) # snd (accept_iterations rest))"
    using accept_iterations_rejected by blast
next
  assume "0 \<le> fd \<and> (rd_t > 0 \<longrightarrow> r_ok) \<and> (wr_t > 0 \<longrightarrow> w_ok)"
  then show "socket_set_timeouts r_ok w_ok opts fd rd_t wr_t =
        (SOCKET_OK, opts\<lparr>rcvtimeo := if rd_t > 0 then rd_t else rcvtimeo opts,
                         sndtimeo := if wr_t > 0 then wr_t else sndtimeo opts\<rparr>)"
    using socket_set_timeouts_ok by blast
next
  assume "0 \<le> fd \<and> rd_t \<le> 0 \<and> wr_t \<le> 0"
  then show "socket_set_timeouts r_ok w_ok opts fd rd_t wr_t = (SOCKET_OK, opts)"
    by (simp add: socket_set_timeouts_def)
next
  show "fst (socket_set_timeouts r_ok w_ok opts fd rd_t wr_t) \<noteq> SOCKET_OK \<longleftrightarrow>
      fd < 0 \<or> (rd_t > 0 \<and> \<not> r_ok) \<or> (wr_t > 0 \<and> \<not> w_ok)"
    by (rule socket_set_timeouts_error)
next
  assume "fd < 0"
  then show "socket_set_timeouts r_ok w_ok opts fd rd_t wr_t = (SOCKET_ERR_INVALID_FD, opts)"
    by (simp add: socket_set_timeouts_def)
qed

theorem socket_timeouts_applied_witness:
  "socket_accept_loop 3 (Ptr ())
     [\<lparr>accept_ret = 7, accept_eintr = False, new_timeouts = \<lparr>rcvtimeo = 0, sndtimeo = 0\<rparr>,
       auth_err = SOCKET_OK, rcv_ok = True, snd_ok = True, handler_result = 0\<rparr>,
      \<lparr>accept_ret = 8, accept_eintr = False, new_timeouts = \<lparr>rcvtimeo = 0, sndtimeo = 0\<rparr>,
       auth_err = SOCKET_ERR_AUTH_UID_MISMATCH, rcv_ok = True, snd_ok = True,
       handler_result = 0\<rparr>] =
     (SOCKET_OK,
      [EvAuth 7, EvSetTimeouts 7 60 5 SOCKET_OK,
       EvHandler 7 \<lparr>rcvtimeo = 60, sndtimeo = 5\<rparr>, EvClose 7,
       EvAuth 8, EvClose 8]) \<and>
   socket_set_timeouts True True \<lparr>rcvtimeo = 60, sndtimeo = 5\<rparr> 7 30 0 =
     (SOCKET_OK, \<lparr>rcvtimeo = 30, sndtimeo = 5\<rparr>) \<and>
   socket_set_timeouts False False \<lparr>rcvtimeo = 60, sndtimeo = 5\<rparr> 7 0 (- 2) =
     (SOCKET_OK, \<lparr>rcvtimeo = 60, sndtimeo = 5\<rparr>) \<and>
   fst (socket_set_timeouts False True \<lparr>rcvtimeo = 0, sndtimeo = 0\<rparr> 7 60 5) \<noteq> SOCKET_OK \<and>
   socket_set_timeouts True True \<lparr>rcvtimeo = 0, sndtimeo = 0\<rparr> (- 1) 60 5 =
     (SOCKET_ERR_INVALID_FD, \<lparr>rcvtimeo = 0, sndtimeo = 0\<rparr>)"
proof -
  let ?a = "\<lparr>accept_ret = 7, accept_eintr = False, new_timeouts = \<lparr>rcvtimeo = 0, sndtimeo = 0\<rparr>,
       auth_err = SOCKET_OK, rcv_ok = True, snd_ok = True, handler_result = 0\<rparr>"
  let ?b = "\<lparr>accept_ret = 8, accept_eintr = False, new_timeouts = \<lparr>rcvtimeo = 0, sndtimeo = 0\<rparr>,
       auth_err = SOCKET_ERR_AUTH_UID_MISMATCH, rcv_ok = True, snd_ok = True,
       handler_result = 0\<rparr>"
  have b: "accept_iterations [?b] = (SOCKET_OK, [EvAuth 8, EvClose 8])"
    using socket_timeouts_applied [where st = ?b and rest = "[]",
        THEN conjunct2, THEN conjunct1]
    by simp
  have a: "accept_iterations [?a, ?b] =
     (SOCKET_OK,
      [EvAuth 7, EvSetTimeouts 7 60 5 SOCKET_OK,
       EvHandler 7 \<lparr>rcvtimeo = 60, sndtimeo = 5\<rparr>, EvClose 7, EvAuth 8, EvClose 8])"
    using socket_timeouts_applied [where st = ?a and rest = "[?b]", THEN conjunct1]
    by (simp add: b)
  have c: "socket_set_timeouts True True \<lparr>rcvtimeo = 60, sndtimeo = 5\<rparr> 7 30 0 =
     (SOCKET_OK, \<lparr>rcvtimeo = 30, sndtimeo = 5\<rparr>)"
    using socket_timeouts_applied [where fd = 7 and rd_t = 30 and wr_t = 0 and r_ok = True
        and w_ok = True and opts = "\<lparr>rcvtimeo = 60, sndtimeo = 5\<rparr>",
        THEN conjunct2, THEN conjunct2, THEN conjunct1]
    by simp
  have d: "socket_set_timeouts False False \<lparr>rcvtimeo = 60, sndtimeo = 5\<rparr> 7 0 (- 2) =
     (SOCKET_OK, \<lparr>rcvtimeo = 60, sndtimeo = 5\<rparr>)"
    using socket_timeouts_applied [where fd = 7 and rd_t = 0 and wr_t = "- 2" and r_ok = False
        and w_ok = False and opts = "\<lparr>rcvtimeo = 60, sndtimeo = 5\<rparr>",
        THEN conjunct2, THEN conjunct2, THEN conjunct2, THEN conjunct1]
    by simp
  have e: "fst (socket_set_timeouts False True \<lparr>rcvtimeo = 0, sndtimeo = 0\<rparr> 7 60 5) \<noteq> SOCKET_OK"
    using socket_timeouts_applied [where fd = 7 and rd_t = 60 and wr_t = 5 and r_ok = False
        and w_ok = True and opts = "\<lparr>rcvtimeo = 0, sndtimeo = 0\<rparr>",
        THEN conjunct2, THEN conjunct2, THEN conjunct2, THEN conjunct2, THEN conjunct1]
    by simp
  have f: "socket_set_timeouts True True \<lparr>rcvtimeo = 0, sndtimeo = 0\<rparr> (- 1) 60 5 =
     (SOCKET_ERR_INVALID_FD, \<lparr>rcvtimeo = 0, sndtimeo = 0\<rparr>)"
    using socket_timeouts_applied [where fd = "- 1" and rd_t = 60 and wr_t = 5 and r_ok = True
        and w_ok = True and opts = "\<lparr>rcvtimeo = 0, sndtimeo = 0\<rparr>",
        THEN conjunct2, THEN conjunct2, THEN conjunct2, THEN conjunct2, THEN conjunct2]
    by simp
  show ?thesis
    using a c d e f by (simp add: socket_accept_loop_def)
qed

end
